theory Spec2Isabelle
  imports Complex_Main "HOL-Library.AList" "HOL-Library.Char_ord" "HOL-Library.List_Lexorder"
begin

section \<open>Ambient effects: identifiers and the clock\<close>

text \<open>
  The engines draw fresh identifiers (\<open>uuidv4()\<close>) and read the clock (\<open>new Date()\<close>,
  SQL \<open>CURRENT_TIMESTAMP\<close>). Both are made explicit: a world holds the sequence of
  identifiers and of clock readings, and a counter of the draws made so far. Every draw
  advances the counter.
\<close>

record world =
  uuids :: "nat \<Rightarrow> string"
  clock :: "nat \<Rightarrow> nat"
  draws :: nat

definition uuidv4 :: "world \<Rightarrow> string \<times> world" where
  "uuidv4 w = (uuids w (draws w), w\<lparr>draws := Suc (draws w)\<rparr>)"

definition new_Date :: "world \<Rightarrow> nat \<times> world" where
  "new_Date w = (clock w (draws w), w\<lparr>draws := Suc (draws w)\<rparr>)"

text \<open>JavaScript truthiness of an optional string: \<open>undefined\<close> and \<open>''\<close> are falsy.\<close>

definition truthy :: "string option \<Rightarrow> bool" where
  "truthy v = (case v of None \<Rightarrow> False | Some s \<Rightarrow> s \<noteq> [])"

text \<open>The expression \<open>v || ''\<close>.\<close>

definition or_empty :: "string option \<Rightarrow> string" where
  "or_empty v = (case v of None \<Rightarrow> [] | Some s \<Rightarrow> s)"

text \<open>
  The values that a permission lookup can produce. The permission matrix is a plain
  object, so a lookup can also reach what its prototype chain holds: a built-in function
  or object (named here by its standard name), the number in a function's \<open>length\<close>, the
  string in its \<open>name\<close>.
\<close>

datatype js_value =
    JUndefined
  | JNull
  | JBool bool
  | JNumber nat
  | JString string
  | JBuiltin string

fun js_truthy :: "js_value \<Rightarrow> bool" where
  "js_truthy JUndefined = False"
| "js_truthy JNull = False"
| "js_truthy (JBool b) = b"
| "js_truthy (JNumber n) = (n \<noteq> 0)"
| "js_truthy (JString s) = (s \<noteq> [])"
| "js_truthy (JBuiltin name) = True"

text \<open>The expressions \<open>v || false\<close> and \<open>v && w\<close>.\<close>

definition js_or_false :: "js_value \<Rightarrow> js_value" where
  "js_or_false v = (if js_truthy v then v else JBool False)"

definition js_and :: "js_value \<Rightarrow> js_value \<Rightarrow> js_value" where
  "js_and v w = (if js_truthy v then w else v)"

section \<open>Memory permissions (memoryPermissions.js)\<close>

subsection \<open>What the permission engine sees of the team memory engine\<close>

record vote =
  v_memberId :: string
  v_vote :: string
  v_timestamp :: nat

record comment =
  c_id :: string
  c_memberId :: string
  c_content :: string
  c_timestamp :: nat
  c_parentCommentId :: "string option"

record team_member =
  tm_id :: string
  tm_email :: string
  tm_name :: string
  tm_role :: string
  tm_joinedAt :: nat
  tm_lastActive :: nat
  tm_permissions :: string

record team_memory =
  mem_id :: string
  mem_type :: string
  mem_title :: string
  mem_content :: string
  mem_context :: "string option"
  mem_createdBy :: string
  mem_createdAt :: nat
  mem_updatedAt :: nat
  mem_tags :: string
  mem_visibility :: "string option"
  mem_projectId :: "string option"
  mem_metadata :: string
  mem_votes :: "vote list"
  mem_comments :: "comment list"
  mem_usageCount :: nat
  mem_successScore :: real

text \<open>
  The constructor receives \<open>teamMemoryEngine\<close> and the engine calls two of its methods,
  \<open>getTeamMembers()\<close> and \<open>getTeamMemories()\<close>. Each either resolves to a list or
  rejects with an error message (\<open>Inl\<close>). The permission engine never writes to the team
  store, so within one call both answer the same at every use.
\<close>

record team_port =
  port_getTeamMembers :: "string + team_member list"
  port_getTeamMemories :: "string + team_memory list"

subsection \<open>Rules, requests, audit entries\<close>

record permission =
  p_action :: string
  p_granted :: bool

datatype condition =
    TimeWindow nat nat
  | MemoryType string
  | ApprovalRequired
  | OtherCondition string

record permission_rule =
  r_id :: string
  r_resourceType :: string
  r_resourceId :: "string option"
  r_subjectType :: string
  r_subjectId :: string
  r_permissions :: "permission list"
  r_createdBy :: string
  r_createdAt :: nat
  r_expiresAt :: "nat option"
  r_conditions :: "condition list option"
  r_isActive :: bool

record access_request =
  q_id :: string
  q_requesterId :: string
  q_resourceType :: string
  q_resourceId :: "string option"
  q_requestedPermissions :: "permission list"
  q_status :: string
  q_createdAt :: nat
  q_approvedAt :: "nat option"
  q_approvedBy :: "string option"
  q_denyReason :: "string option"
  q_expiresAt :: "nat option"

record audit_log =
  a_id :: string
  a_userId :: string
  a_userName :: string
  a_action :: string
  a_resourceType :: string
  a_resourceId :: "string option"
  a_resourceName :: "string option"
  a_timestamp :: nat
  a_success :: js_value
  a_errorMessage :: "string option"
  a_metadata :: "string option"

text \<open>
  The two \<open>Map\<close>s keep insertion order, and \<open>set\<close> on a present key replaces the value
  where it stands: an association list under \<open>AList.update\<close>.
\<close>

record perm_engine =
  permissionRules :: "(string \<times> permission_rule) list"
  accessRequests :: "(string \<times> access_request) list"
  auditLogs :: "audit_log list"
  teamMemoryEngine :: team_port
  pworld :: world

definition defaultPermissions :: "(string \<times> (string \<times> bool) list) list" where
  "defaultPermissions =
    [(''admin'',
        [(''read'', True), (''write'', True), (''delete'', True), (''share'', True),
         (''vote'', True), (''comment'', True), (''moderate'', True), (''admin'', True)]),
     (''developer'',
        [(''read'', True), (''write'', True), (''delete'', False), (''share'', True),
         (''vote'', True), (''comment'', True), (''moderate'', False), (''admin'', False)]),
     (''observer'',
        [(''read'', True), (''write'', False), (''delete'', False), (''share'', False),
         (''vote'', True), (''comment'', True), (''moderate'', False), (''admin'', False)])]"

subsection \<open>Audit logging\<close>

text \<open>\<open>xs.slice(-n)\<close>: the last \<open>n\<close> elements.\<close>

definition slice_last :: "nat \<Rightarrow> 'a list \<Rightarrow> 'a list" where
  "slice_last n xs = drop (length xs - n) xs"

text \<open>The object literal that \<open>logAudit\<close> builds.\<close>

definition mk_auditLog ::
  "team_member list \<Rightarrow> string \<Rightarrow> nat \<Rightarrow> string \<Rightarrow> string \<Rightarrow> string \<Rightarrow> string option \<Rightarrow>
     js_value \<Rightarrow> string option \<Rightarrow> string option \<Rightarrow> audit_log" where
  "mk_auditLog members uid now userId action resourceType resourceId success errorMessage metadata =
    \<lparr> a_id = uid, a_userId = userId,
      a_userName = (case find (\<lambda>m. tm_id m = userId) members of
                      None \<Rightarrow> ''Unknown''
                    | Some user \<Rightarrow> if tm_name user = [] then ''Unknown'' else tm_name user),
      a_action = action, a_resourceType = resourceType,
      a_resourceId = resourceId, a_resourceName = resourceId,
      a_timestamp = now, a_success = success,
      a_errorMessage = errorMessage, a_metadata = metadata \<rparr>"

text \<open>\<open>push\<close>, then keep only the last 10,000 entries.\<close>

definition push_capped :: "audit_log list \<Rightarrow> audit_log \<Rightarrow> audit_log list" where
  "push_capped logs auditLog =
    (let logs' = logs @ [auditLog]
     in if length logs' > 10000 then slice_last 10000 logs' else logs')"

definition logAudit ::
  "perm_engine \<Rightarrow> string \<Rightarrow> string \<Rightarrow> string \<Rightarrow> string option \<Rightarrow> js_value \<Rightarrow>
     string option \<Rightarrow> string option \<Rightarrow> (string + unit) \<times> perm_engine" where
  "logAudit s userId action resourceType resourceId success errorMessage metadata =
    (case port_getTeamMembers (teamMemoryEngine s) of
       Inl err \<Rightarrow> (Inl err, s)
     | Inr members \<Rightarrow>
        (let (uid, w1) = uuidv4 (pworld s);
             (now, w2) = new_Date w1;
             auditLog = mk_auditLog members uid now userId action resourceType resourceId
                          success errorMessage metadata
         in (Inr (), s\<lparr>auditLogs := push_capped (auditLogs s) auditLog, pworld := w2\<rparr>)))"

text \<open>The pattern \<open>await this.logAudit(...); return v;\<close>\<close>

definition log_return ::
  "perm_engine \<Rightarrow> string \<Rightarrow> string \<Rightarrow> string \<Rightarrow> string option \<Rightarrow> js_value \<Rightarrow>
     string option \<Rightarrow> 'a \<Rightarrow> (string + 'a) \<times> perm_engine" where
  "log_return s userId action resourceType resourceId success errorMessage v =
    (case logAudit s userId action resourceType resourceId success errorMessage None of
       (Inl err, s') \<Rightarrow> (Inl err, s')
     | (Inr _, s') \<Rightarrow> (Inr v, s'))"

subsection \<open>The decision\<close>

text \<open>
  \<open>this.defaultPermissions[role]?.[action] || false\<close>. The matrix and its three rows are
  object literals, so each of the two lookups that finds no own property goes on to
  \<open>Object.prototype\<close>. Its string-keyed properties are the constructor \<open>Object\<close>, ten
  methods, and the accessor \<open>__proto__\<close>, whose getter returns the prototype of the object
  it is read from.
\<close>

definition object_prototype_methods :: "string list" where
  "object_prototype_methods =
    [''__defineGetter__'', ''__defineSetter__'', ''hasOwnProperty'', ''__lookupGetter__'',
     ''__lookupSetter__'', ''isPrototypeOf'', ''propertyIsEnumerable'', ''toString'',
     ''valueOf'', ''toLocaleString'']"

text \<open>
  A property read that has reached \<open>Object.prototype\<close>; \<open>proto\<close> is the prototype of the
  object that the read started from.
\<close>

definition get_Object_prototype :: "js_value \<Rightarrow> string \<Rightarrow> js_value" where
  "get_Object_prototype proto key =
    (if key = ''__proto__'' then proto
     else if key = ''constructor'' then JBuiltin ''Object''
     else if key \<in> set object_prototype_methods then JBuiltin (''Object.prototype.'' @ key)
     else JUndefined)"

text \<open>
  A role that is no key of the matrix but names a property of \<open>Object.prototype\<close> selects
  that built-in function, and the action is then read from the function. A built-in
  function has the own properties \<open>length\<close> and \<open>name\<close>; \<open>Object\<close> has in addition \<open>prototype\<close>
  and its static methods (those of ECMAScript 2022 are listed). Its prototype is
  \<open>Function.prototype\<close>, which holds \<open>apply\<close>, \<open>bind\<close>, \<open>call\<close>, \<open>toString\<close>, the constructor
  \<open>Function\<close>, and the accessors \<open>arguments\<close> and \<open>caller\<close>, which throw a \<open>TypeError\<close> when
  read from a built-in function.
\<close>

definition builtin_length :: "string \<Rightarrow> nat" where
  "builtin_length f =
    (if f \<in> set [''toString'', ''valueOf'', ''toLocaleString''] then 0
     else if f \<in> set [''__defineGetter__'', ''__defineSetter__''] then 2
     else 1)"

definition builtin_name :: "string \<Rightarrow> string" where
  "builtin_name f = (if f = ''constructor'' then ''Object'' else f)"

definition object_static_methods :: "string list" where
  "object_static_methods =
    [''assign'', ''getOwnPropertyDescriptor'', ''getOwnPropertyDescriptors'',
     ''getOwnPropertyNames'', ''getOwnPropertySymbols'', ''hasOwn'', ''is'',
     ''preventExtensions'', ''seal'', ''create'', ''defineProperties'', ''defineProperty'',
     ''freeze'', ''getPrototypeOf'', ''setPrototypeOf'', ''isExtensible'', ''isFrozen'',
     ''isSealed'', ''keys'', ''entries'', ''fromEntries'', ''values'']"

definition function_prototype_methods :: "string list" where
  "function_prototype_methods = [''apply'', ''bind'', ''call'', ''toString'']"

definition restricted_function_properties :: "string list" where
  "restricted_function_properties = [''arguments'', ''caller'']"

definition restricted_property_message :: string where
  "restricted_property_message =
    [CHR 0x27] @ ''caller'' @ [CHR 0x27] @ '', '' @ [CHR 0x27] @ ''callee'' @ [CHR 0x27] @
    '', and '' @ [CHR 0x27] @ ''arguments'' @ [CHR 0x27] @
    '' properties may not be accessed on strict mode functions or the arguments objects for calls to them''"

text \<open>
  Reading \<open>key\<close> from the built-in function that \<open>Object.prototype\<close> holds under the name
  \<open>f\<close>. \<open>Inl\<close> is a thrown error, with its message.
\<close>

definition get_builtin_function :: "string \<Rightarrow> string \<Rightarrow> string + js_value" where
  "get_builtin_function f key =
    (if key = ''length'' then Inr (JNumber (builtin_length f))
     else if key = ''name'' then Inr (JString (builtin_name f))
     else if f = ''constructor'' \<and> key = ''prototype'' then Inr (JBuiltin ''Object.prototype'')
     else if f = ''constructor'' \<and> key \<in> set object_static_methods
       then Inr (JBuiltin (''Object.'' @ key))
     else if key \<in> set restricted_function_properties then Inl restricted_property_message
     else if key = ''constructor'' then Inr (JBuiltin ''Function'')
     else if key \<in> set function_prototype_methods
       then Inr (JBuiltin (''Function.prototype.'' @ key))
     else Inr (get_Object_prototype (JBuiltin ''Function.prototype'') key))"

text \<open>What \<open>this.defaultPermissions[role]\<close> is.\<close>

datatype role_entry =
    RoleRow "(string \<times> bool) list"
  | RoleFunction string
  | RoleObjectPrototype
  | RoleUndefined

definition defaultPermissions_get :: "string \<Rightarrow> role_entry" where
  "defaultPermissions_get role =
    (case map_of defaultPermissions role of
       Some row \<Rightarrow> RoleRow row
     | None \<Rightarrow>
        if role = ''__proto__'' then RoleObjectPrototype
        else if role = ''constructor'' \<or> role \<in> set object_prototype_methods
          then RoleFunction role
        else RoleUndefined)"

definition checkRolePermissions :: "string \<Rightarrow> string \<Rightarrow> string + js_value" where
  "checkRolePermissions role action =
    (case defaultPermissions_get role of
       RoleUndefined \<Rightarrow> Inr (JBool False)
     | RoleRow row \<Rightarrow>
        Inr (js_or_false
              (case map_of row action of
                 Some b \<Rightarrow> JBool b
               | None \<Rightarrow> get_Object_prototype (JBuiltin ''Object.prototype'') action))
     | RoleObjectPrototype \<Rightarrow> Inr (js_or_false (get_Object_prototype JNull action))
     | RoleFunction f \<Rightarrow>
        (case get_builtin_function f action of
           Inl err \<Rightarrow> Inl err
         | Inr v \<Rightarrow> Inr (js_or_false v)))"

definition checkMemoryPermissions ::
  "perm_engine \<Rightarrow> string \<Rightarrow> string \<Rightarrow> string \<Rightarrow> string + bool" where
  "checkMemoryPermissions s userId action memoryId =
    (case port_getTeamMemories (teamMemoryEngine s) of
       Inl err \<Rightarrow> Inl err
     | Inr memories \<Rightarrow>
        (case find (\<lambda>m. mem_id m = memoryId) memories of
           None \<Rightarrow> Inr False
         | Some memory \<Rightarrow>
            if mem_createdBy memory = userId then Inr True
            else if mem_visibility memory = Some ''private'' then Inr False
            else if mem_visibility memory = Some ''team_only'' then Inr True
            else if mem_visibility memory = Some ''public'' then Inr True
            else Inr False))"

definition isInTimeWindow :: "perm_engine \<Rightarrow> nat \<Rightarrow> nat \<Rightarrow> bool \<times> perm_engine" where
  "isInTimeWindow s start end =
    (let (now, w1) = new_Date (pworld s)
     in (now \<ge> start \<and> now \<le> end, s\<lparr>pworld := w1\<rparr>))"

definition checkApprovalStatus ::
  "perm_engine \<Rightarrow> string \<Rightarrow> string \<Rightarrow> string option \<Rightarrow> bool" where
  "checkApprovalStatus s userId resourceType resourceId =
    (case find (\<lambda>req. q_requesterId req = userId \<and> q_resourceType req = resourceType \<and>
                      q_resourceId req = resourceId \<and> q_status req = ''approved'')
               (map snd (accessRequests s)) of
       None \<Rightarrow> False
     | Some _ \<Rightarrow> True)"

fun evaluateConditions ::
  "perm_engine \<Rightarrow> condition list \<Rightarrow> string \<Rightarrow> string \<Rightarrow> string option \<Rightarrow>
     (string + bool) \<times> perm_engine" where
  "evaluateConditions s [] userId resourceType resourceId = (Inr True, s)"
| "evaluateConditions s (TimeWindow start end # cs) userId resourceType resourceId =
    (case isInTimeWindow s start end of
       (inside, s') \<Rightarrow>
         if \<not> inside then (Inr False, s')
         else evaluateConditions s' cs userId resourceType resourceId)"
| "evaluateConditions s (MemoryType v # cs) userId resourceType resourceId =
    (if resourceType = ''memory'' \<and> truthy resourceId then
       (case port_getTeamMemories (teamMemoryEngine s) of
          Inl err \<Rightarrow> (Inl err, s)
        | Inr memories \<Rightarrow>
           (case find (\<lambda>m. mem_id m = or_empty resourceId) memories of
              None \<Rightarrow> evaluateConditions s cs userId resourceType resourceId
            | Some memory \<Rightarrow>
               if mem_type memory \<noteq> v then (Inr False, s)
               else evaluateConditions s cs userId resourceType resourceId))
     else evaluateConditions s cs userId resourceType resourceId)"
| "evaluateConditions s (ApprovalRequired # cs) userId resourceType resourceId =
    (if \<not> checkApprovalStatus s userId resourceType resourceId then (Inr False, s)
     else evaluateConditions s cs userId resourceType resourceId)"
| "evaluateConditions s (OtherCondition t # cs) userId resourceType resourceId =
    evaluateConditions s cs userId resourceType resourceId"

text \<open>The \<open>for (const rule of rules)\<close> loop of \<open>checkExplicitPermissions\<close>.\<close>

fun explicit_loop ::
  "perm_engine \<Rightarrow> permission_rule list \<Rightarrow> string \<Rightarrow> string \<Rightarrow> string \<Rightarrow> string option \<Rightarrow>
     (string + bool option) \<times> perm_engine" where
  "explicit_loop s [] userId action resourceType resourceId = (Inr None, s)"
| "explicit_loop s (rule # rules) userId action resourceType resourceId =
    (case find (\<lambda>p. p_action p = action) (r_permissions rule) of
       None \<Rightarrow> explicit_loop s rules userId action resourceType resourceId
     | Some permission \<Rightarrow>
        (case r_conditions rule of
           Some (c # cs) \<Rightarrow>
             (case evaluateConditions s (c # cs) userId resourceType resourceId of
                (Inl err, s') \<Rightarrow> (Inl err, s')
              | (Inr conditionsMet, s') \<Rightarrow>
                  if \<not> conditionsMet
                  then explicit_loop s' rules userId action resourceType resourceId
                  else (Inr (Some (p_granted permission)), s'))
         | _ \<Rightarrow> (Inr (Some (p_granted permission)), s)))"

definition rule_applies ::
  "string \<Rightarrow> string \<Rightarrow> string option \<Rightarrow> permission_rule \<Rightarrow> bool" where
  "rule_applies userId resourceType resourceId rule =
    (r_isActive rule \<and> r_resourceType rule = resourceType \<and>
     (r_subjectType rule = ''user'' \<and> r_subjectId rule = userId) \<and>
     (\<not> truthy resourceId \<or> r_resourceId rule = resourceId))"

definition checkExplicitPermissions ::
  "perm_engine \<Rightarrow> string \<Rightarrow> string \<Rightarrow> string \<Rightarrow> string option \<Rightarrow>
     (string + bool option) \<times> perm_engine" where
  "checkExplicitPermissions s userId action resourceType resourceId =
    explicit_loop s
      (filter (rule_applies userId resourceType resourceId) (map snd (permissionRules s)))
      userId action resourceType resourceId"

text \<open>The body of the \<open>try\<close> block of \<open>checkPermission\<close>.\<close>

definition checkPermission_try ::
  "perm_engine \<Rightarrow> string \<Rightarrow> string \<Rightarrow> string \<Rightarrow> string option \<Rightarrow>
     (string + js_value) \<times> perm_engine" where
  "checkPermission_try s userId action resourceType resourceId =
    (case port_getTeamMembers (teamMemoryEngine s) of
       Inl err \<Rightarrow> (Inl err, s)
     | Inr members \<Rightarrow>
        (case find (\<lambda>m. tm_id m = userId) members of
           None \<Rightarrow>
             log_return s userId ''permission_check'' resourceType
               (Some (or_empty resourceId)) (JBool False) (Some ''User not found'')
               (JBool False)
         | Some user \<Rightarrow>
            (case checkExplicitPermissions s userId action resourceType resourceId of
               (Inl err, s1) \<Rightarrow> (Inl err, s1)
             | (Inr (Some explicitPermission), s1) \<Rightarrow>
                 log_return s1 userId ''permission_check'' resourceType
                   (Some (or_empty resourceId)) (JBool explicitPermission) None
                   (JBool explicitPermission)
             | (Inr None, s1) \<Rightarrow>
                (case checkRolePermissions (tm_role user) action of
                   Inl err \<Rightarrow> (Inl err, s1)
                 | Inr rolePermission \<Rightarrow>
                    if resourceType = ''memory'' \<and> truthy resourceId then
                      (case checkMemoryPermissions s1 userId action (or_empty resourceId) of
                         Inl err \<Rightarrow> (Inl err, s1)
                       | Inr memoryPermission \<Rightarrow>
                          (let result = js_and rolePermission (JBool memoryPermission) in
                           log_return s1 userId ''permission_check'' resourceType
                             resourceId result None result))
                    else
                      log_return s1 userId ''permission_check'' resourceType
                        (Some (or_empty resourceId)) rolePermission None rolePermission))))"

text \<open>
  \<open>checkPermission\<close>: the \<open>try\<close> block, and the \<open>catch\<close> that logs the error message and
  returns \<open>false\<close>. \<open>Inl\<close> is a rejected promise: an exception that leaves the method.
\<close>

definition checkPermission ::
  "perm_engine \<Rightarrow> string \<Rightarrow> string \<Rightarrow> string \<Rightarrow> string option \<Rightarrow>
     (string + js_value) \<times> perm_engine" where
  "checkPermission s userId action resourceType resourceId =
    (case checkPermission_try s userId action resourceType resourceId of
       (Inl err, s') \<Rightarrow>
         log_return s' userId ''permission_check'' resourceType
           (Some (or_empty resourceId)) (JBool False) (Some err) (JBool False)
     | (Inr v, s') \<Rightarrow> (Inr v, s'))"

subsection \<open>Rule and access-request management\<close>

text \<open>
  \<open>createPermissionRule\<close> and \<open>createAccessRequest\<close> take an object and spread it under
  the fields they set themselves (\<open>id\<close>, \<open>createdAt\<close>, and \<open>status\<close> of a request): the argument
  is a whole record here, and what it holds in those fields is overwritten.
\<close>

definition createPermissionRule ::
  "perm_engine \<Rightarrow> permission_rule \<Rightarrow> (string + string) \<times> perm_engine" where
  "createPermissionRule s rule =
    (let (ruleId, w1) = uuidv4 (pworld s);
         (now, w2) = new_Date w1;
         permissionRule = rule\<lparr>r_id := ruleId, r_createdAt := now\<rparr>;
         s1 = s\<lparr>permissionRules := AList.update ruleId permissionRule (permissionRules s),
                pworld := w2\<rparr>
     in log_return s1 (r_createdBy rule) ''create_permission_rule'' ''permission_rule''
          (Some ruleId) (JBool True) None ruleId)"

definition createAccessRequest ::
  "perm_engine \<Rightarrow> access_request \<Rightarrow> (string + string) \<times> perm_engine" where
  "createAccessRequest s request =
    (let (requestId, w1) = uuidv4 (pworld s);
         (now, w2) = new_Date w1;
         accessRequest = request\<lparr>q_id := requestId, q_createdAt := now, q_status := ''pending''\<rparr>;
         s1 = s\<lparr>accessRequests := AList.update requestId accessRequest (accessRequests s),
                pworld := w2\<rparr>
     in log_return s1 (q_requesterId request) ''create_access_request''
          (q_resourceType request) (q_resourceId request) (JBool True) None requestId)"

definition approveAccessRequest ::
  "perm_engine \<Rightarrow> string \<Rightarrow> string \<Rightarrow> string \<Rightarrow> (string + bool) \<times> perm_engine" where
  "approveAccessRequest s requestId approverId approverName =
    (case map_of (accessRequests s) requestId of
       None \<Rightarrow> (Inr False, s)
     | Some request \<Rightarrow>
        if q_status request \<noteq> ''pending'' then (Inr False, s)
        else
          (let (now, w1) = new_Date (pworld s);
               request' = request\<lparr>q_status := ''approved'', q_approvedAt := Some now,
                                  q_approvedBy := Some approverId\<rparr>;
               s1 = s\<lparr>accessRequests := AList.update requestId request' (accessRequests s),
                      pworld := w1\<rparr>
           in case logAudit s1 approverId ''approve_access_request''
                     (q_resourceType request) (q_resourceId request) (JBool True) None None of
                (Inl err, s2) \<Rightarrow> (Inl err, s2)
              | (Inr _, s2) \<Rightarrow>
                 (case createPermissionRule s2
                         \<lparr> r_id = [], r_resourceType = q_resourceType request,
                           r_resourceId = q_resourceId request, r_subjectType = ''user'',
                           r_subjectId = q_requesterId request,
                           r_permissions = q_requestedPermissions request,
                           r_createdBy = approverId, r_createdAt = 0,
                           r_expiresAt = q_expiresAt request, r_conditions = None,
                           r_isActive = True \<rparr> of
                    (Inl err, s3) \<Rightarrow> (Inl err, s3)
                  | (Inr _, s3) \<Rightarrow> (Inr True, s3))))"

definition denyAccessRequest ::
  "perm_engine \<Rightarrow> string \<Rightarrow> string \<Rightarrow> string \<Rightarrow> (string + bool) \<times> perm_engine" where
  "denyAccessRequest s requestId denierId reason =
    (case map_of (accessRequests s) requestId of
       None \<Rightarrow> (Inr False, s)
     | Some request \<Rightarrow>
        if q_status request \<noteq> ''pending'' then (Inr False, s)
        else
          (let request' = request\<lparr>q_status := ''denied'', q_denyReason := Some reason\<rparr>;
               s1 = s\<lparr>accessRequests := AList.update requestId request' (accessRequests s)\<rparr>
           in log_return s1 denierId ''deny_access_request''
                (q_resourceType request) (q_resourceId request) (JBool True) None True))"

section \<open>Project memory (memoryEngine.ts)\<close>

subsection \<open>The relational store\<close>

text \<open>
  One record per table of \<open>createTables\<close>, one field per column; nullable columns that
  the code reads are options. A table is the list of its rows in insertion (rowid) order.
  Columns that hold \<open>JSON.stringify\<close> output hold the JSON text; the lists of an
  architectural decision are kept as lists.
\<close>

record project_row =
  pr_id :: string
  pr_name :: string
  pr_root_path :: string
  pr_created_at :: nat
  pr_last_active :: nat
  pr_metadata :: "string option"

record conversation_row =
  cv_id :: string
  cv_project_id :: string
  cv_ai_assistant :: string
  cv_timestamp :: nat
  cv_context :: "string option"
  cv_summary :: "string option"

record message_row =
  ms_id :: string
  ms_conversation_id :: string
  ms_role :: string
  ms_content :: string
  ms_timestamp :: nat
  ms_metadata :: "string option"

record decision_row =
  dc_id :: string
  dc_project_id :: string
  dc_decision :: string
  dc_rationale :: "string option"
  dc_alternatives :: "string list"
  dc_impact :: "string list"
  dc_files_affected :: "string list"
  dc_timestamp :: nat

record file_change_row =
  fc_id :: string
  fc_project_id :: string
  fc_file_path :: string
  fc_change_type :: string
  fc_timestamp :: nat
  fc_conversation_id :: "string option"

record pattern_row =
  cp_id :: string
  cp_project_id :: string
  cp_pattern :: string
  cp_frequency :: nat
  cp_context :: "string option"

record preference_row =
  up_id :: string
  up_project_id :: string
  up_key :: string
  up_value :: "string option"

record database =
  projects :: "project_row list"
  conversations :: "conversation_row list"
  messages :: "message_row list"
  architectural_decisions :: "decision_row list"
  file_changes :: "file_change_row list"
  code_patterns :: "pattern_row list"
  user_preferences :: "preference_row list"

text \<open>The column names of each \<open>CREATE TABLE\<close> statement.\<close>

definition table_columns :: "string \<Rightarrow> string list option" where
  "table_columns table =
    (if table = ''projects'' then
       Some [''id'', ''name'', ''root_path'', ''created_at'', ''last_active'', ''metadata'']
     else if table = ''conversations'' then
       Some [''id'', ''project_id'', ''ai_assistant'', ''timestamp'', ''context'', ''summary'']
     else if table = ''messages'' then
       Some [''id'', ''conversation_id'', ''role'', ''content'', ''timestamp'', ''metadata'']
     else if table = ''architectural_decisions'' then
       Some [''id'', ''project_id'', ''decision'', ''rationale'', ''alternatives'', ''impact'',
             ''files_affected'', ''timestamp'']
     else if table = ''file_changes'' then
       Some [''id'', ''project_id'', ''file_path'', ''change_type'', ''timestamp'',
             ''conversation_id'']
     else if table = ''code_patterns'' then
       Some [''id'', ''project_id'', ''pattern'', ''frequency'', ''context'']
     else if table = ''user_preferences'' then
       Some [''id'', ''project_id'', ''key'', ''value'']
     else None)"

text \<open>
  The engine object: the database handle (\<open>null\<close> until \<open>initialize\<close>), the project
  path, and the MD5 digest of the \<open>crypto\<close> module, which is a parameter here.
\<close>

record memory_engine =
  db :: "database option"
  projectPath :: string
  md5_hex :: "string \<Rightarrow> string"
  mworld :: world

definition generateProjectId :: "memory_engine \<Rightarrow> string" where
  "generateProjectId e = take 16 (md5_hex e (projectPath e))"

text \<open>\<open>ORDER BY key\<close> and \<open>ORDER BY key DESC\<close>: stable sorts of the rows in rowid order.\<close>

definition order_by :: "('a \<Rightarrow> nat) \<Rightarrow> 'a list \<Rightarrow> 'a list" where
  "order_by key rows = sort_key key rows"

definition order_by_desc :: "('a \<Rightarrow> nat) \<Rightarrow> 'a list \<Rightarrow> 'a list" where
  "order_by_desc key rows = sort_key (\<lambda>r. - int (key r)) rows"

text \<open>
  Rows that a statement finds through the index of a \<open>UNIQUE\<close> constraint come in the order
  of the index, which compares the indexed text character by character, a proper prefix
  first; rows equal there come in rowid order.
\<close>

definition index_order :: "('a \<Rightarrow> string) \<Rightarrow> 'a list \<Rightarrow> 'a list" where
  "index_order key rows = sort_key key rows"

subsection \<open>Statements\<close>

text \<open>
  \<open>runQuery\<close> rejects with \<open>Database not initialized\<close> when the handle is \<open>null\<close>, and with
  the store's error when the statement fails. \<open>CURRENT_TIMESTAMP\<close> reads the clock when the
  statement runs. An \<open>INSERT\<close> whose primary key is already present fails.
\<close>

definition runQuery ::
  "memory_engine \<Rightarrow> (database \<Rightarrow> nat \<Rightarrow> string + database) \<Rightarrow> (string + unit) \<times> memory_engine" where
  "runQuery e stmt =
    (case db e of
       None \<Rightarrow> (Inl ''Database not initialized'', e)
     | Some d \<Rightarrow>
        (let (now, w1) = new_Date (mworld e)
         in case stmt d now of
              Inl err \<Rightarrow> (Inl err, e\<lparr>mworld := w1\<rparr>)
            | Inr d' \<Rightarrow> (Inr (), e\<lparr>db := Some d', mworld := w1\<rparr>)))"

definition insert_conversation ::
  "string \<Rightarrow> string \<Rightarrow> string \<Rightarrow> string \<Rightarrow> database \<Rightarrow> nat \<Rightarrow> string + database" where
  "insert_conversation cid pid aiAssistant ctx d now =
    (if cid \<in> set (map cv_id (conversations d))
     then Inl ''SQLITE_CONSTRAINT: UNIQUE constraint failed: conversations.id''
     else Inr (d\<lparr>conversations := conversations d @
                 [\<lparr> cv_id = cid, cv_project_id = pid, cv_ai_assistant = aiAssistant,
                    cv_timestamp = now, cv_context = Some ctx, cv_summary = None \<rparr>]\<rparr>))"

definition insert_message ::
  "string \<Rightarrow> string \<Rightarrow> string \<Rightarrow> string \<Rightarrow> string \<Rightarrow> database \<Rightarrow> nat \<Rightarrow> string + database" where
  "insert_message mid cid role content metadata d now =
    (if mid \<in> set (map ms_id (messages d))
     then Inl ''SQLITE_CONSTRAINT: UNIQUE constraint failed: messages.id''
     else Inr (d\<lparr>messages := messages d @
                 [\<lparr> ms_id = mid, ms_conversation_id = cid, ms_role = role,
                    ms_content = content, ms_timestamp = now,
                    ms_metadata = Some metadata \<rparr>]\<rparr>))"

definition insert_decision ::
  "string \<Rightarrow> string \<Rightarrow> string \<Rightarrow> string \<Rightarrow> string list \<Rightarrow> string list \<Rightarrow> string list \<Rightarrow>
     database \<Rightarrow> nat \<Rightarrow> string + database" where
  "insert_decision did pid decision rationale alternatives impact filesAffected d now =
    (if did \<in> set (map dc_id (architectural_decisions d))
     then Inl ''SQLITE_CONSTRAINT: UNIQUE constraint failed: architectural_decisions.id''
     else Inr (d\<lparr>architectural_decisions := architectural_decisions d @
                 [\<lparr> dc_id = did, dc_project_id = pid, dc_decision = decision,
                    dc_rationale = Some rationale, dc_alternatives = alternatives,
                    dc_impact = impact, dc_files_affected = filesAffected,
                    dc_timestamp = now \<rparr>]\<rparr>))"

definition insert_file_change ::
  "string \<Rightarrow> string \<Rightarrow> string \<Rightarrow> string \<Rightarrow> string option \<Rightarrow> database \<Rightarrow> nat \<Rightarrow> string + database" where
  "insert_file_change chid pid filePath changeType conversationId d now =
    (if chid \<in> set (map fc_id (file_changes d))
     then Inl ''SQLITE_CONSTRAINT: UNIQUE constraint failed: file_changes.id''
     else Inr (d\<lparr>file_changes := file_changes d @
                 [\<lparr> fc_id = chid, fc_project_id = pid, fc_file_path = filePath,
                    fc_change_type = changeType, fc_timestamp = now,
                    fc_conversation_id = conversationId \<rparr>]\<rparr>))"

definition insert_pattern ::
  "string \<Rightarrow> string \<Rightarrow> string \<Rightarrow> string \<Rightarrow> nat \<Rightarrow> database \<Rightarrow> nat \<Rightarrow> string + database" where
  "insert_pattern ptid pid pattern ctx frequency d now =
    (if ptid \<in> set (map cp_id (code_patterns d))
     then Inl ''SQLITE_CONSTRAINT: UNIQUE constraint failed: code_patterns.id''
     else Inr (d\<lparr>code_patterns := code_patterns d @
                 [\<lparr> cp_id = ptid, cp_project_id = pid, cp_pattern = pattern,
                    cp_frequency = frequency, cp_context = Some ctx \<rparr>]\<rparr>))"

text \<open>\<open>UPDATE projects SET last_active = CURRENT_TIMESTAMP WHERE id = ?\<close>\<close>

definition update_last_active :: "string \<Rightarrow> database \<Rightarrow> nat \<Rightarrow> string + database" where
  "update_last_active pid d now =
    Inr (d\<lparr>projects := map (\<lambda>p. if pr_id p = pid then p\<lparr>pr_last_active := now\<rparr> else p)
                            (projects d)\<rparr>)"

text \<open>
  \<open>DELETE FROM table WHERE project_id = ?\<close>: the statement is compiled against the
  table's columns, and fails when the table has no column \<open>project_id\<close>.
\<close>

definition delete_where_project_id :: "string \<Rightarrow> string \<Rightarrow> database \<Rightarrow> nat \<Rightarrow> string + database" where
  "delete_where_project_id table pid d now =
    (case table_columns table of
       None \<Rightarrow> Inl (''SQLITE_ERROR: no such table: '' @ table)
     | Some columns \<Rightarrow>
        if ''project_id'' \<notin> set columns then Inl ''SQLITE_ERROR: no such column: project_id''
        else if table = ''conversations'' then
          Inr (d\<lparr>conversations := filter (\<lambda>r. cv_project_id r \<noteq> pid) (conversations d)\<rparr>)
        else if table = ''architectural_decisions'' then
          Inr (d\<lparr>architectural_decisions :=
                   filter (\<lambda>r. dc_project_id r \<noteq> pid) (architectural_decisions d)\<rparr>)
        else if table = ''file_changes'' then
          Inr (d\<lparr>file_changes := filter (\<lambda>r. fc_project_id r \<noteq> pid) (file_changes d)\<rparr>)
        else if table = ''code_patterns'' then
          Inr (d\<lparr>code_patterns := filter (\<lambda>r. cp_project_id r \<noteq> pid) (code_patterns d)\<rparr>)
        else if table = ''user_preferences'' then
          Inr (d\<lparr>user_preferences := filter (\<lambda>r. up_project_id r \<noteq> pid) (user_preferences d)\<rparr>)
        else Inr d)"

subsection \<open>Recording\<close>

record message =
  m_id :: string
  m_role :: string
  m_content :: string
  m_timestamp :: nat
  m_metadata :: "string option"





text \<open>
  \<open>JSON.stringify(v || {})\<close> and \<open>JSON.parse(text || '{}')\<close> on a value that is an object
  when present: the JSON text, or \<open>{}\<close>.
\<close>

definition json_or_empty_object :: "string option \<Rightarrow> string" where
  "json_or_empty_object v = (case v of None \<Rightarrow> ''{}'' | Some t \<Rightarrow> if t = [] then ''{}'' else t)"

definition updateProjectActivity :: "memory_engine \<Rightarrow> (string + unit) \<times> memory_engine" where
  "updateProjectActivity e = runQuery e (update_last_active (generateProjectId e))"

text \<open>The \<open>for (const message of messages)\<close> loop of \<open>recordConversation\<close>.\<close>

fun insert_messages ::
  "memory_engine \<Rightarrow> string \<Rightarrow> message list \<Rightarrow> (string + unit) \<times> memory_engine" where
  "insert_messages e conversationId [] = (Inr (), e)"
| "insert_messages e conversationId (message # rest) =
    (let (mid, e1) = (if m_id message \<noteq> [] then (m_id message, e)
                      else (case uuidv4 (mworld e) of (u, w1) \<Rightarrow> (u, e\<lparr>mworld := w1\<rparr>)))
     in case runQuery e1
               (insert_message mid conversationId (m_role message) (m_content message)
                  (json_or_empty_object (m_metadata message))) of
          (Inl err, e2) \<Rightarrow> (Inl err, e2)
        | (Inr _, e2) \<Rightarrow> insert_messages e2 conversationId rest)"

definition recordConversation ::
  "memory_engine \<Rightarrow> string \<Rightarrow> message list \<Rightarrow> string option \<Rightarrow> (string + string) \<times> memory_engine" where
  "recordConversation e aiAssistant msgs context =
    (let (conversationId, w1) = uuidv4 (mworld e);
         e1 = e\<lparr>mworld := w1\<rparr>;
         projectId = generateProjectId e1
     in case runQuery e1
               (insert_conversation conversationId projectId aiAssistant
                  (json_or_empty_object context)) of
          (Inl err, e2) \<Rightarrow> (Inl err, e2)
        | (Inr _, e2) \<Rightarrow>
           (case insert_messages e2 conversationId msgs of
              (Inl err, e3) \<Rightarrow> (Inl err, e3)
            | (Inr _, e3) \<Rightarrow>
               (case updateProjectActivity e3 of
                  (Inl err, e4) \<Rightarrow> (Inl err, e4)
                | (Inr _, e4) \<Rightarrow> (Inr conversationId, e4))))"

text \<open>The argument of \<open>recordArchitecturalDecision\<close>: a decision without id and timestamp.\<close>

record decision_input =
  di_decision :: string
  di_rationale :: string
  di_alternatives :: "string list"
  di_impact :: "string list"
  di_filesAffected :: "string list"

definition recordArchitecturalDecision ::
  "memory_engine \<Rightarrow> decision_input \<Rightarrow> (string + unit) \<times> memory_engine" where
  "recordArchitecturalDecision e decision =
    (let projectId = generateProjectId e;
         (decisionId, w1) = uuidv4 (mworld e);
         e1 = e\<lparr>mworld := w1\<rparr>
     in case runQuery e1
               (insert_decision decisionId projectId (di_decision decision)
                  (di_rationale decision) (di_alternatives decision) (di_impact decision)
                  (di_filesAffected decision)) of
          (Inl err, e2) \<Rightarrow> (Inl err, e2)
        | (Inr _, e2) \<Rightarrow> updateProjectActivity e2)"

definition trackFileChange ::
  "memory_engine \<Rightarrow> string \<Rightarrow> string \<Rightarrow> string option \<Rightarrow> (string + unit) \<times> memory_engine" where
  "trackFileChange e filePath changeType conversationId =
    (let projectId = generateProjectId e;
         (changeId, w1) = uuidv4 (mworld e);
         e1 = e\<lparr>mworld := w1\<rparr>
     in runQuery e1 (insert_file_change changeId projectId filePath changeType conversationId))"

text \<open>The \<open>for (const table of tables)\<close> loop of \<open>clearAllMemory\<close>.\<close>

fun delete_tables :: "memory_engine \<Rightarrow> string \<Rightarrow> string list \<Rightarrow> (string + unit) \<times> memory_engine" where
  "delete_tables e projectId [] = (Inr (), e)"
| "delete_tables e projectId (table # tables) =
    (case runQuery e (delete_where_project_id table projectId) of
       (Inl err, e1) \<Rightarrow> (Inl err, e1)
     | (Inr _, e1) \<Rightarrow> delete_tables e1 projectId tables)"

definition clearAllMemory :: "memory_engine \<Rightarrow> (string + unit) \<times> memory_engine" where
  "clearAllMemory e =
    (let projectId = generateProjectId e;
         tables = [''messages'', ''conversations'', ''architectural_decisions'',
                   ''file_changes'', ''code_patterns'', ''user_preferences'']
     in delete_tables e projectId tables)"

subsection \<open>Reading back\<close>




subsection \<open>Recall\<close>

text \<open>
  A string is the list of its UTF-16 code units, as JavaScript counts them in \<open>length\<close>
  and \<open>substring\<close>, for the code units below 256: the characters of Latin-1, one code unit
  and one character each. On these, \<open>\w\<close> holds of the ASCII letters, digits and \<open>_\<close>, and
  \<open>\s\<close> of the ASCII white space and of the no-break space 160. The terms are the same
  whether a no-break space is kept and split at, as in the code, or first replaced by a
  space like the other characters outside \<open>\w\<close>, as below; and \<open>toLowerCase\<close> changes letters
  outside ASCII only into characters that are again outside \<open>\w\<close>, so lowering the ASCII
  letters gives the same terms.
\<close>

definition ascii_lower :: "char \<Rightarrow> char" where
  "ascii_lower c =
    (let n = (of_char c :: nat) in if 65 \<le> n \<and> n \<le> 90 then char_of (n + 32) else c)"

definition is_word_char :: "char \<Rightarrow> bool" where
  "is_word_char c =
    (let n = (of_char c :: nat)
     in (48 \<le> n \<and> n \<le> 57) \<or> (65 \<le> n \<and> n \<le> 90) \<or> (97 \<le> n \<and> n \<le> 122) \<or> n = 95)"

definition is_space_char :: "char \<Rightarrow> bool" where
  "is_space_char c = (let n = (of_char c :: nat) in n = 32 \<or> (9 \<le> n \<and> n \<le> 13))"

text \<open>
  \<open>split(/\s+/)\<close>: the maximal runs of non-space characters. (The empty strings that
  JavaScript adds for leading and trailing white space are dropped by the length filter
  that follows.)
\<close>

fun split_spaces :: "string \<Rightarrow> string \<Rightarrow> string list" where
  "split_spaces cur [] = (if cur = [] then [] else [rev cur])"
| "split_spaces cur (c # cs) =
    (if is_space_char c
     then (if cur = [] then split_spaces [] cs else rev cur # split_spaces [] cs)
     else split_spaces (c # cur) cs)"

text \<open>\<open>[...new Set(terms)]\<close>: the first occurrence of each term, in order.\<close>

fun unique_in_order :: "'a list \<Rightarrow> 'a list \<Rightarrow> 'a list" where
  "unique_in_order seen [] = []"
| "unique_in_order seen (x # xs) =
    (if x \<in> set seen then unique_in_order seen xs else x # unique_in_order (x # seen) xs)"

definition stop_words :: "string list" where
  "stop_words = [''the'', ''and'', ''for'', ''are'', ''you'', ''can'', ''how'', ''what'',
                 ''why'', ''when'', ''where'']"

definition extractSearchTerms :: "string \<Rightarrow> string list" where
  "extractSearchTerms message =
    (let lowered = map ascii_lower message;
         cleaned = map (\<lambda>c. if is_word_char c \<or> is_space_char c then c else CHR '' '') lowered;
         terms = filter (\<lambda>term. term \<notin> set stop_words)
                   (filter (\<lambda>term. length term > 2) (split_spaces [] cleaned))
     in unique_in_order [] terms)"

text \<open>
  \<open>text LIKE '%term%'\<close>: the term occurs in the text, ASCII letters compared without
  case, and \<open>_\<close> in the term standing for any one character. A \<open>NULL\<close> text matches nothing.
\<close>

fun like_here :: "string \<Rightarrow> string \<Rightarrow> bool" where
  "like_here [] t = True"
| "like_here (p # ps) [] = False"
| "like_here (p # ps) (c # cs) =
    ((p = CHR ''_'' \<or> ascii_lower p = ascii_lower c) \<and> like_here ps cs)"

fun like_contains :: "string \<Rightarrow> string \<Rightarrow> bool" where
  "like_contains term [] = like_here term []"
| "like_contains term (c # cs) = (like_here term (c # cs) \<or> like_contains term cs)"

definition like_contains_opt :: "string \<Rightarrow> string option \<Rightarrow> bool" where
  "like_contains_opt term t = (case t of None \<Rightarrow> False | Some txt \<Rightarrow> like_contains term txt)"

text \<open>The objects that \<open>recall\<close> pushes: one shape per kind.\<close>

datatype memory_fragment =
    ConversationFragment string nat string
  | DecisionFragment string "string option" nat
  | PatternFragment string "string option" nat

fun fragment_type :: "memory_fragment \<Rightarrow> string" where
  "fragment_type (ConversationFragment content timestamp aiAssistant) = ''conversation''"
| "fragment_type (DecisionFragment content rationale timestamp) = ''decision''"
| "fragment_type (PatternFragment content ctx frequency) = ''pattern''"

fun fragment_content :: "memory_fragment \<Rightarrow> string" where
  "fragment_content (ConversationFragment content timestamp aiAssistant) = content"
| "fragment_content (DecisionFragment content rationale timestamp) = content"
| "fragment_content (PatternFragment content ctx frequency) = content"

text \<open>
  The key \<open>`${memory.type}:${memory.content?.substring(0, 50)}`\<close>: \<open>substring(0, 50)\<close> is
  the first 50 code units.
\<close>

definition memory_key :: "memory_fragment \<Rightarrow> string" where
  "memory_key memory = fragment_type memory @ '':'' @ take 50 (fragment_content memory)"

fun dedup_filter :: "string list \<Rightarrow> memory_fragment list \<Rightarrow> memory_fragment list" where
  "dedup_filter seen [] = []"
| "dedup_filter seen (memory # rest) =
    (let key = memory_key memory
     in if key \<in> set seen then dedup_filter seen rest
        else memory # dedup_filter (key # seen) rest)"

definition deduplicateMemories :: "memory_fragment list \<Rightarrow> memory_fragment list" where
  "deduplicateMemories memories = dedup_filter [] memories"

text \<open>
  The first query of \<open>recall\<close>: the messages joined with their conversations, for the
  conversations of the project, sorted by the timestamp of the conversation, newest first,
  and cut to the first 20 rows. The store walks the messages in rowid order and looks up the
  conversation of each through its primary key; the sort keeps rows with equal keys in the
  order in which they arrive. So the turns of one conversation, and of conversations with
  the same timestamp, come in the order in which their messages were stored.
\<close>

definition joined_turns :: "database \<Rightarrow> string \<Rightarrow> (conversation_row \<times> message_row) list" where
  "joined_turns d pid =
    concat (map (\<lambda>m. map (\<lambda>c. (c, m))
                         (filter (\<lambda>c. cv_id c = ms_conversation_id m \<and> cv_project_id c = pid)
                                 (conversations d)))
                (messages d))"

definition recent_turns :: "database \<Rightarrow> string \<Rightarrow> (conversation_row \<times> message_row) list" where
  "recent_turns d pid =
    take 20 (order_by_desc (\<lambda>(c, m). cv_timestamp c) (joined_turns d pid))"

definition turn_fragment :: "conversation_row \<times> message_row \<Rightarrow> memory_fragment" where
  "turn_fragment = (\<lambda>(c, m).
     ConversationFragment (ms_role m @ '': '' @ ms_content m) (cv_timestamp c)
       (cv_ai_assistant c))"

definition matching_decisions :: "database \<Rightarrow> string \<Rightarrow> string \<Rightarrow> memory_fragment list" where
  "matching_decisions d pid term =
    map (\<lambda>r. DecisionFragment (dc_decision r) (dc_rationale r) (dc_timestamp r))
      (take 5 (order_by_desc dc_timestamp
         (filter (\<lambda>r. dc_project_id r = pid \<and>
                       (like_contains term (dc_decision r) \<or>
                        like_contains_opt term (dc_rationale r)))
                 (architectural_decisions d))))"

definition matching_patterns :: "database \<Rightarrow> string \<Rightarrow> string \<Rightarrow> memory_fragment list" where
  "matching_patterns d pid term =
    map (\<lambda>r. PatternFragment (cp_pattern r) (cp_context r) (cp_frequency r))
      (take 5 (order_by_desc cp_frequency
         (filter (\<lambda>r. cp_project_id r = pid \<and>
                       (like_contains term (cp_pattern r) \<or>
                        like_contains_opt term (cp_context r)))
                 (code_patterns d))))"

definition recall :: "memory_engine \<Rightarrow> string \<Rightarrow> string option \<Rightarrow> string + memory_fragment list" where
  "recall e message projectId =
    (let pid = (if truthy projectId then or_empty projectId else generateProjectId e);
         searchTerms = extractSearchTerms message
     in case db e of
          None \<Rightarrow> Inl ''Database not initialized''
        | Some d \<Rightarrow>
           (let memories =
                  map turn_fragment (recent_turns d pid)
                  @ concat (map (matching_decisions d pid) searchTerms)
                  @ concat (map (matching_patterns d pid) searchTerms);
                uniqueMemories = deduplicateMemories memories
            in Inr (take 15 uniqueMemories)))"

definition storeCodePattern ::
  "memory_engine \<Rightarrow> string \<Rightarrow> string \<Rightarrow> string option \<Rightarrow> (string + unit) \<times> memory_engine" where
  "storeCodePattern e pattern contextJson projectId =
    (let pid = (if truthy projectId then or_empty projectId else generateProjectId e);
         (patternId, w1) = uuidv4 (mworld e);
         e1 = e\<lparr>mworld := w1\<rparr>
     in runQuery e1 (insert_pattern patternId pid pattern contextJson 1))"

section \<open>Team memory (teamMemoryEngine.js)\<close>

record team_member_row =
  tmr_id :: string
  tmr_team_id :: string
  tmr_email :: string
  tmr_name :: string
  tmr_role :: string
  tmr_joined_at :: nat
  tmr_last_active :: nat
  tmr_permissions :: string

record team_memory_row =
  tr_id :: string
  tr_team_id :: string
  tr_type :: string
  tr_title :: string
  tr_content :: string
  tr_context :: "string option"
  tr_created_by :: string
  tr_created_at :: nat
  tr_updated_at :: nat
  tr_tags :: "string option"
  tr_visibility :: "string option"
  tr_project_id :: "string option"
  tr_metadata :: "string option"
  tr_usage_count :: nat
  tr_success_score :: real

record vote_row =
  vr_id :: string
  vr_memory_id :: string
  vr_member_id :: string
  vr_vote :: string
  vr_timestamp :: nat

record comment_row =
  cr_id :: string
  cr_memory_id :: string
  cr_member_id :: string
  cr_content :: string
  cr_timestamp :: nat
  cr_parent_comment_id :: "string option"

record team_database =
  team_members :: "team_member_row list"
  team_memories :: "team_memory_row list"
  team_memory_votes :: "vote_row list"
  team_memory_comments :: "comment_row list"

text \<open>
  The team engine extends the memory engine and runs its statements on the same handle;
  only its own tables are kept here. The success score is a \<open>REAL\<close> column: the real
  number that the stored double denotes.
\<close>

record team_memory_engine =
  tdb :: "team_database option"
  teamId :: string
  tworld :: world

definition team_runQuery ::
  "team_memory_engine \<Rightarrow> (team_database \<Rightarrow> nat \<Rightarrow> string + team_database) \<Rightarrow>
     (string + unit) \<times> team_memory_engine" where
  "team_runQuery e stmt =
    (case tdb e of
       None \<Rightarrow> (Inl ''Database not initialized'', e)
     | Some d \<Rightarrow>
        (let (now, w1) = new_Date (tworld e)
         in case stmt d now of
              Inl err \<Rightarrow> (Inl err, e\<lparr>tworld := w1\<rparr>)
            | Inr d' \<Rightarrow> (Inr (), e\<lparr>tdb := Some d', tworld := w1\<rparr>)))"

text \<open>The argument of \<open>createTeamMemory\<close>.\<close>

record team_memory_input =
  ti_type :: string
  ti_title :: string
  ti_content :: string
  ti_context :: "string option"
  ti_createdBy :: string
  ti_tags :: "string option"
  ti_visibility :: "string option"
  ti_projectId :: "string option"
  ti_metadata :: "string option"

text \<open>
  The \<open>INSERT\<close> of \<open>createTeamMemory\<close> names eleven columns; \<open>created_at\<close>, \<open>updated_at\<close>,
  \<open>usage_count\<close> and \<open>success_score\<close> take their \<open>DEFAULT\<close>s: the clock, the clock, 0 and 0.0.
\<close>

definition insert_team_memory ::
  "string \<Rightarrow> string \<Rightarrow> team_memory_input \<Rightarrow> team_database \<Rightarrow> nat \<Rightarrow> string + team_database" where
  "insert_team_memory memoryId tid memory d now =
    (if memoryId \<in> set (map tr_id (team_memories d))
     then Inl ''SQLITE_CONSTRAINT: UNIQUE constraint failed: team_memories.id''
     else Inr (d\<lparr>team_memories := team_memories d @
                 [\<lparr> tr_id = memoryId, tr_team_id = tid, tr_type = ti_type memory,
                    tr_title = ti_title memory, tr_content = ti_content memory,
                    tr_context = ti_context memory, tr_created_by = ti_createdBy memory,
                    tr_created_at = now, tr_updated_at = now, tr_tags = ti_tags memory,
                    tr_visibility = ti_visibility memory,
                    tr_project_id = ti_projectId memory, tr_metadata = ti_metadata memory,
                    tr_usage_count = 0, tr_success_score = 0.0 \<rparr>]\<rparr>))"

definition createTeamMemory ::
  "team_memory_engine \<Rightarrow> team_memory_input \<Rightarrow> (string + string) \<times> team_memory_engine" where
  "createTeamMemory e memory =
    (let (memoryId, w1) = uuidv4 (tworld e);
         e1 = e\<lparr>tworld := w1\<rparr>
     in case team_runQuery e1 (insert_team_memory memoryId (teamId e1) memory) of
          (Inl err, e2) \<Rightarrow> (Inl err, e2)
        | (Inr _, e2) \<Rightarrow> (Inr memoryId, e2))"

text \<open>
  \<open>INSERT OR REPLACE INTO team_memory_votes\<close>: rows that clash with the new one on the
  primary key or on \<open>UNIQUE(memory_id, member_id)\<close> are deleted, then the row is added.
\<close>

definition upsert_vote ::
  "string \<Rightarrow> string \<Rightarrow> string \<Rightarrow> string \<Rightarrow> team_database \<Rightarrow> nat \<Rightarrow> string + team_database" where
  "upsert_vote voteId memoryId memberId v d now =
    Inr (d\<lparr>team_memory_votes :=
             filter (\<lambda>r. vr_id r \<noteq> voteId \<and>
                          \<not> (vr_memory_id r = memoryId \<and> vr_member_id r = memberId))
                    (team_memory_votes d)
             @ [\<lparr> vr_id = voteId, vr_memory_id = memoryId, vr_member_id = memberId,
                   vr_vote = v, vr_timestamp = now \<rparr>]\<rparr>)"

definition update_success_score :: "real \<Rightarrow> string \<Rightarrow> team_database \<Rightarrow> nat \<Rightarrow> string + team_database" where
  "update_success_score successScore memoryId d now =
    Inr (d\<lparr>team_memories :=
             map (\<lambda>r. if tr_id r = memoryId then r\<lparr>tr_success_score := successScore\<rparr> else r)
                 (team_memories d)\<rparr>)"

text \<open>
  \<open>upvotes / totalVotes\<close> is a division of IEEE 754 doubles, and the \<open>REAL\<close> column stores the
  double: the quotient rounded to 53 significant bits, to nearest, ties to even. For
  \<open>0 < n \<le> d\<close> the quotient lies in the binade \<open>[2^-k, 2^(1-k))\<close> for the least \<open>k\<close> with
  \<open>d \<le> n * 2^k\<close>, and its double is a multiple of \<open>2^-(52+k)\<close>. (The counts are lengths of
  arrays, far below \<open>2^53\<close>, so they are doubles themselves.)
\<close>

function binade :: "nat \<Rightarrow> nat \<Rightarrow> nat" where
  "binade n d = (if n = 0 \<or> d \<le> n then 0 else Suc (binade (2 * n) d))"
  by pat_completeness auto
termination by (relation "measure (\<lambda>(n, d). d - n)") auto

declare binade.simps [simp del]

definition round_half_even :: "nat \<Rightarrow> nat \<Rightarrow> nat" where
  "round_half_even n d =
    (let q = n div d; r = n mod d
     in if 2 * r < d then q
        else if d < 2 * r then q + 1
        else if even q then q else q + 1)"

definition double_quotient :: "nat \<Rightarrow> nat \<Rightarrow> real" where
  "double_quotient n d =
    (let k = binade n d
     in real (round_half_even (n * 2 ^ (52 + k)) d) / 2 ^ (52 + k))"

definition updateMemorySuccessScore ::
  "team_memory_engine \<Rightarrow> string \<Rightarrow> (string + unit) \<times> team_memory_engine" where
  "updateMemorySuccessScore e memoryId =
    (case tdb e of
       None \<Rightarrow> (Inl ''Database not initialized'', e)
     | Some d \<Rightarrow>
        (let votes = filter (\<lambda>r. vr_memory_id r = memoryId) (team_memory_votes d);
             upvotes = length (filter (\<lambda>v. vr_vote v = ''upvote'') votes);
             downvotes = length (filter (\<lambda>v. vr_vote v = ''downvote'') votes);
             totalVotes = upvotes + downvotes;
             successScore = (if totalVotes > 0 then double_quotient upvotes totalVotes else 0.5)
         in team_runQuery e (update_success_score successScore memoryId)))"

definition voteOnMemory ::
  "team_memory_engine \<Rightarrow> string \<Rightarrow> string \<Rightarrow> string \<Rightarrow> (string + unit) \<times> team_memory_engine" where
  "voteOnMemory e memoryId memberId v =
    (let (voteId, w1) = uuidv4 (tworld e);
         e1 = e\<lparr>tworld := w1\<rparr>
     in case team_runQuery e1 (upsert_vote voteId memoryId memberId v) of
          (Inl err, e2) \<Rightarrow> (Inl err, e2)
        | (Inr _, e2) \<Rightarrow> updateMemorySuccessScore e2 memoryId)"

text \<open>
  \<open>SELECT * FROM team_memory_votes WHERE memory_id = ?\<close> has no \<open>ORDER BY\<close>; the store
  answers it from the index of \<open>UNIQUE(memory_id, member_id)\<close>, so the votes of one memory
  come in the order of their member ids.
\<close>

definition getMemoryVotes :: "team_database \<Rightarrow> string \<Rightarrow> vote list" where
  "getMemoryVotes d memoryId =
    map (\<lambda>v. \<lparr> v_memberId = vr_member_id v, v_vote = vr_vote v, v_timestamp = vr_timestamp v \<rparr>)
      (index_order vr_member_id
         (filter (\<lambda>r. vr_memory_id r = memoryId) (team_memory_votes d)))"

definition getMemoryComments :: "team_database \<Rightarrow> string \<Rightarrow> comment list" where
  "getMemoryComments d memoryId =
    map (\<lambda>c. \<lparr> c_id = cr_id c, c_memberId = cr_member_id c, c_content = cr_content c,
               c_timestamp = cr_timestamp c, c_parentCommentId = cr_parent_comment_id c \<rparr>)
      (order_by cr_timestamp (filter (\<lambda>r. cr_memory_id r = memoryId) (team_memory_comments d)))"

text \<open>
  \<open>SELECT * FROM team_members WHERE team_id = ? ORDER BY joined_at\<close>: the rows of the team
  are found through the index of \<open>UNIQUE(team_id, email)\<close> and then sorted, so members who
  joined at the same time come in the order of their emails.
\<close>

definition getTeamMembers :: "team_memory_engine \<Rightarrow> string + team_member list" where
  "getTeamMembers e =
    (case tdb e of
       None \<Rightarrow> Inl ''Database not initialized''
     | Some d \<Rightarrow>
        Inr (map (\<lambda>m. \<lparr> tm_id = tmr_id m, tm_email = tmr_email m, tm_name = tmr_name m,
                        tm_role = tmr_role m, tm_joinedAt = tmr_joined_at m,
                        tm_lastActive = tmr_last_active m,
                        tm_permissions = tmr_permissions m \<rparr>)
               (order_by tmr_joined_at
                  (index_order tmr_email
                     (filter (\<lambda>m. tmr_team_id m = teamId e) (team_members d))))))"

text \<open>\<open>getTeamMemories()\<close> as the permission engine calls it: without a filter.\<close>

definition getTeamMemories :: "team_memory_engine \<Rightarrow> string + team_memory list" where
  "getTeamMemories e =
    (case tdb e of
       None \<Rightarrow> Inl ''Database not initialized''
     | Some d \<Rightarrow>
        Inr (map (\<lambda>m. \<lparr> mem_id = tr_id m, mem_type = tr_type m, mem_title = tr_title m,
                        mem_content = tr_content m, mem_context = tr_context m,
                        mem_createdBy = tr_created_by m, mem_createdAt = tr_created_at m,
                        mem_updatedAt = tr_updated_at m,
                        mem_tags = (case tr_tags m of None \<Rightarrow> ''[]''
                                    | Some t \<Rightarrow> if t = [] then ''[]'' else t),
                        mem_visibility = tr_visibility m, mem_projectId = tr_project_id m,
                        mem_metadata = json_or_empty_object (tr_metadata m),
                        mem_votes = getMemoryVotes d (tr_id m),
                        mem_comments = getMemoryComments d (tr_id m),
                        mem_usageCount = tr_usage_count m,
                        mem_successScore = tr_success_score m \<rparr>)
               (order_by_desc tr_created_at
                  (filter (\<lambda>m. tr_team_id m = teamId e) (team_memories d)))))"

text \<open>The team engine as the permission engine's constructor receives it.\<close>

definition port_of :: "team_memory_engine \<Rightarrow> team_port" where
  "port_of e = \<lparr> port_getTeamMembers = getTeamMembers e,
                port_getTeamMemories = getTeamMemories e \<rparr>"

definition new_MemoryPermissionsEngine :: "team_port \<Rightarrow> world \<Rightarrow> perm_engine" where
  "new_MemoryPermissionsEngine port w =
    \<lparr> permissionRules = [], accessRequests = [], auditLogs = [],
      teamMemoryEngine = port, pworld = w \<rparr>"

section \<open>A small team, for concrete runs\<close>

definition ex_world :: world where
  "ex_world = \<lparr> uuids = (\<lambda>n. ''id-'' @ replicate n (CHR ''x'')), clock = (\<lambda>n. 1000 + n),
                 draws = 0 \<rparr>"

definition ex_team_db :: team_database where
  "ex_team_db =
    \<lparr> team_members =
        [\<lparr> tmr_id = ''u-admin'', tmr_team_id = ''team-1'', tmr_email = ''ada@example.org'',
           tmr_name = ''Ada'', tmr_role = ''admin'', tmr_joined_at = 1, tmr_last_active = 1,
           tmr_permissions = ''[]'' \<rparr>,
         \<lparr> tmr_id = ''u-dev'', tmr_team_id = ''team-1'', tmr_email = ''dan@example.org'',
           tmr_name = ''Dan'', tmr_role = ''developer'', tmr_joined_at = 2, tmr_last_active = 2,
           tmr_permissions = ''[]'' \<rparr>,
         \<lparr> tmr_id = ''u-obs'', tmr_team_id = ''team-1'', tmr_email = ''oz@example.org'',
           tmr_name = ''Oz'', tmr_role = ''observer'', tmr_joined_at = 3, tmr_last_active = 3,
           tmr_permissions = ''[]'' \<rparr>,
         \<lparr> tmr_id = ''u-lead'', tmr_team_id = ''team-1'', tmr_email = ''lee@example.org'',
           tmr_name = ''Lee'', tmr_role = ''developer'', tmr_joined_at = 4, tmr_last_active = 4,
           tmr_permissions = ''[]'' \<rparr>],
      team_memories =
        [\<lparr> tr_id = ''m1'', tr_team_id = ''team-1'', tr_type = ''decision'',
           tr_title = ''Use SQLite'', tr_content = ''One file per project'',
           tr_context = None, tr_created_by = ''u-obs'', tr_created_at = 5, tr_updated_at = 5,
           tr_tags = Some ''[]'', tr_visibility = Some ''team_only'', tr_project_id = None,
           tr_metadata = Some ''{}'', tr_usage_count = 0, tr_success_score = 0 \<rparr>],
      team_memory_votes = [],
      team_memory_comments = [] \<rparr>"

definition ex_team :: team_memory_engine where
  "ex_team = \<lparr> tdb = Some ex_team_db, teamId = ''team-1'', tworld = ex_world \<rparr>"

text \<open>The members and the memory as \<open>getTeamMembers\<close> and \<open>getTeamMemories\<close> return them.\<close>

definition ex_admin :: team_member where
  "ex_admin = \<lparr> tm_id = ''u-admin'', tm_email = ''ada@example.org'', tm_name = ''Ada'',
                 tm_role = ''admin'', tm_joinedAt = 1, tm_lastActive = 1,
                 tm_permissions = ''[]'' \<rparr>"

definition ex_dev :: team_member where
  "ex_dev = \<lparr> tm_id = ''u-dev'', tm_email = ''dan@example.org'', tm_name = ''Dan'',
               tm_role = ''developer'', tm_joinedAt = 2, tm_lastActive = 2,
               tm_permissions = ''[]'' \<rparr>"

definition ex_obs :: team_member where
  "ex_obs = \<lparr> tm_id = ''u-obs'', tm_email = ''oz@example.org'', tm_name = ''Oz'',
               tm_role = ''observer'', tm_joinedAt = 3, tm_lastActive = 3,
               tm_permissions = ''[]'' \<rparr>"

definition ex_lead :: team_member where
  "ex_lead = \<lparr> tm_id = ''u-lead'', tm_email = ''lee@example.org'', tm_name = ''Lee'',
                tm_role = ''developer'', tm_joinedAt = 4, tm_lastActive = 4,
                tm_permissions = ''[]'' \<rparr>"

definition ex_m1 :: team_memory where
  "ex_m1 = \<lparr> mem_id = ''m1'', mem_type = ''decision'', mem_title = ''Use SQLite'',
              mem_content = ''One file per project'', mem_context = None,
              mem_createdBy = ''u-obs'', mem_createdAt = 5, mem_updatedAt = 5,
              mem_tags = ''[]'', mem_visibility = Some ''team_only'', mem_projectId = None,
              mem_metadata = ''{}'', mem_votes = [], mem_comments = [], mem_usageCount = 0,
              mem_successScore = 0 \<rparr>"

text \<open>
  The same team with a second memory, \<open>private\<close> and created by the developer, and that
  memory as \<open>getTeamMemories\<close> returns it.
\<close>

definition ex_team_private :: team_memory_engine where
  "ex_team_private =
    ex_team\<lparr>tdb := Some (ex_team_db\<lparr>team_memories := team_memories ex_team_db @
      [\<lparr> tr_id = ''m2'', tr_team_id = ''team-1'', tr_type = ''pattern'',
         tr_title = ''Draft'', tr_content = ''Not ready yet'',
         tr_context = None, tr_created_by = ''u-dev'', tr_created_at = 6, tr_updated_at = 6,
         tr_tags = Some ''[]'', tr_visibility = Some ''private'', tr_project_id = None,
         tr_metadata = Some ''{}'', tr_usage_count = 0, tr_success_score = 0 \<rparr>]\<rparr>)\<rparr>"

definition ex_m2 :: team_memory where
  "ex_m2 = \<lparr> mem_id = ''m2'', mem_type = ''pattern'', mem_title = ''Draft'',
              mem_content = ''Not ready yet'', mem_context = None,
              mem_createdBy = ''u-dev'', mem_createdAt = 6, mem_updatedAt = 6,
              mem_tags = ''[]'', mem_visibility = Some ''private'', mem_projectId = None,
              mem_metadata = ''{}'', mem_votes = [], mem_comments = [], mem_usageCount = 0,
              mem_successScore = 0 \<rparr>"

text \<open>
  A permission engine over the team, one over the team with the private memory, one over
  a team engine that was never initialized, and the first after the developer's check of
  \<open>read\<close> on \<open>m1\<close> has been logged.
\<close>

definition ex_engine :: perm_engine where
  "ex_engine = new_MemoryPermissionsEngine (port_of ex_team) ex_world"

definition ex_engine_private :: perm_engine where
  "ex_engine_private = new_MemoryPermissionsEngine (port_of ex_team_private) ex_world"

definition ex_engine_down :: perm_engine where
  "ex_engine_down = new_MemoryPermissionsEngine (port_of (ex_team\<lparr>tdb := None\<rparr>)) ex_world"

definition ex_engine_logged :: perm_engine where
  "ex_engine_logged = snd (checkPermission ex_engine ''u-dev'' ''read'' ''memory'' (Some ''m1''))"

text \<open>Two access requests, and the engine after each was created.\<close>

definition ex_request_write :: access_request where
  "ex_request_write =
    \<lparr> q_id = [], q_requesterId = ''u-obs'', q_resourceType = ''memory'',
      q_resourceId = Some ''m1'',
      q_requestedPermissions = [\<lparr> p_action = ''write'', p_granted = True \<rparr>],
      q_status = [], q_createdAt = 0, q_approvedAt = None, q_approvedBy = None,
      q_denyReason = None, q_expiresAt = None \<rparr>"

definition ex_request_read :: access_request where
  "ex_request_read =
    \<lparr> q_id = [], q_requesterId = ''u-dev'', q_resourceType = ''memory'',
      q_resourceId = Some ''m1'',
      q_requestedPermissions = [\<lparr> p_action = ''read'', p_granted = True \<rparr>],
      q_status = [], q_createdAt = 0, q_approvedAt = None, q_approvedBy = None,
      q_denyReason = None, q_expiresAt = None \<rparr>"

definition ex_pending_write :: perm_engine where
  "ex_pending_write = snd (createAccessRequest ex_engine ex_request_write)"

definition ex_pending_read :: perm_engine where
  "ex_pending_read = snd (createAccessRequest ex_engine ex_request_read)"

text \<open>A project store with one recorded conversation, and its engine.\<close>

definition ex_db :: database where
  "ex_db =
    \<lparr> projects =
        [\<lparr> pr_id = ''0123456789abcdef'', pr_name = ''app'', pr_root_path = ''/work/app'',
           pr_created_at = 10, pr_last_active = 20, pr_metadata = None \<rparr>],
      conversations =
        [\<lparr> cv_id = ''c1'', cv_project_id = ''0123456789abcdef'', cv_ai_assistant = ''claude'',
           cv_timestamp = 20, cv_context = Some ''{}'', cv_summary = None \<rparr>],
      messages =
        [\<lparr> ms_id = ''msg1'', ms_conversation_id = ''c1'', ms_role = ''user'',
           ms_content = ''hello'', ms_timestamp = 20, ms_metadata = Some ''{}'' \<rparr>],
      architectural_decisions = [],
      file_changes = [],
      code_patterns = [],
      user_preferences = [] \<rparr>"

definition ex_memory :: memory_engine where
  "ex_memory = \<lparr> db = Some ex_db, projectPath = ''/work/app'',
                  md5_hex = (\<lambda>p. ''0123456789abcdef0123456789abcdef''), mworld = ex_world \<rparr>"





text \<open>A project with one conversation, started at time 100, of 21 messages.\<close>

definition ex_long_db :: database where
  "ex_long_db =
    \<lparr> projects =
        [\<lparr> pr_id = ''0123456789abcdef'', pr_name = ''app'', pr_root_path = ''/work/app'',
           pr_created_at = 0, pr_last_active = 121, pr_metadata = None \<rparr>],
      conversations =
        [\<lparr> cv_id = ''c1'', cv_project_id = ''0123456789abcdef'', cv_ai_assistant = ''claude'',
           cv_timestamp = 100, cv_context = Some ''{}'', cv_summary = None \<rparr>],
      messages =
        map (\<lambda>i. \<lparr> ms_id = replicate i (CHR ''m''), ms_conversation_id = ''c1'',
                    ms_role = ''user'', ms_content = replicate i (CHR ''a''),
                    ms_timestamp = 100 + i, ms_metadata = Some ''{}'' \<rparr>) [1..<22],
      architectural_decisions = [],
      file_changes = [],
      code_patterns = [],
      user_preferences = [] \<rparr>"

definition ex_long :: memory_engine where
  "ex_long = \<lparr> db = Some ex_long_db, projectPath = ''/work/app'',
                md5_hex = (\<lambda>p. ''0123456789abcdef0123456789abcdef''), mworld = ex_world \<rparr>"

text \<open>
  A project with an older conversation and two conversations started at the same time,
  whose messages were stored alternately.
\<close>

definition ex_tie_db :: database where
  "ex_tie_db =
    \<lparr> projects =
        [\<lparr> pr_id = ''0123456789abcdef'', pr_name = ''app'', pr_root_path = ''/work/app'',
           pr_created_at = 0, pr_last_active = 7, pr_metadata = None \<rparr>],
      conversations =
        [\<lparr> cv_id = ''c-old'', cv_project_id = ''0123456789abcdef'', cv_ai_assistant = ''claude'',
           cv_timestamp = 3, cv_context = Some ''{}'', cv_summary = None \<rparr>,
         \<lparr> cv_id = ''c-b'', cv_project_id = ''0123456789abcdef'', cv_ai_assistant = ''copilot'',
           cv_timestamp = 7, cv_context = Some ''{}'', cv_summary = None \<rparr>,
         \<lparr> cv_id = ''c-a'', cv_project_id = ''0123456789abcdef'', cv_ai_assistant = ''claude'',
           cv_timestamp = 7, cv_context = Some ''{}'', cv_summary = None \<rparr>],
      messages =
        [\<lparr> ms_id = ''m0'', ms_conversation_id = ''c-old'', ms_role = ''user'',
           ms_content = ''old'', ms_timestamp = 3, ms_metadata = Some ''{}'' \<rparr>,
         \<lparr> ms_id = ''m1'', ms_conversation_id = ''c-a'', ms_role = ''user'',
           ms_content = ''first'', ms_timestamp = 7, ms_metadata = Some ''{}'' \<rparr>,
         \<lparr> ms_id = ''m2'', ms_conversation_id = ''c-b'', ms_role = ''user'',
           ms_content = ''second'', ms_timestamp = 7, ms_metadata = Some ''{}'' \<rparr>,
         \<lparr> ms_id = ''m3'', ms_conversation_id = ''c-a'', ms_role = ''assistant'',
           ms_content = ''third'', ms_timestamp = 8, ms_metadata = Some ''{}'' \<rparr>],
      architectural_decisions = [],
      file_changes = [],
      code_patterns = [],
      user_preferences = [] \<rparr>"

definition ex_tie :: memory_engine where
  "ex_tie = \<lparr> db = Some ex_tie_db, projectPath = ''/work/app'',
               md5_hex = (\<lambda>p. ''0123456789abcdef0123456789abcdef''), mworld = ex_world \<rparr>"

text \<open>A new team memory, the team after it was created, and after four members voted.\<close>

definition ex_memory_input :: team_memory_input where
  "ex_memory_input =
    \<lparr> ti_type = ''pattern'', ti_title = ''Retry with backoff'',
      ti_content = ''Wrap flaky calls'', ti_context = None, ti_createdBy = ''u-dev'',
      ti_tags = Some ''[]'', ti_visibility = Some ''team_only'', ti_projectId = None,
      ti_metadata = Some ''{}'' \<rparr>"

definition ex_team_new :: team_memory_engine where
  "ex_team_new = snd (createTeamMemory ex_team ex_memory_input)"

definition ex_team_voted :: team_memory_engine where
  "ex_team_voted =
    snd (voteOnMemory
      (snd (voteOnMemory
        (snd (voteOnMemory
          (snd (voteOnMemory ex_team_new ''id-'' ''u-admin'' ''upvote''))
          ''id-'' ''u-dev'' ''upvote''))
        ''id-'' ''u-obs'' ''upvote''))
      ''id-'' ''u-lead'' ''downvote'')"

section \<open>Notions used in the proofs\<close>

text \<open>The world after the two draws of one \<open>logAudit\<close>.\<close>

definition after_log :: "world \<Rightarrow> world" where
  "after_log w = w\<lparr>draws := Suc (Suc (draws w))\<rparr>"

text \<open>Two engine states that differ at most in the world.\<close>

definition only_world :: "perm_engine \<Rightarrow> perm_engine \<Rightarrow> bool" where
  "only_world s s' = (\<exists>w. s' = s\<lparr>pworld := w\<rparr>)"

text \<open>
  Two engine states on which every permission check decides alike: same rules, same team
  store, same world, same approved requests.
\<close>

definition same_decisions :: "perm_engine \<Rightarrow> perm_engine \<Rightarrow> bool" where
  "same_decisions s t =
    (permissionRules s = permissionRules t \<and> teamMemoryEngine s = teamMemoryEngine t \<and>
     pworld s = pworld t \<and>
     (\<forall>u rt rid. checkApprovalStatus s u rt rid = checkApprovalStatus t u rt rid))"

text \<open>The request record after each transition, and the rule that an approval creates.\<close>

definition approved_request :: "access_request \<Rightarrow> nat \<Rightarrow> string \<Rightarrow> access_request" where
  "approved_request request now approverId =
     request\<lparr>q_status := ''approved'', q_approvedAt := Some now, q_approvedBy := Some approverId\<rparr>"

definition denied_request :: "access_request \<Rightarrow> string \<Rightarrow> access_request" where
  "denied_request request reason = request\<lparr>q_status := ''denied'', q_denyReason := Some reason\<rparr>"

definition materialized_rule :: "access_request \<Rightarrow> string \<Rightarrow> string \<Rightarrow> nat \<Rightarrow> permission_rule" where
  "materialized_rule request approverId ruleId now =
     \<lparr> r_id = ruleId, r_resourceType = q_resourceType request,
       r_resourceId = q_resourceId request, r_subjectType = ''user'',
       r_subjectId = q_requesterId request, r_permissions = q_requestedPermissions request,
       r_createdBy = approverId, r_createdAt = now, r_expiresAt = q_expiresAt request,
       r_conditions = None, r_isActive = True \<rparr>"

text \<open>
  The share of upvotes among the votes stored for a memory, as a double; 0.5 when there
  are none.
\<close>

definition vote_score :: "team_database \<Rightarrow> string \<Rightarrow> real" where
  "vote_score d memoryId =
    (let upvotes = length (filter (\<lambda>r. vr_memory_id r = memoryId \<and> vr_vote r = ''upvote'')
                             (team_memory_votes d));
         downvotes = length (filter (\<lambda>r. vr_memory_id r = memoryId \<and> vr_vote r = ''downvote'')
                               (team_memory_votes d))
     in if upvotes + downvotes > 0 then double_quotient upvotes (upvotes + downvotes) else 0.5)"





section \<open>Properties of the permission engine\<close>

subsection \<open>Audit logging and frames\<close>


lemma logAudit_rejects:
  "port_getTeamMembers (teamMemoryEngine s) = Inl err \<Longrightarrow>
   logAudit s u a rt rid ok em md = (Inl err, s)"
  by (simp add: logAudit_def)

lemma logAudit_resolves:
  "port_getTeamMembers (teamMemoryEngine s) = Inr ms \<Longrightarrow>
   logAudit s u a rt rid ok em md =
     (Inr (), s\<lparr>auditLogs := push_capped (auditLogs s)
                   (mk_auditLog ms (uuids (pworld s) (draws (pworld s)))
                      (clock (pworld s) (Suc (draws (pworld s)))) u a rt rid ok em md),
               pworld := after_log (pworld s)\<rparr>)"
  by (simp add: logAudit_def uuidv4_def new_Date_def after_log_def)

lemma log_return_rejects:
  "port_getTeamMembers (teamMemoryEngine s) = Inl err \<Longrightarrow>
   log_return s u a rt rid ok em v = (Inl err, s)"
  by (simp add: log_return_def logAudit_rejects)

lemma log_return_resolves:
  "port_getTeamMembers (teamMemoryEngine s) = Inr ms \<Longrightarrow>
   log_return s u a rt rid ok em v =
     (Inr v, s\<lparr>auditLogs := push_capped (auditLogs s)
                   (mk_auditLog ms (uuids (pworld s) (draws (pworld s)))
                      (clock (pworld s) (Suc (draws (pworld s)))) u a rt rid ok em None),
               pworld := after_log (pworld s)\<rparr>)"
  by (simp add: log_return_def logAudit_resolves)

lemma checkPermission_try_rejects:
  "port_getTeamMembers (teamMemoryEngine s) = Inl err \<Longrightarrow>
   checkPermission_try s u a rt rid = (Inl err, s)"
  by (simp add: checkPermission_try_def)

lemma checkPermission_rejects:
  "port_getTeamMembers (teamMemoryEngine s) = Inl err \<Longrightarrow>
   checkPermission s u a rt rid = (Inl err, s)"
  by (simp add: checkPermission_def checkPermission_try_rejects log_return_rejects)

lemma length_push_capped:
  "length logs \<le> 10000 \<Longrightarrow> length (push_capped logs e) \<le> 10000"
  by (simp add: push_capped_def slice_last_def Let_def)

lemma push_capped_recent:
  "push_capped logs e = drop (length (logs @ [e]) - 10000) (logs @ [e])"
  by (simp add: push_capped_def slice_last_def Let_def)

text \<open>Conditions and the explicit loop only advance the world.\<close>

lemma only_world_refl: "only_world s s"
  unfolding only_world_def by (rule exI[of _ "pworld s"]) simp

lemma only_world_trans: "only_world s t \<Longrightarrow> only_world t u \<Longrightarrow> only_world s u"
  unfolding only_world_def by auto

lemma evaluateConditions_frame:
  "only_world s (snd (evaluateConditions s cs u rt rid))"
proof (induction s cs u rt rid rule: evaluateConditions.induct)
  case (2 s start "end" cs userId resourceType resourceId)
  have "only_world s (snd (isInTimeWindow s start end))"
    unfolding only_world_def isInTimeWindow_def by (auto simp: new_Date_def)
  with 2 show ?case
    by (auto simp: split: prod.splits if_splits intro: only_world_trans)
qed (auto simp: only_world_refl split: sum.splits option.splits)

lemma explicit_loop_frame:
  "only_world s (snd (explicit_loop s rules u a rt rid))"
proof (induction s rules u a rt rid rule: explicit_loop.induct)
  case (2 s rule rules userId action resourceType resourceId)
  show ?case
  proof (cases "find (\<lambda>p. p_action p = action) (r_permissions rule)")
    case None
    with 2(1) show ?thesis by simp
  next
    case (Some permission)
    show ?thesis
    proof (cases "r_conditions rule")
      case None
      with Some show ?thesis by (simp add: only_world_refl)
    next
      case (Some cs0)
      note cs0 = this
      show ?thesis
      proof (cases cs0)
        case Nil
        with cs0 \<open>find _ _ = Some permission\<close> show ?thesis by (simp add: only_world_refl)
      next
        case (Cons c cs)
        obtain r s' where ev: "evaluateConditions s (c # cs) userId resourceType resourceId = (r, s')"
          by (cases "evaluateConditions s (c # cs) userId resourceType resourceId")
        have f1: "only_world s s'"
          using evaluateConditions_frame[of s "c # cs" userId resourceType resourceId] ev by simp
        show ?thesis
        proof (cases r)
          case (Inl err)
          with ev cs0 Cons \<open>find _ _ = Some permission\<close> f1 show ?thesis by simp
        next
          case (Inr met)
          show ?thesis
          proof (cases met)
            case True
            with Inr ev cs0 Cons \<open>find _ _ = Some permission\<close> f1 show ?thesis by simp
          next
            case False
            have "only_world s' (snd (explicit_loop s' rules userId action resourceType resourceId))"
              using 2(2)[OF \<open>find _ _ = Some permission\<close> cs0 Cons ev[symmetric] Inr] False by simp
            with False Inr ev cs0 Cons \<open>find _ _ = Some permission\<close> f1 show ?thesis
              by (auto intro: only_world_trans)
          qed
        qed
      qed
    qed
  qed
qed (simp add: only_world_refl)


lemma only_world_port: "only_world s s' \<Longrightarrow> teamMemoryEngine s' = teamMemoryEngine s"
  by (auto simp: only_world_def)

lemma only_world_logs: "only_world s s' \<Longrightarrow> auditLogs s' = auditLogs s"
  by (auto simp: only_world_def)

lemma only_world_rules: "only_world s s' \<Longrightarrow> permissionRules s' = permissionRules s"
  by (auto simp: only_world_def)

lemma only_world_requests: "only_world s s' \<Longrightarrow> accessRequests s' = accessRequests s"
  by (auto simp: only_world_def)

lemma checkExplicitPermissions_frame:
  "only_world s (snd (checkExplicitPermissions s u a rt rid))"
  by (simp add: checkExplicitPermissions_def explicit_loop_frame)

lemma checkExplicitPermissions_no_rules:
  "permissionRules s = [] \<Longrightarrow> checkExplicitPermissions s u a rt rid = (Inr None, s)"
  by (simp add: checkExplicitPermissions_def)

lemma fst_log_return:
  "port_getTeamMembers (teamMemoryEngine s) = Inr ms \<Longrightarrow>
   fst (log_return s u a rt rid ok em v) = Inr v"
  by (simp add: log_return_resolves)

lemma logs_log_return:
  "port_getTeamMembers (teamMemoryEngine s) = Inr ms \<Longrightarrow>
   auditLogs (snd (log_return s u a rt rid ok em v)) =
     push_capped (auditLogs s)
       (mk_auditLog ms (uuids (pworld s) (draws (pworld s)))
          (clock (pworld s) (Suc (draws (pworld s)))) u a rt rid ok em None)"
  by (simp add: log_return_resolves)

lemma port_log_return:
  "teamMemoryEngine (snd (log_return s u a rt rid ok em v)) = teamMemoryEngine s"
  by (cases "port_getTeamMembers (teamMemoryEngine s)")
     (simp_all add: log_return_rejects log_return_resolves)

text \<open>The role lookup on the matrix itself, and what it can return.\<close>

lemma checkRolePermissions_matrix:
  "map_of defaultPermissions role = Some row \<Longrightarrow> map_of row action = Some b \<Longrightarrow>
   checkRolePermissions role action = Inr (JBool b)"
  by (simp add: checkRolePermissions_def defaultPermissions_get_def js_or_false_def)

lemma checkRolePermissions_inherited:
  assumes "map_of defaultPermissions role = Some row" "map_of row action = None"
  shows "\<exists>v. checkRolePermissions role action = Inr v \<and>
             js_truthy v = (action \<in> set ([''constructor'', ''__proto__''] @
                                           object_prototype_methods))"
  using assms
  by (auto simp: checkRolePermissions_def defaultPermissions_get_def js_or_false_def
        get_Object_prototype_def)

lemma js_or_false_idem: "js_or_false (js_or_false v) = js_or_false v"
  by (simp add: js_or_false_def)

lemma checkRolePermissions_value:
  "checkRolePermissions role action = Inr v \<Longrightarrow> js_or_false v = v"
  by (auto simp: checkRolePermissions_def js_or_false_idem js_or_false_def[of "JBool False"]
           split: role_entry.splits sum.splits)

lemma js_and_memory:
  "js_or_false v = v \<Longrightarrow> js_and v (JBool True) = JBool (js_truthy v)"
  by (cases v) (auto simp: js_and_def js_or_false_def split: if_splits)

lemma role_table:
  "checkRolePermissions ''developer'' ''write'' = Inr (JBool True)"
  "checkRolePermissions ''developer'' ''delete'' = Inr (JBool False)"
  "checkRolePermissions ''observer'' ''vote'' = Inr (JBool True)"
  "checkRolePermissions ''observer'' ''comment'' = Inr (JBool True)"
  "checkRolePermissions ''observer'' ''write'' = Inr (JBool False)"
  "checkRolePermissions ''observer'' ''read'' = Inr (JBool True)"
  "checkRolePermissions ''developer'' ''read'' = Inr (JBool True)"
  by (simp_all add: checkRolePermissions_def defaultPermissions_get_def defaultPermissions_def
        js_or_false_def)

text \<open>
  An action that names a property of \<open>Object.prototype\<close> is found through the prototype
  chain of the role's row; reading \<open>caller\<close> from a built-in function throws.
\<close>

lemma role_lookup_inherited:
  "checkRolePermissions ''observer'' ''toString'' = Inr (JBuiltin ''Object.prototype.toString'')"
  "checkRolePermissions ''observer'' ''constructor'' = Inr (JBuiltin ''Object'')"
  "checkRolePermissions ''observer'' ''publish'' = Inr (JBool False)"
  "checkRolePermissions ''team_lead'' ''read'' = Inr (JBool False)"
  "checkRolePermissions ''__proto__'' ''__proto__'' = Inr (JBool False)"
  "checkRolePermissions ''valueOf'' ''length'' = Inr (JBool False)"
  "checkRolePermissions ''hasOwnProperty'' ''length'' = Inr (JNumber 1)"
  "checkRolePermissions ''constructor'' ''keys'' = Inr (JBuiltin ''Object.keys'')"
  "checkRolePermissions ''toString'' ''caller'' = Inl restricted_property_message"
  by (simp_all add: checkRolePermissions_def defaultPermissions_get_def defaultPermissions_def
        js_or_false_def get_Object_prototype_def object_prototype_methods_def
        get_builtin_function_def builtin_length_def builtin_name_def object_static_methods_def
        restricted_function_properties_def function_prototype_methods_def)

text \<open>The decision without a deciding explicit rule.\<close>

lemma checkPermission_try_implicit:
  assumes members: "port_getTeamMembers (teamMemoryEngine s) = Inr members"
      and user: "find (\<lambda>m. tm_id m = userId) members = Some user"
      and none: "checkExplicitPermissions s userId action resourceType resourceId = (Inr None, s1)"
  shows "checkPermission_try s userId action resourceType resourceId =
    (case checkRolePermissions (tm_role user) action of
       Inl err \<Rightarrow> (Inl err, s1)
     | Inr rolePermission \<Rightarrow>
        if resourceType = ''memory'' \<and> truthy resourceId then
          (case checkMemoryPermissions s1 userId action (or_empty resourceId) of
             Inl err \<Rightarrow> (Inl err, s1)
           | Inr memoryPermission \<Rightarrow>
               log_return s1 userId ''permission_check'' resourceType resourceId
                 (js_and rolePermission (JBool memoryPermission)) None
                 (js_and rolePermission (JBool memoryPermission)))
        else log_return s1 userId ''permission_check'' resourceType (Some (or_empty resourceId))
               rolePermission None rolePermission)"
  using assms by (simp add: checkPermission_try_def Let_def split: sum.splits)

lemma checkMemoryPermissions_creator:
  assumes "port_getTeamMemories (teamMemoryEngine s) = Inr memories"
      and "find (\<lambda>m. mem_id m = memoryId) memories = Some memory"
      and "mem_createdBy memory = userId"
  shows "checkMemoryPermissions s userId action memoryId = Inr True"
  using assms by (simp add: checkMemoryPermissions_def)

lemma checkMemoryPermissions_team_only:
  assumes "port_getTeamMemories (teamMemoryEngine s) = Inr memories"
      and "find (\<lambda>m. mem_id m = memoryId) memories = Some memory"
      and "mem_visibility memory = Some ''team_only''"
  shows "checkMemoryPermissions s userId action memoryId = Inr True"
  using assms by (simp add: checkMemoryPermissions_def)

lemma checkMemoryPermissions_private:
  assumes "port_getTeamMemories (teamMemoryEngine s) = Inr memories"
      and "find (\<lambda>m. mem_id m = memoryId) memories = Some memory"
      and "mem_visibility memory = Some ''private''"
      and "mem_createdBy memory \<noteq> userId"
  shows "checkMemoryPermissions s userId action memoryId = Inr False"
  using assms by (simp add: checkMemoryPermissions_def)

lemma fst_checkPermission_of_try:
  assumes members: "port_getTeamMembers (teamMemoryEngine s) = Inr members"
      and tried: "checkPermission_try s userId action resourceType resourceId = (r, s1)"
      and port: "teamMemoryEngine s1 = teamMemoryEngine s"
  shows "fst (checkPermission s userId action resourceType resourceId) =
           (case r of Inl err \<Rightarrow> Inr (JBool False) | Inr v \<Rightarrow> Inr v)"
proof -
  have m1: "port_getTeamMembers (teamMemoryEngine s1) = Inr members" using members port by simp
  show ?thesis
    by (cases r) (simp_all add: checkPermission_def tried fst_log_return[OF m1])
qed

text \<open>
  Claim C1, as the code has it. Without a deciding explicit rule, \<open>checkPermission\<close> on a
  memory answers \<open>rolePermission && memoryPermission\<close>. For the creator of the memory the
  second operand is \<open>true\<close> whatever the visibility, so the answer is \<open>true\<close> exactly when the
  role lookup \<open>defaultPermissions[role]?.[action]\<close> is truthy, and \<open>false\<close> when it is not or
  when it throws. For a role and an action of the matrix the answer is the entry of the
  matrix: the creator is granted what the creator's role is granted. For a role of the
  matrix and an action outside it the answer is \<open>true\<close> exactly when the action names a
  property that the row inherits from \<open>Object.prototype\<close>.
\<close>

theorem creator_passes_when_role_allows:
  assumes members: "port_getTeamMembers (teamMemoryEngine s) = Inr members"
      and user: "find (\<lambda>m. tm_id m = userId) members = Some user"
      and memories: "port_getTeamMemories (teamMemoryEngine s) = Inr memories"
      and memory: "find (\<lambda>m. mem_id m = memoryId) memories = Some memory"
      and creator: "mem_createdBy memory = userId"
      and named: "memoryId \<noteq> []"
      and no_rule: "fst (checkExplicitPermissions s userId action ''memory'' (Some memoryId)) = Inr None"
  shows "fst (checkPermission s userId action ''memory'' (Some memoryId)) =
           (case checkRolePermissions (tm_role user) action of
              Inl err \<Rightarrow> Inr (JBool False)
            | Inr rolePermission \<Rightarrow> Inr (JBool (js_truthy rolePermission))) \<and>
         (\<forall>row b. map_of defaultPermissions (tm_role user) = Some row \<longrightarrow>
                  map_of row action = Some b \<longrightarrow>
                  fst (checkPermission s userId action ''memory'' (Some memoryId)) =
                    Inr (JBool b)) \<and>
         (\<forall>row. map_of defaultPermissions (tm_role user) = Some row \<longrightarrow>
                map_of row action = None \<longrightarrow>
                fst (checkPermission s userId action ''memory'' (Some memoryId)) =
                  Inr (JBool (action \<in> set ([''constructor'', ''__proto__''] @
                                              object_prototype_methods))))"
proof -
  obtain s1 where ex: "checkExplicitPermissions s userId action ''memory'' (Some memoryId) = (Inr None, s1)"
    using no_rule by (cases "checkExplicitPermissions s userId action ''memory'' (Some memoryId)") simp
  have ow: "only_world s s1"
    using checkExplicitPermissions_frame[of s userId action "''memory''" "Some memoryId"] ex by simp
  have port: "teamMemoryEngine s1 = teamMemoryEngine s" by (rule only_world_port[OF ow])
  have m1: "port_getTeamMembers (teamMemoryEngine s1) = Inr members" using members port by simp
  have mp: "checkMemoryPermissions s1 userId action memoryId = Inr True"
    by (rule checkMemoryPermissions_creator[OF _ memory creator]) (simp add: port memories)
  obtain r s2 where t: "checkPermission_try s userId action ''memory'' (Some memoryId) = (r, s2)"
    by (cases "checkPermission_try s userId action ''memory'' (Some memoryId)")
  have outcome: "r = (case checkRolePermissions (tm_role user) action of
                        Inl err \<Rightarrow> Inl err
                      | Inr rolePermission \<Rightarrow> Inr (JBool (js_truthy rolePermission))) \<and>
                 teamMemoryEngine s2 = teamMemoryEngine s"
  proof (cases "checkRolePermissions (tm_role user) action")
    case (Inl err)
    have "checkPermission_try s userId action ''memory'' (Some memoryId) = (Inl err, s1)"
      unfolding checkPermission_try_implicit[OF members user ex] by (simp add: Inl)
    with t have "r = Inl err" "s2 = s1" by simp_all
    then show ?thesis by (simp add: Inl port)
  next
    case (Inr v)
    have a: "js_and v (JBool True) = JBool (js_truthy v)"
      by (rule js_and_memory[OF checkRolePermissions_value[OF Inr]])
    have "checkPermission_try s userId action ''memory'' (Some memoryId) =
            log_return s1 userId ''permission_check'' ''memory'' (Some memoryId)
              (JBool (js_truthy v)) None (JBool (js_truthy v))"
      unfolding checkPermission_try_implicit[OF members user ex]
      using named by (simp add: Inr mp or_empty_def truthy_def a)
    with t have "r = fst (log_return s1 userId ''permission_check'' ''memory'' (Some memoryId)
              (JBool (js_truthy v)) None (JBool (js_truthy v)))"
      and "s2 = snd (log_return s1 userId ''permission_check'' ''memory'' (Some memoryId)
              (JBool (js_truthy v)) None (JBool (js_truthy v)))"
      by simp_all
    then show ?thesis
      by (simp add: Inr fst_log_return[OF m1] port_log_return port)
  qed
  have general: "fst (checkPermission s userId action ''memory'' (Some memoryId)) =
           (case checkRolePermissions (tm_role user) action of
              Inl err \<Rightarrow> Inr (JBool False)
            | Inr rolePermission \<Rightarrow> Inr (JBool (js_truthy rolePermission)))"
    unfolding fst_checkPermission_of_try[OF members t conjunct2[OF outcome]]
    by (simp add: conjunct1[OF outcome] split: sum.splits)
  have matrix: "fst (checkPermission s userId action ''memory'' (Some memoryId)) = Inr (JBool b)"
    if "map_of defaultPermissions (tm_role user) = Some row" "map_of row action = Some b"
    for row b
    unfolding general by (simp add: checkRolePermissions_matrix[OF that])
  have inherited: "fst (checkPermission s userId action ''memory'' (Some memoryId)) =
                  Inr (JBool (action \<in> set ([''constructor'', ''__proto__''] @
                                              object_prototype_methods)))"
    if "map_of defaultPermissions (tm_role user) = Some row" "map_of row action = None"
    for row
    using checkRolePermissions_inherited[OF that] unfolding general by auto
  show ?thesis
  proof (intro conjI allI impI)
    show "fst (checkPermission s userId action ''memory'' (Some memoryId)) =
           (case checkRolePermissions (tm_role user) action of
              Inl err \<Rightarrow> Inr (JBool False)
            | Inr rolePermission \<Rightarrow> Inr (JBool (js_truthy rolePermission)))"
      by (rule general)
  next
    fix row b
    assume "map_of defaultPermissions (tm_role user) = Some row" "map_of row action = Some b"
    then show "fst (checkPermission s userId action ''memory'' (Some memoryId)) = Inr (JBool b)"
      by (rule matrix)
  next
    fix row
    assume "map_of defaultPermissions (tm_role user) = Some row" "map_of row action = None"
    then show "fst (checkPermission s userId action ''memory'' (Some memoryId)) =
                  Inr (JBool (action \<in> set ([''constructor'', ''__proto__''] @
                                              object_prototype_methods)))"
      by (rule inherited)
  qed
qed

lemma last_push_capped: "last (push_capped logs e) = e"
  by (simp add: push_capped_def slice_last_def Let_def)

lemma push_capped_nonempty: "push_capped logs e \<noteq> []"
  by (simp add: push_capped_def slice_last_def Let_def)

lemma checkPermission_implicit_memory:
  assumes members: "port_getTeamMembers (teamMemoryEngine s) = Inr members"
      and user: "find (\<lambda>m. tm_id m = userId) members = Some user"
      and norules: "permissionRules s = []"
      and mp: "checkMemoryPermissions s userId action M = Inr True"
      and role: "checkRolePermissions (tm_role user) action = Inr (JBool b)"
  shows "checkPermission s userId action ''memory'' (Some M) =
           log_return s userId ''permission_check'' ''memory'' (Some M) (JBool b) None (JBool b)"
proof -
  have t: "checkPermission_try s userId action ''memory'' (Some M) =
           log_return s userId ''permission_check'' ''memory'' (Some M) (JBool b) None (JBool b)"
    unfolding checkPermission_try_implicit[OF members user checkExplicitPermissions_no_rules[OF norules]]
    using mp by (simp add: role truthy_def or_empty_def js_and_def)
  show ?thesis
    unfolding checkPermission_def t by (simp add: log_return_resolves[OF members])
qed

text \<open>
  Claim C2. In a team with no explicit rules, a developer who did not create a
  \<open>team_only\<close> memory may write it and may not delete it; an observer may vote and comment;
  an observer's write is refused, and the audit log after the refusal is the log before it
  with one entry added at its end, cut to its last 10,000 entries. The entry names the
  observer, the action \<open>permission_check\<close> and the memory, its \<open>success\<close> is \<open>false\<close>, and it
  carries no error message.
\<close>

theorem developer_and_observer_on_team_only_memory:
  assumes members: "port_getTeamMembers (teamMemoryEngine s) = Inr members"
      and dev: "find (\<lambda>m. tm_id m = devId) members = Some developer"
      and dev_role: "tm_role developer = ''developer''"
      and obs: "find (\<lambda>m. tm_id m = obsId) members = Some observer"
      and obs_role: "tm_role observer = ''observer''"
      and memories: "port_getTeamMemories (teamMemoryEngine s) = Inr memories"
      and memory: "find (\<lambda>m. mem_id m = memoryId) memories = Some memory"
      and not_creator: "mem_createdBy memory \<noteq> devId"
      and team_only: "mem_visibility memory = Some ''team_only''"
      and norules: "permissionRules s = []"
  shows "fst (checkPermission s devId ''write'' ''memory'' (Some memoryId)) = Inr (JBool True) \<and>
         fst (checkPermission s devId ''delete'' ''memory'' (Some memoryId)) = Inr (JBool False) \<and>
         fst (checkPermission s obsId ''vote'' ''memory'' (Some memoryId)) = Inr (JBool True) \<and>
         fst (checkPermission s obsId ''comment'' ''memory'' (Some memoryId)) = Inr (JBool True) \<and>
         fst (checkPermission s obsId ''write'' ''memory'' (Some memoryId)) = Inr (JBool False) \<and>
         auditLogs (snd (checkPermission s obsId ''write'' ''memory'' (Some memoryId))) =
           drop (Suc (length (auditLogs s)) - 10000)
             (auditLogs s @
              [\<lparr> a_id = uuids (pworld s) (draws (pworld s)),
                 a_userId = obsId,
                 a_userName = (if tm_name observer = [] then ''Unknown'' else tm_name observer),
                 a_action = ''permission_check'',
                 a_resourceType = ''memory'',
                 a_resourceId = Some memoryId,
                 a_resourceName = Some memoryId,
                 a_timestamp = clock (pworld s) (Suc (draws (pworld s))),
                 a_success = JBool False,
                 a_errorMessage = None,
                 a_metadata = None \<rparr>])"
proof -
  have mp: "checkMemoryPermissions s u a memoryId = Inr True" for u a
    by (rule checkMemoryPermissions_team_only[OF memories memory team_only])
  note d = checkPermission_implicit_memory[OF members dev norules mp]
  note ob = checkPermission_implicit_memory[OF members obs norules mp]
  have 1: "fst (checkPermission s devId ''write'' ''memory'' (Some memoryId)) = Inr (JBool True)"
    by (simp add: d[of "''write''" True] dev_role role_table fst_log_return[OF members])
  have 2: "fst (checkPermission s devId ''delete'' ''memory'' (Some memoryId)) = Inr (JBool False)"
    by (simp add: d[of "''delete''" False] dev_role role_table fst_log_return[OF members])
  have 3: "fst (checkPermission s obsId ''vote'' ''memory'' (Some memoryId)) = Inr (JBool True)"
    by (simp add: ob[of "''vote''" True] obs_role role_table fst_log_return[OF members])
  have 4: "fst (checkPermission s obsId ''comment'' ''memory'' (Some memoryId)) = Inr (JBool True)"
    by (simp add: ob[of "''comment''" True] obs_role role_table fst_log_return[OF members])
  have w: "checkPermission s obsId ''write'' ''memory'' (Some memoryId) =
             log_return s obsId ''permission_check'' ''memory'' (Some memoryId) (JBool False) None
               (JBool False)"
    by (rule ob) (simp add: obs_role role_table)
  have 5: "fst (checkPermission s obsId ''write'' ''memory'' (Some memoryId)) = Inr (JBool False)"
    by (simp add: w fst_log_return[OF members])
  have 6: "auditLogs (snd (checkPermission s obsId ''write'' ''memory'' (Some memoryId))) =
           drop (Suc (length (auditLogs s)) - 10000)
             (auditLogs s @
              [\<lparr> a_id = uuids (pworld s) (draws (pworld s)),
                 a_userId = obsId,
                 a_userName = (if tm_name observer = [] then ''Unknown'' else tm_name observer),
                 a_action = ''permission_check'',
                 a_resourceType = ''memory'',
                 a_resourceId = Some memoryId,
                 a_resourceName = Some memoryId,
                 a_timestamp = clock (pworld s) (Suc (draws (pworld s))),
                 a_success = JBool False,
                 a_errorMessage = None,
                 a_metadata = None \<rparr>])"
    unfolding w logs_log_return[OF members] push_capped_recent
    by (simp add: mk_auditLog_def obs)
  from 1 2 3 4 5 6 show ?thesis by blast
qed

lemma mk_auditLog_sel [simp]:
  "a_userId (mk_auditLog ms uid now u a rt rid ok em md) = u"
  "a_action (mk_auditLog ms uid now u a rt rid ok em md) = a"
  "a_resourceType (mk_auditLog ms uid now u a rt rid ok em md) = rt"
  "a_resourceId (mk_auditLog ms uid now u a rt rid ok em md) = rid"
  "a_success (mk_auditLog ms uid now u a rt rid ok em md) = ok"
  "a_errorMessage (mk_auditLog ms uid now u a rt rid ok em md) = em"
  by (simp_all add: mk_auditLog_def)

lemma port_evaluateConditions:
  "teamMemoryEngine (snd (evaluateConditions s cs u rt rid)) = teamMemoryEngine s"
  by (rule only_world_port[OF evaluateConditions_frame])

lemma port_checkExplicit:
  "teamMemoryEngine (snd (checkExplicitPermissions s u a rt rid)) = teamMemoryEngine s"
  by (rule only_world_port[OF checkExplicitPermissions_frame])

lemma logs_checkExplicit:
  "auditLogs (snd (checkExplicitPermissions s u a rt rid)) = auditLogs s"
  by (rule only_world_logs[OF checkExplicitPermissions_frame])

lemma log_return_outcome:
  assumes "port_getTeamMembers (teamMemoryEngine s1) = Inr members"
      and "auditLogs s1 = logs"
  shows "case log_return s1 u ''permission_check'' rt r0 b em b of
           (Inl err, s') \<Rightarrow> auditLogs s' = logs \<and> teamMemoryEngine s' = port0
         | (Inr b', s') \<Rightarrow> (\<exists>entry. auditLogs s' = push_capped logs entry \<and>
                               a_userId entry = u \<and> a_action entry = ''permission_check'' \<and>
                               a_success entry = b')"
  using assms(2)
  by (simp add: log_return_resolves[OF assms(1)]) (rule exI, intro conjI, rule refl, simp_all)

text \<open>What the try block does to the log: nothing when it throws, one entry when it returns.\<close>

lemma checkPermission_try_outcome:
  assumes members: "port_getTeamMembers (teamMemoryEngine s) = Inr members"
  shows "case checkPermission_try s u a rt rid of
           (Inl err, s') \<Rightarrow> auditLogs s' = auditLogs s \<and> teamMemoryEngine s' = teamMemoryEngine s
         | (Inr b, s') \<Rightarrow> (\<exists>entry. auditLogs s' = push_capped (auditLogs s) entry \<and>
                               a_userId entry = u \<and> a_action entry = ''permission_check'' \<and>
                               a_success entry = b)"
proof (cases "find (\<lambda>m. tm_id m = u) members")
  case None
  then have e: "checkPermission_try s u a rt rid =
      log_return s u ''permission_check'' rt (Some (or_empty rid)) (JBool False)
        (Some ''User not found'') (JBool False)"
    using members by (simp add: checkPermission_try_def)
  show ?thesis unfolding e by (rule log_return_outcome[OF members refl])
next
  case (Some user)
  obtain r s1 where ex: "checkExplicitPermissions s u a rt rid = (r, s1)"
    by (cases "checkExplicitPermissions s u a rt rid")
  have port: "teamMemoryEngine s1 = teamMemoryEngine s"
    using port_checkExplicit[of s u a rt rid] ex by simp
  have logs: "auditLogs s1 = auditLogs s"
    using logs_checkExplicit[of s u a rt rid] ex by simp
  have m1: "port_getTeamMembers (teamMemoryEngine s1) = Inr members"
    using members port by simp
  show ?thesis
  proof (cases r)
    case (Inl err)
    with Some ex members port logs show ?thesis by (simp add: checkPermission_try_def)
  next
    case (Inr eo)
    show ?thesis
    proof (cases eo)
      case (Some explicitPermission)
      with Inr \<open>find _ _ = Some user\<close> ex members
      have e: "checkPermission_try s u a rt rid =
        log_return s1 u ''permission_check'' rt (Some (or_empty rid)) (JBool explicitPermission)
          None (JBool explicitPermission)"
        by (simp add: checkPermission_try_def)
      show ?thesis unfolding e by (rule log_return_outcome[OF m1 logs])
    next
      case None
      note t = checkPermission_try_implicit[OF members \<open>find _ _ = Some user\<close> ex[unfolded Inr None]]
      show ?thesis
      proof (cases "checkRolePermissions (tm_role user) a")
        case (Inl err)
        then show ?thesis unfolding t by (simp add: logs port)
      next
        case (Inr rp)
        note rp = this
        show ?thesis
        proof (cases "rt = ''memory'' \<and> truthy rid")
          case False
          then have e: "checkPermission_try s u a rt rid =
              log_return s1 u ''permission_check'' rt (Some (or_empty rid)) rp None rp"
            unfolding t rp by auto
          show ?thesis unfolding e by (rule log_return_outcome[OF m1 logs])
        next
          case True
          show ?thesis
          proof (cases "checkMemoryPermissions s1 u a (or_empty rid)")
            case (Inl err)
            with True show ?thesis unfolding t rp by (simp add: logs port)
          next
            case (Inr mp)
            with True have e: "checkPermission_try s u a rt rid =
              log_return s1 u ''permission_check'' rt rid
                (js_and rp (JBool mp)) None (js_and rp (JBool mp))"
              unfolding t rp by simp
            show ?thesis unfolding e by (rule log_return_outcome[OF m1 logs])
          qed
        qed
      qed
    qed
  qed
qed

lemma fst_log_return_port:
  "fst (log_return s u a rt rid ok em v) =
     (case port_getTeamMembers (teamMemoryEngine s) of Inl err \<Rightarrow> Inl err | Inr _ \<Rightarrow> Inr v)"
  by (cases "port_getTeamMembers (teamMemoryEngine s)")
     (simp_all add: log_return_rejects log_return_resolves)

lemma port_checkPermission_try:
  "teamMemoryEngine (snd (checkPermission_try s u a rt rid)) = teamMemoryEngine s"
proof -
  have pe: "teamMemoryEngine (snd (checkExplicitPermissions s u a rt rid)) = teamMemoryEngine s"
    by (rule port_checkExplicit)
  show ?thesis
    using pe
    by (auto simp: checkPermission_try_def port_log_return Let_def
             split: sum.splits option.splits prod.splits)
qed

lemma fst_checkPermission_via_try:
  "fst (checkPermission s u a rt rid) =
     (case fst (checkPermission_try s u a rt rid) of
        Inl err \<Rightarrow> (case port_getTeamMembers (teamMemoryEngine s) of
                      Inl err' \<Rightarrow> Inl err' | Inr _ \<Rightarrow> Inr (JBool False))
      | Inr v \<Rightarrow> Inr v)"
proof -
  obtain r s' where t: "checkPermission_try s u a rt rid = (r, s')"
    by (cases "checkPermission_try s u a rt rid")
  have port: "teamMemoryEngine s' = teamMemoryEngine s"
    using port_checkPermission_try[of s u a rt rid] t by simp
  show ?thesis
    by (cases r) (simp_all add: checkPermission_def t fst_log_return_port port)
qed

lemma fst_checkPermission_via_members:
  assumes "port_getTeamMembers (teamMemoryEngine s) = Inr members"
  shows "fst (checkPermission s u a rt rid) =
           (case fst (checkPermission_try s u a rt rid) of
              Inl err \<Rightarrow> Inr (JBool False)
            | Inr v \<Rightarrow> Inr v)"
  by (simp add: fst_checkPermission_via_try assms split: sum.splits)

lemma checkPermission_resolves:
  assumes members: "port_getTeamMembers (teamMemoryEngine s) = Inr members"
  shows "\<exists>b entry. fst (checkPermission s u a rt rid) = Inr b \<and>
           auditLogs (snd (checkPermission s u a rt rid)) = push_capped (auditLogs s) entry \<and>
           a_userId entry = u \<and> a_action entry = ''permission_check'' \<and> a_success entry = b"
proof -
  obtain r s' where t: "checkPermission_try s u a rt rid = (r, s')"
    by (cases "checkPermission_try s u a rt rid")
  have oc: "case (r, s') of
           (Inl err, s') \<Rightarrow> auditLogs s' = auditLogs s \<and> teamMemoryEngine s' = teamMemoryEngine s
         | (Inr b, s') \<Rightarrow> (\<exists>entry. auditLogs s' = push_capped (auditLogs s) entry \<and>
                               a_userId entry = u \<and> a_action entry = ''permission_check'' \<and>
                               a_success entry = b)"
    using checkPermission_try_outcome[OF members, of u a rt rid] unfolding t .
  show ?thesis
  proof (cases r)
    case (Inl err)
    with oc have logs: "auditLogs s' = auditLogs s" and port: "teamMemoryEngine s' = teamMemoryEngine s"
      by simp_all
    have m1: "port_getTeamMembers (teamMemoryEngine s') = Inr members" using members port by simp
    have e: "checkPermission s u a rt rid =
       log_return s' u ''permission_check'' rt (Some (or_empty rid)) (JBool False) (Some err)
         (JBool False)"
      by (simp add: checkPermission_def t Inl)
    show ?thesis
      unfolding e
      by (rule exI[of _ "JBool False"], rule exI[of _ "mk_auditLog members (uuids (pworld s') (draws (pworld s')))
                (clock (pworld s') (Suc (draws (pworld s')))) u
                ''permission_check'' rt (Some (or_empty rid)) (JBool False) (Some err) None"])
         (simp add: log_return_resolves[OF m1] logs)
  next
    case (Inr b)
    have e: "checkPermission s u a rt rid = (Inr b, s')"
      by (simp add: checkPermission_def t Inr)
    from oc Inr obtain entry where "auditLogs s' = push_capped (auditLogs s) entry"
      "a_userId entry = u" "a_action entry = ''permission_check''" "a_success entry = b"
      by auto
    then show ?thesis unfolding e by (intro exI[of _ b] exI[of _ entry]) simp
  qed
qed

lemma checkPermission_unknown_user:
  assumes members: "port_getTeamMembers (teamMemoryEngine s) = Inr members"
      and nobody: "find (\<lambda>m. tm_id m = u) members = None"
  shows "fst (checkPermission s u a rt rid) = Inr (JBool False)"
  using assms
  by (simp add: checkPermission_def checkPermission_try_def log_return_resolves[OF members])

lemma logAudit_cap:
  "length (auditLogs s) \<le> 10000 \<Longrightarrow>
   length (auditLogs (snd (logAudit s u a rt rid ok em md))) \<le> 10000"
  by (cases "port_getTeamMembers (teamMemoryEngine s)")
     (simp_all add: logAudit_rejects logAudit_resolves length_push_capped)

lemma checkPermission_cap:
  assumes "length (auditLogs s) \<le> 10000"
  shows "length (auditLogs (snd (checkPermission s u a rt rid))) \<le> 10000"
proof (cases "port_getTeamMembers (teamMemoryEngine s)")
  case (Inl err)
  then show ?thesis using assms by (simp add: checkPermission_rejects)
next
  case (Inr members)
  from checkPermission_resolves[OF Inr, of u a rt rid] assms show ?thesis
    by (auto simp: length_push_capped)
qed

text \<open>Every operation that writes to the audit log keeps it within 10,000 entries.\<close>

lemma log_return_cap:
  "length (auditLogs s) \<le> 10000 \<Longrightarrow>
   length (auditLogs (snd (log_return s u a rt rid ok em v))) \<le> 10000"
  by (cases "port_getTeamMembers (teamMemoryEngine s)")
     (simp_all add: log_return_rejects log_return_resolves length_push_capped)

lemma createPermissionRule_cap:
  "length (auditLogs s) \<le> 10000 \<Longrightarrow>
   length (auditLogs (snd (createPermissionRule s rule))) \<le> 10000"
  by (simp add: createPermissionRule_def uuidv4_def new_Date_def Let_def log_return_cap)

lemma createAccessRequest_cap:
  "length (auditLogs s) \<le> 10000 \<Longrightarrow>
   length (auditLogs (snd (createAccessRequest s request))) \<le> 10000"
  by (simp add: createAccessRequest_def uuidv4_def new_Date_def Let_def log_return_cap)

lemma denyAccessRequest_cap:
  "length (auditLogs s) \<le> 10000 \<Longrightarrow>
   length (auditLogs (snd (denyAccessRequest s requestId denierId reason))) \<le> 10000"
  by (simp add: denyAccessRequest_def Let_def log_return_cap split: option.splits)

lemma approveAccessRequest_cap:
  assumes "length (auditLogs s) \<le> 10000"
  shows "length (auditLogs (snd (approveAccessRequest s requestId approverId approverName))) \<le> 10000"
proof (cases "map_of (accessRequests s) requestId")
  case None
  then show ?thesis using assms by (simp add: approveAccessRequest_def)
next
  case (Some request)
  show ?thesis
  proof (cases "q_status request = ''pending''")
    case False
    then show ?thesis using assms Some by (simp add: approveAccessRequest_def)
  next
    case True
    define s1 where "s1 = s\<lparr>accessRequests := AList.update requestId
        (request\<lparr>q_status := ''approved'', q_approvedAt := Some (clock (pworld s) (draws (pworld s))),
                  q_approvedBy := Some approverId\<rparr>) (accessRequests s),
        pworld := (pworld s)\<lparr>draws := Suc (draws (pworld s))\<rparr>\<rparr>"
    have l1: "length (auditLogs s1) \<le> 10000" using assms by (simp add: s1_def)
    obtain r s2 where la: "logAudit s1 approverId ''approve_access_request''
                     (q_resourceType request) (q_resourceId request) (JBool True) None None = (r, s2)"
      by (cases "logAudit s1 approverId ''approve_access_request''
                     (q_resourceType request) (q_resourceId request) (JBool True) None None")
    have l2: "length (auditLogs s2) \<le> 10000"
      using logAudit_cap[OF l1, of approverId "''approve_access_request''"
              "q_resourceType request" "q_resourceId request" "JBool True" None None] la by simp
    obtain r3 s3 where cr: "createPermissionRule s2
                         \<lparr> r_id = [], r_resourceType = q_resourceType request,
                           r_resourceId = q_resourceId request, r_subjectType = ''user'',
                           r_subjectId = q_requesterId request,
                           r_permissions = q_requestedPermissions request,
                           r_createdBy = approverId, r_createdAt = 0,
                           r_expiresAt = q_expiresAt request, r_conditions = None,
                           r_isActive = True \<rparr> = (r3, s3)"
      by (cases "createPermissionRule s2
                         \<lparr> r_id = [], r_resourceType = q_resourceType request,
                           r_resourceId = q_resourceId request, r_subjectType = ''user'',
                           r_subjectId = q_requesterId request,
                           r_permissions = q_requestedPermissions request,
                           r_createdBy = approverId, r_createdAt = 0,
                           r_expiresAt = q_expiresAt request, r_conditions = None,
                           r_isActive = True \<rparr>")
    have l3: "length (auditLogs s3) \<le> 10000"
      using createPermissionRule_cap[OF l2] cr by (metis snd_conv)
    have "snd (approveAccessRequest s requestId approverId approverName) = s2 \<or>
          snd (approveAccessRequest s requestId approverId approverName) = s3"
      using Some True la cr
      by (cases r; cases r3)
         (simp_all add: approveAccessRequest_def new_Date_def Let_def s1_def[symmetric])
    with l2 l3 show ?thesis by auto
  qed
qed

subsection \<open>The example team, evaluated\<close>

lemma ex_port_members:
  "port_getTeamMembers (teamMemoryEngine ex_engine) = Inr [ex_admin, ex_dev, ex_obs, ex_lead]"
  by code_simp

lemma ex_port_memories:
  "port_getTeamMemories (teamMemoryEngine ex_engine) = Inr [ex_m1]"
  by (simp add: ex_engine_def new_MemoryPermissionsEngine_def port_of_def getTeamMemories_def
      ex_team_def ex_team_db_def order_by_desc_def ex_m1_def getMemoryVotes_def
      getMemoryComments_def order_by_def index_order_def json_or_empty_object_def)

lemma ex_no_rules: "permissionRules ex_engine = []"
  by (simp add: ex_engine_def new_MemoryPermissionsEngine_def)

lemma ex_find_dev: "find (\<lambda>m. tm_id m = ''u-dev'') [ex_admin, ex_dev, ex_obs, ex_lead] = Some ex_dev"
  by (simp add: ex_admin_def ex_dev_def)

lemma ex_find_obs: "find (\<lambda>m. tm_id m = ''u-obs'') [ex_admin, ex_dev, ex_obs, ex_lead] = Some ex_obs"
  by (simp add: ex_admin_def ex_dev_def ex_obs_def)

lemma ex_find_lead: "find (\<lambda>m. tm_id m = ''u-lead'') [ex_admin, ex_dev, ex_obs, ex_lead] = Some ex_lead"
  by (simp add: ex_admin_def ex_dev_def ex_obs_def ex_lead_def)

lemma ex_find_m1: "find (\<lambda>m. mem_id m = ''m1'') [ex_m1] = Some ex_m1"
  by (simp add: ex_m1_def)

lemma ex_down_members:
  "port_getTeamMembers (teamMemoryEngine ex_engine_down) = Inl ''Database not initialized''"
  by (simp add: ex_engine_down_def new_MemoryPermissionsEngine_def port_of_def getTeamMembers_def
      ex_team_def)

lemma ex_private_port:
  "port_getTeamMembers (teamMemoryEngine ex_engine_private) =
     Inr [ex_admin, ex_dev, ex_obs, ex_lead]"
  "port_getTeamMemories (teamMemoryEngine ex_engine_private) = Inr [ex_m2, ex_m1]"
  "permissionRules ex_engine_private = []"
  by code_simp+

lemma ex_find_m2: "find (\<lambda>m. mem_id m = ''m2'') [ex_m2, ex_m1] = Some ex_m2"
  by (simp add: ex_m2_def)

text \<open>The engine after the developer's check of \<open>read\<close> on \<open>m1\<close>: one entry in the log.\<close>

lemma ex_engine_logged_eval:
  "ex_engine_logged =
     ex_engine\<lparr>auditLogs :=
         [\<lparr> a_id = ''id-'', a_userId = ''u-dev'', a_userName = ''Dan'',
            a_action = ''permission_check'', a_resourceType = ''memory'',
            a_resourceId = Some ''m1'', a_resourceName = Some ''m1'', a_timestamp = 1001,
            a_success = JBool True, a_errorMessage = None, a_metadata = None \<rparr>],
       pworld := ex_world\<lparr>draws := 2\<rparr>\<rparr>"
proof -
  have mp: "checkMemoryPermissions ex_engine ''u-dev'' ''read'' ''m1'' = Inr True"
    by (rule checkMemoryPermissions_team_only[OF ex_port_memories ex_find_m1])
       (simp add: ex_m1_def)
  have role: "checkRolePermissions (tm_role ex_dev) ''read'' = Inr (JBool True)"
    by (simp add: ex_dev_def role_table)
  show ?thesis
    unfolding ex_engine_logged_def
      checkPermission_implicit_memory[OF ex_port_members ex_find_dev ex_no_rules mp role]
      log_return_resolves[OF ex_port_members]
    by (simp add: push_capped_def mk_auditLog_def ex_find_dev after_log_def)
       (simp add: ex_engine_def new_MemoryPermissionsEngine_def ex_world_def ex_dev_def
          ex_admin_def)
qed

lemma ex_logged_facts:
  "port_getTeamMembers (teamMemoryEngine ex_engine_logged) =
     Inr [ex_admin, ex_dev, ex_obs, ex_lead]"
  "port_getTeamMemories (teamMemoryEngine ex_engine_logged) = Inr [ex_m1]"
  "permissionRules ex_engine_logged = []"
  unfolding ex_engine_logged_eval
  by (simp_all add: ex_port_members ex_port_memories ex_no_rules)

subsection \<open>Claims C1 and C2 on the example team\<close>

text \<open>
  The developer created the \<open>private\<close> memory \<open>m2\<close>: the developer's \<open>write\<close> is granted and
  the developer's \<open>delete\<close> is refused, as for any memory a developer can see.
\<close>

theorem creator_passes_when_role_allows_witness:
  "fst (checkPermission ex_engine_private ''u-dev'' ''write'' ''memory'' (Some ''m2'')) =
     Inr (JBool True) \<and>
   fst (checkPermission ex_engine_private ''u-dev'' ''delete'' ''memory'' (Some ''m2'')) =
     Inr (JBool False)"
proof -
  have creator: "mem_createdBy ex_m2 = ''u-dev''" by (simp add: ex_m2_def)
  have named: "''m2'' \<noteq> []" by simp
  have no_rule: "fst (checkExplicitPermissions ex_engine_private ''u-dev'' a ''memory'' (Some ''m2''))
                   = Inr None" for a
    by (simp add: checkExplicitPermissions_no_rules[OF ex_private_port(3)])
  note t = creator_passes_when_role_allows[OF ex_private_port(1) ex_find_dev ex_private_port(2)
             ex_find_m2 creator named no_rule]
  have w: "fst (checkPermission ex_engine_private ''u-dev'' ''write'' ''memory'' (Some ''m2'')) =
             Inr (JBool True)"
    using conjunct1[OF t[of "''write''"]] by (simp add: ex_dev_def role_table)
  have d: "fst (checkPermission ex_engine_private ''u-dev'' ''delete'' ''memory'' (Some ''m2'')) =
             Inr (JBool False)"
    using conjunct1[OF t[of "''delete''"]] by (simp add: ex_dev_def role_table)
  from w d show ?thesis by simp
qed

text \<open>Another developer, who did not create \<open>m2\<close>, is refused the same \<open>write\<close>.\<close>

lemma private_memory_refuses_others:
  "fst (checkPermission ex_engine_private ''u-lead'' ''write'' ''memory'' (Some ''m2'')) =
     Inr (JBool False)"
proof -
  have mp: "checkMemoryPermissions ex_engine_private ''u-lead'' ''write'' ''m2'' = Inr False"
    by (rule checkMemoryPermissions_private[OF ex_private_port(2) ex_find_m2])
       (simp_all add: ex_m2_def)
  show ?thesis
    unfolding fst_checkPermission_via_members[OF ex_private_port(1)]
    by (simp add: checkPermission_try_implicit[OF ex_private_port(1) ex_find_lead
          checkExplicitPermissions_no_rules[OF ex_private_port(3)]]
          ex_lead_def role_table truthy_def or_empty_def mp js_and_def
          fst_log_return[OF ex_private_port(1)])
qed

text \<open>
  An action named after a property of \<open>Object.prototype\<close> is granted to the creator in any
  role of the matrix: the lookup finds the inherited function, which is truthy.
\<close>

lemma inherited_action_is_granted:
  "fst (checkPermission ex_engine ''u-obs'' ''toString'' ''memory'' (Some ''m1'')) =
     Inr (JBool True)"
proof -
  have mp: "checkMemoryPermissions ex_engine ''u-obs'' ''toString'' ''m1'' = Inr True"
    by (rule checkMemoryPermissions_creator[OF ex_port_memories ex_find_m1])
       (simp add: ex_m1_def)
  show ?thesis
    unfolding fst_checkPermission_via_members[OF ex_port_members]
    by (simp add: checkPermission_try_implicit[OF ex_port_members ex_find_obs
          checkExplicitPermissions_no_rules[OF ex_no_rules]]
          ex_obs_def role_lookup_inherited truthy_def or_empty_def mp js_and_def
          fst_log_return[OF ex_port_members])
qed

text \<open>
  Claim C1 as stated fails: the observer who created memory \<open>m1\<close>, in a team without
  explicit rules, is refused \<open>write\<close> on it.
\<close>

theorem observer_creator_refused_write:
  "mem_createdBy ex_m1 = ''u-obs'' \<and> tm_role ex_obs = ''observer'' \<and>
   permissionRules ex_engine = [] \<and>
   port_getTeamMembers (teamMemoryEngine ex_engine) = Inr [ex_admin, ex_dev, ex_obs, ex_lead] \<and>
   port_getTeamMemories (teamMemoryEngine ex_engine) = Inr [ex_m1] \<and>
   fst (checkPermission ex_engine ''u-obs'' ''write'' ''memory'' (Some ''m1'')) =
     Inr (JBool False)"
proof -
  have mp: "checkMemoryPermissions ex_engine ''u-obs'' ''write'' ''m1'' = Inr True"
    by (rule checkMemoryPermissions_creator[OF ex_port_memories ex_find_m1])
       (simp add: ex_m1_def)
  have role: "checkRolePermissions (tm_role ex_obs) ''write'' = Inr (JBool False)"
    by (simp add: ex_obs_def role_table)
  have "fst (checkPermission ex_engine ''u-obs'' ''write'' ''memory'' (Some ''m1'')) =
          Inr (JBool False)"
    unfolding checkPermission_implicit_memory[OF ex_port_members ex_find_obs ex_no_rules mp role]
    by (simp add: fst_log_return[OF ex_port_members])
  then show ?thesis
    using ex_port_members ex_port_memories ex_no_rules by (simp add: ex_m1_def ex_obs_def)
qed

text \<open>
  On the engine whose log already holds one entry: the five decisions, and the log after
  the observer's refused \<open>write\<close>, which is the old entry followed by the new one.
\<close>

theorem developer_and_observer_on_team_only_memory_witness:
  "fst (checkPermission ex_engine_logged ''u-dev'' ''write'' ''memory'' (Some ''m1'')) =
     Inr (JBool True) \<and>
   fst (checkPermission ex_engine_logged ''u-dev'' ''delete'' ''memory'' (Some ''m1'')) =
     Inr (JBool False) \<and>
   fst (checkPermission ex_engine_logged ''u-obs'' ''vote'' ''memory'' (Some ''m1'')) =
     Inr (JBool True) \<and>
   fst (checkPermission ex_engine_logged ''u-obs'' ''comment'' ''memory'' (Some ''m1'')) =
     Inr (JBool True) \<and>
   fst (checkPermission ex_engine_logged ''u-obs'' ''write'' ''memory'' (Some ''m1'')) =
     Inr (JBool False) \<and>
   auditLogs (snd (checkPermission ex_engine_logged ''u-obs'' ''write'' ''memory'' (Some ''m1''))) =
     [\<lparr> a_id = ''id-'', a_userId = ''u-dev'', a_userName = ''Dan'',
        a_action = ''permission_check'', a_resourceType = ''memory'',
        a_resourceId = Some ''m1'', a_resourceName = Some ''m1'', a_timestamp = 1001,
        a_success = JBool True, a_errorMessage = None, a_metadata = None \<rparr>,
      \<lparr> a_id = ''id-xx'', a_userId = ''u-obs'', a_userName = ''Oz'',
        a_action = ''permission_check'', a_resourceType = ''memory'',
        a_resourceId = Some ''m1'', a_resourceName = Some ''m1'', a_timestamp = 1003,
        a_success = JBool False, a_errorMessage = None, a_metadata = None \<rparr>]"
proof -
  have r1: "tm_role ex_dev = ''developer''" by (simp add: ex_dev_def)
  have r2: "tm_role ex_obs = ''observer''" by (simp add: ex_obs_def)
  have nc: "mem_createdBy ex_m1 \<noteq> ''u-dev''" by (simp add: ex_m1_def)
  have vis: "mem_visibility ex_m1 = Some ''team_only''" by (simp add: ex_m1_def)
  have logs: "auditLogs ex_engine_logged =
     [\<lparr> a_id = ''id-'', a_userId = ''u-dev'', a_userName = ''Dan'',
        a_action = ''permission_check'', a_resourceType = ''memory'',
        a_resourceId = Some ''m1'', a_resourceName = Some ''m1'', a_timestamp = 1001,
        a_success = JBool True, a_errorMessage = None, a_metadata = None \<rparr>]"
    and world: "pworld ex_engine_logged = ex_world\<lparr>draws := 2\<rparr>"
    unfolding ex_engine_logged_eval by simp_all
  from developer_and_observer_on_team_only_memory[OF ex_logged_facts(1) ex_find_dev r1
         ex_find_obs r2 ex_logged_facts(2) ex_find_m1 nc vis ex_logged_facts(3)]
  show ?thesis
    by (simp add: logs world ex_world_def ex_obs_def eval_nat_numeral)
qed

subsection \<open>When the team store cannot be read\<close>

text \<open>
  Claim C10 says that \<open>checkPermission\<close> never lets an exception out. The \<open>catch\<close> block
  calls \<open>logAudit\<close>, which asks the team engine for its members again; when that query is
  what failed, the second failure leaves \<open>checkPermission\<close> as a rejected promise.
\<close>

theorem checkPermission_rejects_when_members_query_fails:
  "port_getTeamMembers (teamMemoryEngine s) = Inl err \<Longrightarrow>
   fst (checkPermission s userId action resourceType resourceId) = Inl err"
  by (simp add: checkPermission_rejects)

theorem checkPermission_rejects_when_members_query_fails_witness:
  "fst (checkPermission ex_engine_down ''u-dev'' ''write'' ''memory'' (Some ''m1'')) =
     Inl ''Database not initialized''"
  by (rule checkPermission_rejects_when_members_query_fails[OF ex_down_members])

text \<open>
  Claim C9 says that every permission check, error paths included, appends exactly one
  audit entry. On the path above the check ends without any entry.
\<close>

theorem failed_check_appends_no_audit_entry:
  "port_getTeamMembers (teamMemoryEngine s) = Inl err \<Longrightarrow>
   auditLogs (snd (checkPermission s userId action resourceType resourceId)) = auditLogs s"
  by (simp add: checkPermission_rejects)

theorem failed_check_appends_no_audit_entry_witness:
  "auditLogs (snd (checkPermission ex_engine_down ''u-dev'' ''write'' ''memory'' (Some ''m1''))) = []"
  using failed_check_appends_no_audit_entry[OF ex_down_members, of "''u-dev''" "''write''"
          "''memory''" "Some ''m1''"]
  by (simp add: ex_engine_down_def new_MemoryPermissionsEngine_def)

subsection \<open>Access requests\<close>

lemma checkApprovalStatus_world [simp]:
  "checkApprovalStatus (s\<lparr>pworld := w\<rparr>) u rt rid = checkApprovalStatus s u rt rid"
  by (simp add: checkApprovalStatus_def)

lemma same_decisions_world:
  "same_decisions s t \<Longrightarrow> same_decisions (s\<lparr>pworld := w\<rparr>) (t\<lparr>pworld := w\<rparr>)"
  by (simp add: same_decisions_def)

lemma sim_isInTimeWindow:
  assumes "same_decisions s t"
  shows "fst (isInTimeWindow s a b) = fst (isInTimeWindow t a b) \<and>
         same_decisions (snd (isInTimeWindow s a b)) (snd (isInTimeWindow t a b))"
  using assms by (simp add: isInTimeWindow_def new_Date_def same_decisions_def)

lemma sim_evaluateConditions:
  "same_decisions s t \<Longrightarrow>
   fst (evaluateConditions s cs u rt rid) = fst (evaluateConditions t cs u rt rid) \<and>
   same_decisions (snd (evaluateConditions s cs u rt rid)) (snd (evaluateConditions t cs u rt rid))"
proof (induction cs arbitrary: s t)
  case Nil
  then show ?case by simp
next
  case (Cons c cs)
  show ?case
  proof (cases c)
    case (TimeWindow a b)
    obtain i s' where es: "isInTimeWindow s a b = (i, s')" by (cases "isInTimeWindow s a b")
    obtain j t' where et: "isInTimeWindow t a b = (j, t')" by (cases "isInTimeWindow t a b")
    from sim_isInTimeWindow[OF Cons.prems, of a b] es et
    have ij: "i = j" and st: "same_decisions s' t'" by simp_all
    show ?thesis
      using Cons.IH[OF st] st by (simp add: TimeWindow es et ij)
  next
    case (MemoryType v)
    have port: "teamMemoryEngine s = teamMemoryEngine t"
      using Cons.prems by (simp add: same_decisions_def)
    note ih = Cons.IH[OF Cons.prems]
    show ?thesis
    proof (cases "rt = ''memory'' \<and> truthy rid")
      case False
      then have "evaluateConditions s (c # cs) u rt rid = evaluateConditions s cs u rt rid"
                "evaluateConditions t (c # cs) u rt rid = evaluateConditions t cs u rt rid"
        by (auto simp: MemoryType)
      then show ?thesis using ih by simp
    next
      case True
      show ?thesis
      proof (cases "port_getTeamMemories (teamMemoryEngine t)")
        case (Inl err)
        then show ?thesis using True Cons.prems by (simp add: MemoryType port)
      next
        case (Inr memories)
        show ?thesis
        proof (cases "find (\<lambda>m. mem_id m = or_empty rid) memories")
          case None
          then have "evaluateConditions s (c # cs) u rt rid = evaluateConditions s cs u rt rid"
                    "evaluateConditions t (c # cs) u rt rid = evaluateConditions t cs u rt rid"
            using True Inr by (simp_all add: MemoryType port)
          then show ?thesis using ih by simp
        next
          case (Some memory)
          show ?thesis
          proof (cases "mem_type memory \<noteq> v")
            case True
            then show ?thesis
              using \<open>rt = ''memory'' \<and> truthy rid\<close> Inr Some Cons.prems
              by (simp add: MemoryType port)
          next
            case False
            then have "evaluateConditions s (c # cs) u rt rid = evaluateConditions s cs u rt rid"
                      "evaluateConditions t (c # cs) u rt rid = evaluateConditions t cs u rt rid"
              using \<open>rt = ''memory'' \<and> truthy rid\<close> Inr Some by (simp_all add: MemoryType port)
            then show ?thesis using ih by simp
          qed
        qed
      qed
    qed
  next
    case ApprovalRequired
    have ap: "checkApprovalStatus s u rt rid = checkApprovalStatus t u rt rid"
      using Cons.prems by (simp add: same_decisions_def)
    show ?thesis
      using Cons.IH[OF Cons.prems] Cons.prems by (simp add: ApprovalRequired ap)
  next
    case (OtherCondition x)
    show ?thesis using Cons.IH[OF Cons.prems] by (simp add: OtherCondition)
  qed
qed

lemma sim_explicit_loop:
  "same_decisions s t \<Longrightarrow>
   fst (explicit_loop s rules u a rt rid) = fst (explicit_loop t rules u a rt rid) \<and>
   same_decisions (snd (explicit_loop s rules u a rt rid)) (snd (explicit_loop t rules u a rt rid))"
proof (induction rules arbitrary: s t)
  case Nil
  then show ?case by simp
next
  case (Cons rule rules)
  show ?case
  proof (cases "find (\<lambda>p. p_action p = a) (r_permissions rule)")
    case None
    then show ?thesis using Cons.IH[OF Cons.prems] by simp
  next
    case (Some permission)
    show ?thesis
    proof (cases "r_conditions rule")
      case None
      with Some Cons.prems show ?thesis by simp
    next
      case (Some cs0)
      note cs0 = this
      show ?thesis
      proof (cases cs0)
        case Nil
        with cs0 \<open>find _ _ = Some permission\<close> Cons.prems show ?thesis by simp
      next
        case (Cons c cs)
        obtain r s' where es: "evaluateConditions s (c # cs) u rt rid = (r, s')"
          by (cases "evaluateConditions s (c # cs) u rt rid")
        obtain r' t' where et: "evaluateConditions t (c # cs) u rt rid = (r', t')"
          by (cases "evaluateConditions t (c # cs) u rt rid")
        from sim_evaluateConditions[OF Cons.prems, of "c # cs" u rt rid] es et
        have rr: "r = r'" and st: "same_decisions s' t'" by simp_all
        show ?thesis
        proof (cases r)
          case (Inl err)
          then have r': "r' = Inl err" using rr by simp
          show ?thesis
            using st by (simp add: \<open>find _ _ = Some permission\<close> cs0 Cons es et Inl r')
        next
          case (Inr met)
          then have r': "r' = Inr met" using rr by simp
          show ?thesis
            using Cons.IH[OF st] st
            by (cases met) (simp_all add: \<open>find _ _ = Some permission\<close> cs0 Cons es et Inr r')
        qed
      qed
    qed
  qed
qed

lemma checkMemoryPermissions_port:
  "teamMemoryEngine s = teamMemoryEngine t \<Longrightarrow>
   checkMemoryPermissions s u a m = checkMemoryPermissions t u a m"
  by (simp add: checkMemoryPermissions_def)

lemma sim_checkExplicit:
  "same_decisions s t \<Longrightarrow>
   fst (checkExplicitPermissions s u a rt rid) = fst (checkExplicitPermissions t u a rt rid) \<and>
   same_decisions (snd (checkExplicitPermissions s u a rt rid))
                  (snd (checkExplicitPermissions t u a rt rid))"
proof -
  assume st: "same_decisions s t"
  then have rules: "permissionRules s = permissionRules t" by (simp add: same_decisions_def)
  show ?thesis
    unfolding checkExplicitPermissions_def rules by (rule sim_explicit_loop[OF st])
qed

lemma sim_checkPermission_try:
  assumes st: "same_decisions s t"
  shows "fst (checkPermission_try s u a rt rid) = fst (checkPermission_try t u a rt rid)"
proof -
  have port: "teamMemoryEngine s = teamMemoryEngine t"
    using st by (simp add: same_decisions_def)
  obtain r s1 where es: "checkExplicitPermissions s u a rt rid = (r, s1)"
    by (cases "checkExplicitPermissions s u a rt rid")
  obtain r' t1 where et: "checkExplicitPermissions t u a rt rid = (r', t1)"
    by (cases "checkExplicitPermissions t u a rt rid")
  from sim_checkExplicit[OF st, of u a rt rid] es et
  have rr: "r' = r" and st1: "same_decisions s1 t1" by simp_all
  have port1: "teamMemoryEngine s1 = teamMemoryEngine t1"
    using st1 by (simp add: same_decisions_def)
  have mp: "checkMemoryPermissions s1 u a m = checkMemoryPermissions t1 u a m" for m
    by (rule checkMemoryPermissions_port[OF port1])
  show ?thesis
    unfolding checkPermission_try_def es et rr port
    by (auto simp: fst_log_return_port port port1 mp Let_def
             split: sum.splits option.splits)
qed

lemma sim_checkPermission:
  assumes st: "same_decisions s t"
  shows "fst (checkPermission s u a rt rid) = fst (checkPermission t u a rt rid)"
proof -
  have port: "teamMemoryEngine s = teamMemoryEngine t"
    using st by (simp add: same_decisions_def)
  show ?thesis
    unfolding fst_checkPermission_via_try sim_checkPermission_try[OF st] port ..
qed

lemma approve_unknown:
  "map_of (accessRequests s) rid = None \<Longrightarrow> approveAccessRequest s rid ap nm = (Inr False, s)"
  by (simp add: approveAccessRequest_def)

lemma deny_unknown:
  "map_of (accessRequests s) rid = None \<Longrightarrow> denyAccessRequest s rid dn rs = (Inr False, s)"
  by (simp add: denyAccessRequest_def)

lemma approve_not_pending:
  "map_of (accessRequests s) rid = Some request \<Longrightarrow> q_status request \<noteq> ''pending'' \<Longrightarrow>
   approveAccessRequest s rid ap nm = (Inr False, s)"
  by (simp add: approveAccessRequest_def)

lemma deny_not_pending:
  "map_of (accessRequests s) rid = Some request \<Longrightarrow> q_status request \<noteq> ''pending'' \<Longrightarrow>
   denyAccessRequest s rid dn rs = (Inr False, s)"
  by (simp add: denyAccessRequest_def)

lemma approve_pending:
  assumes req: "map_of (accessRequests s) rid = Some request"
      and pend: "q_status request = ''pending''"
      and members: "port_getTeamMembers (teamMemoryEngine s) = Inr ms"
  shows "fst (approveAccessRequest s rid ap nm) = Inr True"
    and "accessRequests (snd (approveAccessRequest s rid ap nm)) =
           AList.update rid (approved_request request (clock (pworld s) (draws (pworld s))) ap)
             (accessRequests s)"
    and "permissionRules (snd (approveAccessRequest s rid ap nm)) =
           AList.update (uuids (pworld s) (Suc (Suc (Suc (draws (pworld s))))))
             (materialized_rule request ap (uuids (pworld s) (Suc (Suc (Suc (draws (pworld s))))))
                (clock (pworld s) (Suc (Suc (Suc (Suc (draws (pworld s))))))))
             (permissionRules s)"
    and "teamMemoryEngine (snd (approveAccessRequest s rid ap nm)) = teamMemoryEngine s"
  using req pend members
  by (simp_all add: approveAccessRequest_def new_Date_def uuidv4_def Let_def
        logAudit_resolves[where ms = ms] log_return_resolves[where ms = ms]
        createPermissionRule_def after_log_def approved_request_def materialized_rule_def)

lemma deny_pending:
  assumes req: "map_of (accessRequests s) rid = Some request"
      and pend: "q_status request = ''pending''"
      and members: "port_getTeamMembers (teamMemoryEngine s) = Inr ms"
  shows "fst (denyAccessRequest s rid dn rs) = Inr True"
    and "accessRequests (snd (denyAccessRequest s rid dn rs)) =
           AList.update rid (denied_request request rs) (accessRequests s)"
    and "permissionRules (snd (denyAccessRequest s rid dn rs)) = permissionRules s"
    and "teamMemoryEngine (snd (denyAccessRequest s rid dn rs)) = teamMemoryEngine s"
  using req pend members
  by (simp_all add: denyAccessRequest_def Let_def log_return_resolves[where ms = ms]
        denied_request_def)

lemma map_of_update_same: "map_of (AList.update k v al) k = Some v"
  by (simp add: AList.update_conv')

lemma update_values_subset:
  "set (map snd (AList.update k v al)) \<subseteq> insert v (set (map snd al))"
  by (induction al) auto

lemma update_value_present: "v \<in> set (map snd (AList.update k v al))"
  by (induction al) auto

lemma find_update_irrelevant:
  "map_of al k = Some v \<Longrightarrow> \<not> P v \<Longrightarrow> \<not> P v' \<Longrightarrow>
   find P (map snd (AList.update k v' al)) = find P (map snd al)"
  by (induction al) (auto split: if_splits)

text \<open>Both transitions are terminal.\<close>

lemma approved_is_terminal:
  assumes req: "map_of (accessRequests s) rid = Some request"
      and pend: "q_status request = ''pending''"
      and members: "port_getTeamMembers (teamMemoryEngine s) = Inr ms"
  shows "approveAccessRequest (snd (approveAccessRequest s rid ap nm)) rid ap2 nm2 =
           (Inr False, snd (approveAccessRequest s rid ap nm))"
    and "denyAccessRequest (snd (approveAccessRequest s rid ap nm)) rid dn2 rs2 =
           (Inr False, snd (approveAccessRequest s rid ap nm))"
proof -
  have m: "map_of (accessRequests (snd (approveAccessRequest s rid ap nm))) rid =
             Some (approved_request request (clock (pworld s) (draws (pworld s))) ap)"
    by (simp add: approve_pending(2)[OF req pend members] map_of_update_same)
  have st: "q_status (approved_request request (clock (pworld s) (draws (pworld s))) ap) \<noteq> ''pending''"
    by (simp add: approved_request_def)
  show "approveAccessRequest (snd (approveAccessRequest s rid ap nm)) rid ap2 nm2 =
           (Inr False, snd (approveAccessRequest s rid ap nm))"
    by (rule approve_not_pending[OF m st])
  show "denyAccessRequest (snd (approveAccessRequest s rid ap nm)) rid dn2 rs2 =
           (Inr False, snd (approveAccessRequest s rid ap nm))"
    by (rule deny_not_pending[OF m st])
qed

lemma denied_is_terminal:
  assumes req: "map_of (accessRequests s) rid = Some request"
      and pend: "q_status request = ''pending''"
      and members: "port_getTeamMembers (teamMemoryEngine s) = Inr ms"
  shows "approveAccessRequest (snd (denyAccessRequest s rid dn rs)) rid ap2 nm2 =
           (Inr False, snd (denyAccessRequest s rid dn rs))"
    and "denyAccessRequest (snd (denyAccessRequest s rid dn rs)) rid dn2 rs2 =
           (Inr False, snd (denyAccessRequest s rid dn rs))"
proof -
  have m: "map_of (accessRequests (snd (denyAccessRequest s rid dn rs))) rid =
             Some (denied_request request rs)"
    by (simp add: deny_pending(2)[OF req pend members] map_of_update_same)
  have st: "q_status (denied_request request rs) \<noteq> ''pending''"
    by (simp add: denied_request_def)
  show "approveAccessRequest (snd (denyAccessRequest s rid dn rs)) rid ap2 nm2 =
           (Inr False, snd (denyAccessRequest s rid dn rs))"
    by (rule approve_not_pending[OF m st])
  show "denyAccessRequest (snd (denyAccessRequest s rid dn rs)) rid dn2 rs2 =
           (Inr False, snd (denyAccessRequest s rid dn rs))"
    by (rule deny_not_pending[OF m st])
qed

text \<open>The first applicable rule that lists the action decides.\<close>

lemma explicit_loop_decides:
  assumes "new \<in> set rules"
      and "find (\<lambda>p. p_action p = a) (r_permissions new) = Some perm"
      and "r_conditions new = None"
      and "\<forall>r \<in> set rules. r \<noteq> new \<longrightarrow> find (\<lambda>p. p_action p = a) (r_permissions r) = None"
  shows "explicit_loop s rules u a rt rid = (Inr (Some (p_granted perm)), s)"
  using assms
proof (induction rules)
  case Nil
  then show ?case by simp
next
  case (Cons r rules)
  show ?case
  proof (cases "r = new")
    case True
    with Cons.prems show ?thesis by simp
  next
    case False
    with Cons.prems have "find (\<lambda>p. p_action p = a) (r_permissions r) = None" "new \<in> set rules"
      by auto
    with Cons show ?thesis by simp
  qed
qed

lemma approval_grants:
  assumes req: "map_of (accessRequests s) rid = Some request"
      and pend: "q_status request = ''pending''"
      and members: "port_getTeamMembers (teamMemoryEngine s) = Inr ms"
      and requester: "find (\<lambda>m. tm_id m = q_requesterId request) ms = Some user"
      and asked: "find (\<lambda>p. p_action p = action) (q_requestedPermissions request) = Some perm"
      and others: "\<forall>r \<in> set (map snd (permissionRules s)).
                     rule_applies (q_requesterId request) (q_resourceType request)
                       (q_resourceId request) r \<longrightarrow>
                     find (\<lambda>p. p_action p = action) (r_permissions r) = None"
  shows "fst (checkPermission (snd (approveAccessRequest s rid ap nm)) (q_requesterId request)
                action (q_resourceType request) (q_resourceId request)) =
           Inr (JBool (p_granted perm))"
proof -
  define sa where "sa = snd (approveAccessRequest s rid ap nm)"
  define new where "new = materialized_rule request ap (uuids (pworld s) (Suc (Suc (Suc (draws (pworld s))))))
                (clock (pworld s) (Suc (Suc (Suc (Suc (draws (pworld s)))))))"
  define rules where "rules = filter (rule_applies (q_requesterId request) (q_resourceType request)
                       (q_resourceId request)) (map snd (permissionRules sa))"
  have pr: "permissionRules sa =
      AList.update (uuids (pworld s) (Suc (Suc (Suc (draws (pworld s)))))) new (permissionRules s)"
    unfolding sa_def new_def by (rule approve_pending(3)[OF req pend members])
  have port: "teamMemoryEngine sa = teamMemoryEngine s"
    unfolding sa_def by (rule approve_pending(4)[OF req pend members])
  have msa: "port_getTeamMembers (teamMemoryEngine sa) = Inr ms" using members port by simp
  have applies: "rule_applies (q_requesterId request) (q_resourceType request)
                       (q_resourceId request) new"
    by (simp add: rule_applies_def new_def materialized_rule_def)
  have in_rules: "new \<in> set rules"
    unfolding rules_def pr using update_value_present[of new] applies by simp
  have f: "find (\<lambda>p. p_action p = action) (r_permissions new) = Some perm"
    using asked by (simp add: new_def materialized_rule_def)
  have c: "r_conditions new = None" by (simp add: new_def materialized_rule_def)
  have rest: "\<forall>r \<in> set rules. r \<noteq> new \<longrightarrow> find (\<lambda>p. p_action p = action) (r_permissions r) = None"
  proof (intro ballI impI)
    fix r assume r: "r \<in> set rules" and ne: "r \<noteq> new"
    from r have a: "rule_applies (q_requesterId request) (q_resourceType request)
                       (q_resourceId request) r"
      and m: "r \<in> set (map snd (permissionRules sa))"
      by (simp_all add: rules_def)
    from m ne have "r \<in> set (map snd (permissionRules s))"
      using update_values_subset[of "uuids (pworld s) (Suc (Suc (Suc (draws (pworld s)))))" new
              "permissionRules s"] unfolding pr by auto
    with others a show "find (\<lambda>p. p_action p = action) (r_permissions r) = None" by blast
  qed
  have ex: "checkExplicitPermissions sa (q_requesterId request) action (q_resourceType request)
              (q_resourceId request) = (Inr (Some (p_granted perm)), sa)"
    unfolding checkExplicitPermissions_def rules_def[symmetric]
    by (rule explicit_loop_decides[OF in_rules f c rest])
  have "fst (checkPermission_try sa (q_requesterId request) action (q_resourceType request)
              (q_resourceId request)) = Inr (JBool (p_granted perm))"
    using msa requester
    by (simp add: checkPermission_try_def ex fst_log_return[OF msa])
  then show ?thesis
    unfolding sa_def[symmetric] by (simp add: fst_checkPermission_via_try)
qed

lemma denial_changes_no_decision:
  assumes req: "map_of (accessRequests s) rid = Some request"
      and pend: "q_status request = ''pending''"
      and members: "port_getTeamMembers (teamMemoryEngine s) = Inr ms"
  shows "fst (checkPermission ((snd (denyAccessRequest s rid dn rs))\<lparr>pworld := w\<rparr>) u a rt res) =
         fst (checkPermission (s\<lparr>pworld := w\<rparr>) u a rt res)"
proof -
  define sd where "sd = snd (denyAccessRequest s rid dn rs)"
  have rules: "permissionRules sd = permissionRules s"
    unfolding sd_def by (rule deny_pending(3)[OF req pend members])
  have port: "teamMemoryEngine sd = teamMemoryEngine s"
    unfolding sd_def by (rule deny_pending(4)[OF req pend members])
  have reqs: "accessRequests sd = AList.update rid (denied_request request rs) (accessRequests s)"
    unfolding sd_def by (rule deny_pending(2)[OF req pend members])
  have appr: "checkApprovalStatus sd u' rt' res' = checkApprovalStatus s u' rt' res'" for u' rt' res'
    unfolding checkApprovalStatus_def reqs
    by (subst find_update_irrelevant[OF req]) (simp_all add: pend denied_request_def)
  have "same_decisions (sd\<lparr>pworld := w\<rparr>) (s\<lparr>pworld := w\<rparr>)"
    by (simp add: same_decisions_def rules port appr)
  then show ?thesis unfolding sd_def[symmetric] by (rule sim_checkPermission)
qed

lemma createAccessRequest_resolves:
  assumes members: "port_getTeamMembers (teamMemoryEngine s) = Inr ms"
  shows "fst (createAccessRequest s request) = Inr (uuids (pworld s) (draws (pworld s)))"
    and "accessRequests (snd (createAccessRequest s request)) =
           AList.update (uuids (pworld s) (draws (pworld s)))
             (request\<lparr>q_id := uuids (pworld s) (draws (pworld s)),
                      q_createdAt := clock (pworld s) (Suc (draws (pworld s))),
                      q_status := ''pending''\<rparr>) (accessRequests s)"
    and "permissionRules (snd (createAccessRequest s request)) = permissionRules s"
    and "teamMemoryEngine (snd (createAccessRequest s request)) = teamMemoryEngine s"
  using members
  by (simp_all add: createAccessRequest_def uuidv4_def new_Date_def Let_def
        log_return_resolves[where ms = ms])

text \<open>
  Claim C5, as the code has it. For a request of a team member, with the team store
  readable: approval and denial return \<open>false\<close> and change nothing unless the request is
  \<open>pending\<close>; from \<open>pending\<close> both succeed, and after either one every further approval or
  denial of the request returns \<open>false\<close>. After approval the requester's check of a requested
  action that was asked with \<open>granted\<close> true returns \<open>true\<close>, provided no rule that already
  applied to the requester and the resource lists that action (the new rule comes last,
  and the first rule that lists the action decides). Denial creates no rule and leaves
  every permission check as it was before the request was denied.
\<close>

theorem access_request_lifecycle:
  assumes members: "port_getTeamMembers (teamMemoryEngine s) = Inr members"
      and requester: "find (\<lambda>m. tm_id m = q_requesterId request) members = Some user"
      and req: "map_of (accessRequests s) requestId = Some request"
  shows "(q_status request \<noteq> ''pending'' \<longrightarrow>
            approveAccessRequest s requestId approverId approverName = (Inr False, s) \<and>
            denyAccessRequest s requestId denierId reason = (Inr False, s)) \<and>
         (q_status request = ''pending'' \<longrightarrow>
            fst (approveAccessRequest s requestId approverId approverName) = Inr True \<and>
            fst (denyAccessRequest s requestId denierId reason) = Inr True \<and>
            approveAccessRequest (snd (approveAccessRequest s requestId approverId approverName))
                requestId approverId' approverName' =
              (Inr False, snd (approveAccessRequest s requestId approverId approverName)) \<and>
            denyAccessRequest (snd (approveAccessRequest s requestId approverId approverName))
                requestId denierId' reason' =
              (Inr False, snd (approveAccessRequest s requestId approverId approverName)) \<and>
            approveAccessRequest (snd (denyAccessRequest s requestId denierId reason))
                requestId approverId' approverName' =
              (Inr False, snd (denyAccessRequest s requestId denierId reason)) \<and>
            denyAccessRequest (snd (denyAccessRequest s requestId denierId reason))
                requestId denierId' reason' =
              (Inr False, snd (denyAccessRequest s requestId denierId reason)) \<and>
            (find (\<lambda>p. p_action p = action) (q_requestedPermissions request) = Some perm \<and>
             p_granted perm \<and>
             (\<forall>r \<in> set (map snd (permissionRules s)).
                rule_applies (q_requesterId request) (q_resourceType request)
                  (q_resourceId request) r \<longrightarrow>
                find (\<lambda>p. p_action p = action) (r_permissions r) = None) \<longrightarrow>
             fst (checkPermission (snd (approveAccessRequest s requestId approverId approverName))
                    (q_requesterId request) action (q_resourceType request)
                    (q_resourceId request)) = Inr (JBool True)) \<and>
            permissionRules (snd (denyAccessRequest s requestId denierId reason)) =
              permissionRules s \<and>
            fst (checkPermission ((snd (denyAccessRequest s requestId denierId reason))\<lparr>pworld := w\<rparr>)
                   userId action' resourceType resourceId) =
            fst (checkPermission (s\<lparr>pworld := w\<rparr>) userId action' resourceType resourceId))"
proof (intro conjI impI)
  assume np: "q_status request \<noteq> ''pending''"
  show "approveAccessRequest s requestId approverId approverName = (Inr False, s)"
    by (rule approve_not_pending[OF req np])
  show "denyAccessRequest s requestId denierId reason = (Inr False, s)"
    by (rule deny_not_pending[OF req np])
next
  assume p: "q_status request = ''pending''"
  show "fst (approveAccessRequest s requestId approverId approverName) = Inr True"
    by (rule approve_pending(1)[OF req p members])
  show "fst (denyAccessRequest s requestId denierId reason) = Inr True"
    by (rule deny_pending(1)[OF req p members])
  show "approveAccessRequest (snd (approveAccessRequest s requestId approverId approverName))
                requestId approverId' approverName' =
              (Inr False, snd (approveAccessRequest s requestId approverId approverName))"
    by (rule approved_is_terminal(1)[OF req p members])
  show "denyAccessRequest (snd (approveAccessRequest s requestId approverId approverName))
                requestId denierId' reason' =
              (Inr False, snd (approveAccessRequest s requestId approverId approverName))"
    by (rule approved_is_terminal(2)[OF req p members])
  show "approveAccessRequest (snd (denyAccessRequest s requestId denierId reason))
                requestId approverId' approverName' =
              (Inr False, snd (denyAccessRequest s requestId denierId reason))"
    by (rule denied_is_terminal(1)[OF req p members])
  show "denyAccessRequest (snd (denyAccessRequest s requestId denierId reason))
                requestId denierId' reason' =
              (Inr False, snd (denyAccessRequest s requestId denierId reason))"
    by (rule denied_is_terminal(2)[OF req p members])
  show "permissionRules (snd (denyAccessRequest s requestId denierId reason)) = permissionRules s"
    by (rule deny_pending(3)[OF req p members])
  show "fst (checkPermission ((snd (denyAccessRequest s requestId denierId reason))\<lparr>pworld := w\<rparr>)
                   userId action' resourceType resourceId) =
        fst (checkPermission (s\<lparr>pworld := w\<rparr>) userId action' resourceType resourceId)"
    by (rule denial_changes_no_decision[OF req p members])
next
  assume p: "q_status request = ''pending''"
     and h: "find (\<lambda>p. p_action p = action) (q_requestedPermissions request) = Some perm \<and>
             p_granted perm \<and>
             (\<forall>r \<in> set (map snd (permissionRules s)).
                rule_applies (q_requesterId request) (q_resourceType request)
                  (q_resourceId request) r \<longrightarrow>
                find (\<lambda>p. p_action p = action) (r_permissions r) = None)"
  from h have asked: "find (\<lambda>p. p_action p = action) (q_requestedPermissions request) = Some perm"
    and g: "p_granted perm"
    and others: "\<forall>r \<in> set (map snd (permissionRules s)).
                rule_applies (q_requesterId request) (q_resourceType request)
                  (q_resourceId request) r \<longrightarrow>
                find (\<lambda>p. p_action p = action) (r_permissions r) = None"
    by simp_all
  show "fst (checkPermission (snd (approveAccessRequest s requestId approverId approverName))
                    (q_requesterId request) action (q_resourceType request)
                    (q_resourceId request)) = Inr (JBool True)"
    using approval_grants[OF req p members requester asked others, of approverId approverName] g
    by simp
qed

lemma ex_pending_read_facts:
  "fst (createAccessRequest ex_engine ex_request_read) = Inr ''id-''"
  "map_of (accessRequests ex_pending_read) ''id-'' =
     Some (ex_request_read\<lparr>q_id := ''id-'', q_createdAt := 1001, q_status := ''pending''\<rparr>)"
  "permissionRules ex_pending_read = []"
  "port_getTeamMembers (teamMemoryEngine ex_pending_read) = Inr [ex_admin, ex_dev, ex_obs, ex_lead]"
  "port_getTeamMemories (teamMemoryEngine ex_pending_read) = Inr [ex_m1]"
  unfolding ex_pending_read_def
  by (simp_all add: createAccessRequest_resolves[OF ex_port_members] ex_port_members
        ex_port_memories ex_no_rules)
     (simp_all add: ex_engine_def new_MemoryPermissionsEngine_def ex_world_def)

lemma ex_pending_write_facts:
  "fst (createAccessRequest ex_engine ex_request_write) = Inr ''id-''"
  "map_of (accessRequests ex_pending_write) ''id-'' =
     Some (ex_request_write\<lparr>q_id := ''id-'', q_createdAt := 1001, q_status := ''pending''\<rparr>)"
  "permissionRules ex_pending_write = []"
  "port_getTeamMembers (teamMemoryEngine ex_pending_write) = Inr [ex_admin, ex_dev, ex_obs, ex_lead]"
  "port_getTeamMemories (teamMemoryEngine ex_pending_write) = Inr [ex_m1]"
  unfolding ex_pending_write_def
  by (simp_all add: createAccessRequest_resolves[OF ex_port_members] ex_port_members
        ex_port_memories ex_no_rules)
     (simp_all add: ex_engine_def new_MemoryPermissionsEngine_def ex_world_def)

text \<open>
  Claim C5 as stated fails after a denial: the developer asks for \<open>read\<close> on the
  \<open>team_only\<close> memory \<open>m1\<close>, the request is denied, and the check still returns \<open>true\<close>,
  as the role default and the visibility allow the read.
\<close>

theorem denied_request_leaves_read_allowed:
  "fst (createAccessRequest ex_engine ex_request_read) = Inr ''id-'' \<and>
   fst (denyAccessRequest ex_pending_read ''id-'' ''u-admin'' ''not needed'') = Inr True \<and>
   fst (checkPermission (snd (denyAccessRequest ex_pending_read ''id-'' ''u-admin'' ''not needed''))
          ''u-dev'' ''read'' ''memory'' (Some ''m1'')) = Inr (JBool True)"
proof -
  define sd where "sd = snd (denyAccessRequest ex_pending_read ''id-'' ''u-admin'' ''not needed'')"
  have p: "q_status (ex_request_read\<lparr>q_id := ''id-'', q_createdAt := 1001, q_status := ''pending''\<rparr>)
             = ''pending''" by simp
  note d = deny_pending[OF ex_pending_read_facts(2) p ex_pending_read_facts(4),
             of "''u-admin''" "''not needed''"]
  have rules: "permissionRules sd = []" unfolding sd_def using d(3) ex_pending_read_facts(3) by simp
  have port: "teamMemoryEngine sd = teamMemoryEngine ex_pending_read" unfolding sd_def by (rule d(4))
  have ms: "port_getTeamMembers (teamMemoryEngine sd) = Inr [ex_admin, ex_dev, ex_obs, ex_lead]"
    using port ex_pending_read_facts(4) by simp
  have mems: "port_getTeamMemories (teamMemoryEngine sd) = Inr [ex_m1]"
    using port ex_pending_read_facts(5) by simp
  have mp: "checkMemoryPermissions sd ''u-dev'' ''read'' ''m1'' = Inr True"
    by (rule checkMemoryPermissions_team_only[OF mems ex_find_m1]) (simp add: ex_m1_def)
  have role: "checkRolePermissions (tm_role ex_dev) ''read'' = Inr (JBool True)"
    by (simp add: ex_dev_def role_table)
  have "fst (checkPermission sd ''u-dev'' ''read'' ''memory'' (Some ''m1'')) = Inr (JBool True)"
    unfolding checkPermission_implicit_memory[OF ms ex_find_dev rules mp role]
    by (simp add: fst_log_return[OF ms])
  then show ?thesis
    unfolding sd_def using d(1) ex_pending_read_facts(1) by simp
qed

theorem access_request_lifecycle_witness:
  "fst (approveAccessRequest ex_pending_write ''id-'' ''u-admin'' ''Ada'') = Inr True \<and>
   fst (checkPermission (snd (approveAccessRequest ex_pending_write ''id-'' ''u-admin'' ''Ada''))
          ''u-obs'' ''write'' ''memory'' (Some ''m1'')) = Inr (JBool True) \<and>
   approveAccessRequest (snd (approveAccessRequest ex_pending_write ''id-'' ''u-admin'' ''Ada''))
       ''id-'' ''u-admin'' ''Ada'' =
     (Inr False, snd (approveAccessRequest ex_pending_write ''id-'' ''u-admin'' ''Ada'')) \<and>
   fst (denyAccessRequest ex_pending_write ''id-'' ''u-admin'' ''no'') = Inr True \<and>
   fst (checkPermission (snd (denyAccessRequest ex_pending_write ''id-'' ''u-admin'' ''no''))
          ''u-obs'' ''write'' ''memory'' (Some ''m1'')) = Inr (JBool False)"
proof -
  define request where
    "request = ex_request_write\<lparr>q_id := ''id-'', q_createdAt := 1001, q_status := ''pending''\<rparr>"
  define sd where "sd = snd (denyAccessRequest ex_pending_write ''id-'' ''u-admin'' ''no'')"
  have req: "map_of (accessRequests ex_pending_write) ''id-'' = Some request"
    unfolding request_def by (rule ex_pending_write_facts(2))
  have who: "find (\<lambda>m. tm_id m = q_requesterId request) [ex_admin, ex_dev, ex_obs, ex_lead] = Some ex_obs"
    using ex_find_obs by (simp add: request_def ex_request_write_def)
  have p: "q_status request = ''pending''" by (simp add: request_def)
  have asked: "find (\<lambda>p. p_action p = ''write'') (q_requestedPermissions request) =
                 Some \<lparr> p_action = ''write'', p_granted = True \<rparr>"
    by (simp add: request_def ex_request_write_def)
  have none: "\<forall>r \<in> set (map snd (permissionRules ex_pending_write)).
                rule_applies (q_requesterId request) (q_resourceType request)
                  (q_resourceId request) r \<longrightarrow>
                find (\<lambda>p. p_action p = ''write'') (r_permissions r) = None"
    by (simp add: ex_pending_write_facts(3))
  note t = access_request_lifecycle[OF ex_pending_write_facts(4) who req,
             of "''u-admin''" "''Ada''" "''u-admin''" "''no''" "''u-admin''" "''Ada''"
                "''u-admin''" "''no''" "''write''" "\<lparr> p_action = ''write'', p_granted = True \<rparr>"
                "pworld sd" "''u-obs''" "''write''" "''memory''" "Some ''m1''"]
  have before: "fst (checkPermission (ex_pending_write\<lparr>pworld := pworld sd\<rparr>) ''u-obs'' ''write''
                  ''memory'' (Some ''m1'')) = Inr (JBool False)"
  proof -
    have ms: "port_getTeamMembers (teamMemoryEngine (ex_pending_write\<lparr>pworld := pworld sd\<rparr>)) =
                Inr [ex_admin, ex_dev, ex_obs, ex_lead]"
      using ex_pending_write_facts(4) by simp
    have mems: "port_getTeamMemories (teamMemoryEngine (ex_pending_write\<lparr>pworld := pworld sd\<rparr>)) =
                Inr [ex_m1]"
      using ex_pending_write_facts(5) by simp
    have rules: "permissionRules (ex_pending_write\<lparr>pworld := pworld sd\<rparr>) = []"
      using ex_pending_write_facts(3) by simp
    have mp: "checkMemoryPermissions (ex_pending_write\<lparr>pworld := pworld sd\<rparr>) ''u-obs'' ''write''
                ''m1'' = Inr True"
      by (rule checkMemoryPermissions_team_only[OF mems ex_find_m1]) (simp add: ex_m1_def)
    have role: "checkRolePermissions (tm_role ex_obs) ''write'' = Inr (JBool False)"
      by (simp add: ex_obs_def role_table)
    show ?thesis
      unfolding checkPermission_implicit_memory[OF ms ex_find_obs rules mp role]
      by (simp add: fst_log_return[OF ms])
  qed
  have same: "sd\<lparr>pworld := pworld sd\<rparr> = sd" by simp
  from t p asked none before show ?thesis
    unfolding sd_def[symmetric] same
    by (simp add: request_def ex_request_write_def)
qed

section \<open>Properties of the project memory\<close>

subsection \<open>Clearing and simple inserts\<close>

lemma ex_project_id: "generateProjectId ex_memory = ''0123456789abcdef''"
  by (simp add: generateProjectId_def ex_memory_def)

lemma runQuery_uninitialized:
  "db e = None \<Longrightarrow> runQuery e stmt = (Inl ''Database not initialized'', e)"
  by (simp add: runQuery_def)

lemma delete_messages_fails:
  "delete_where_project_id ''messages'' pid d now = Inl ''SQLITE_ERROR: no such column: project_id''"
  by (simp add: delete_where_project_id_def table_columns_def)

text \<open>
  Claim C6 says that \<open>clearAllMemory\<close> empties the project's rows and never errors.
  Its first statement is \<open>DELETE FROM messages WHERE project_id = ?\<close>, and the table
  \<open>messages\<close> has no column \<open>project_id\<close>: on an initialized engine the call rejects at
  once and the store is left as it was.
\<close>

theorem clearAllMemory_fails_on_messages:
  "db e = Some d \<Longrightarrow>
   fst (clearAllMemory e) = Inl ''SQLITE_ERROR: no such column: project_id'' \<and>
   db (snd (clearAllMemory e)) = Some d"
  by (simp add: clearAllMemory_def runQuery_def new_Date_def delete_messages_fails)

theorem clearAllMemory_fails_on_messages_witness:
  "fst (clearAllMemory ex_memory) = Inl ''SQLITE_ERROR: no such column: project_id'' \<and>
   db (snd (clearAllMemory ex_memory)) = Some ex_db \<and>
   map ms_content (messages ex_db) = [''hello'']"
  using clearAllMemory_fails_on_messages[of ex_memory ex_db]
  by (simp add: ex_memory_def ex_db_def)

lemma clearAllMemory_never_resolves: "fst (clearAllMemory e) \<noteq> Inr ()"
  by (cases "db e")
     (simp_all add: clearAllMemory_def runQuery_def new_Date_def delete_messages_fails)

text \<open>trackFileChange and recordArchitecturalDecision\<close>

lemma trackFileChange_effect:
  assumes "db e = Some d"
      and "fst (trackFileChange e filePath changeType conversationId) = Inr ()"
  shows "db (snd (trackFileChange e filePath changeType conversationId)) =
           Some (d\<lparr>file_changes := file_changes d @
                   [\<lparr> fc_id = uuids (mworld e) (draws (mworld e)),
                      fc_project_id = generateProjectId e, fc_file_path = filePath,
                      fc_change_type = changeType,
                      fc_timestamp = clock (mworld e) (Suc (draws (mworld e))),
                      fc_conversation_id = conversationId \<rparr>]\<rparr>)"
  using assms
  by (simp add: trackFileChange_def runQuery_def uuidv4_def new_Date_def Let_def
        insert_file_change_def generateProjectId_def split: if_splits)

text \<open>
  Claim C8 says that \<open>trackFileChange\<close>, like \<open>recordArchitecturalDecision\<close>, bumps the
  project's last-active time. \<open>trackFileChange\<close> runs its \<open>INSERT\<close> and returns: whatever
  the outcome, the \<open>projects\<close> table is the one it started with.
\<close>

theorem trackFileChange_does_not_touch_projects:
  "db e = Some d \<Longrightarrow>
   map_option projects (db (snd (trackFileChange e filePath changeType conversationId))) =
     Some (projects d)"
  by (simp add: trackFileChange_def runQuery_def uuidv4_def new_Date_def Let_def
        insert_file_change_def split: if_splits)

lemma recordArchitecturalDecision_effect:
  assumes "db e = Some d"
      and "fst (recordArchitecturalDecision e decision) = Inr ()"
  shows "db (snd (recordArchitecturalDecision e decision)) =
           Some (d\<lparr>architectural_decisions := architectural_decisions d @
                   [\<lparr> dc_id = uuids (mworld e) (draws (mworld e)),
                      dc_project_id = generateProjectId e,
                      dc_decision = di_decision decision,
                      dc_rationale = Some (di_rationale decision),
                      dc_alternatives = di_alternatives decision,
                      dc_impact = di_impact decision,
                      dc_files_affected = di_filesAffected decision,
                      dc_timestamp = clock (mworld e) (Suc (draws (mworld e))) \<rparr>],
                 projects := map (\<lambda>p. if pr_id p = generateProjectId e
                                       then p\<lparr>pr_last_active :=
                                               clock (mworld e) (Suc (Suc (draws (mworld e))))\<rparr>
                                       else p) (projects d)\<rparr>)"
  using assms
  by (simp add: recordArchitecturalDecision_def updateProjectActivity_def runQuery_def
        uuidv4_def new_Date_def Let_def insert_decision_def update_last_active_def
        generateProjectId_def split: if_splits)

theorem trackFileChange_does_not_touch_projects_witness:
  "fst (trackFileChange ex_memory ''src/a.ts'' ''modified'' None) = Inr () \<and>
   map_option (map pr_last_active \<circ> projects)
     (db (snd (trackFileChange ex_memory ''src/a.ts'' ''modified'' None))) = Some [20] \<and>
   map_option (map pr_last_active \<circ> projects)
     (db (snd (recordArchitecturalDecision ex_memory
        \<lparr> di_decision = ''Use SQLite'', di_rationale = ''embedded'', di_alternatives = [],
          di_impact = [], di_filesAffected = [] \<rparr>))) = Some [1002]"
proof -
  have d: "db ex_memory = Some ex_db" by (simp add: ex_memory_def)
  have 1: "fst (trackFileChange ex_memory ''src/a.ts'' ''modified'' None) = Inr ()"
    by (simp add: trackFileChange_def runQuery_def uuidv4_def new_Date_def Let_def
        insert_file_change_def ex_memory_def ex_db_def)
  have 2: "fst (recordArchitecturalDecision ex_memory
        \<lparr> di_decision = ''Use SQLite'', di_rationale = ''embedded'', di_alternatives = [],
          di_impact = [], di_filesAffected = [] \<rparr>) = Inr ()"
    by (simp add: recordArchitecturalDecision_def updateProjectActivity_def runQuery_def
        uuidv4_def new_Date_def Let_def insert_decision_def update_last_active_def
        ex_memory_def ex_db_def)
  show ?thesis
    using trackFileChange_does_not_touch_projects[OF d, of "''src/a.ts''" "''modified''" None] 1
    by (simp add: recordArchitecturalDecision_effect[OF d 2] map_option_case ex_project_id
          split: option.splits)
       (simp add: ex_db_def ex_memory_def ex_world_def)
qed

subsection \<open>Recording a conversation and reading it back\<close>




lemma runQuery_success:
  assumes "db e = Some d" and "runQuery e stmt = (Inr (), e')"
  shows "\<exists>d'. stmt d (clock (mworld e) (draws (mworld e))) = Inr d' \<and> db e' = Some d' \<and>
              mworld e' = (mworld e)\<lparr>draws := Suc (draws (mworld e))\<rparr> \<and>
              projectPath e' = projectPath e \<and> md5_hex e' = md5_hex e"
  using assms
  by (auto simp: runQuery_def new_Date_def split: sum.splits)














text \<open>
  When the engine is initialized, the drawn conversation id is new and the messages carry
  ids that are distinct and new, \<open>recordConversation\<close> succeeds.
\<close>

lemma runQuery_insert_message_ok:
  assumes "db e = Some d" and "mid \<notin> set (map ms_id (messages d))"
  shows "runQuery e (insert_message mid cid role content meta) =
           (Inr (), e\<lparr>db := Some (d\<lparr>messages := messages d @
                        [\<lparr> ms_id = mid, ms_conversation_id = cid, ms_role = role,
                           ms_content = content,
                           ms_timestamp = clock (mworld e) (draws (mworld e)),
                           ms_metadata = Some meta \<rparr>]\<rparr>),
                      mworld := (mworld e)\<lparr>draws := Suc (draws (mworld e))\<rparr>\<rparr>)"
  using assms by (simp add: runQuery_def new_Date_def insert_message_def)

lemma insert_messages_succeeds:
  assumes "db e = Some d"
      and "\<forall>m \<in> set msgs. m_id m \<noteq> []"
      and "distinct (map m_id msgs)"
      and "set (map m_id msgs) \<inter> set (map ms_id (messages d)) = {}"
  shows "fst (insert_messages e cid msgs) = Inr ()"
  using assms
proof (induction msgs arbitrary: e d)
  case Nil
  then show ?case by simp
next
  case (Cons m rest)
  have ne: "m_id m \<noteq> []" using Cons.prems(2) by simp
  have fresh: "m_id m \<notin> set (map ms_id (messages d))" using Cons.prems(4) by auto
  define row where "row = \<lparr> ms_id = m_id m, ms_conversation_id = cid, ms_role = m_role m,
                           ms_content = m_content m,
                           ms_timestamp = clock (mworld e) (draws (mworld e)),
                           ms_metadata = Some (json_or_empty_object (m_metadata m)) \<rparr>"
  define e2 where "e2 = e\<lparr>db := Some (d\<lparr>messages := messages d @ [row]\<rparr>),
                      mworld := (mworld e)\<lparr>draws := Suc (draws (mworld e))\<rparr>\<rparr>"
  have run: "runQuery e (insert_message (m_id m) cid (m_role m) (m_content m)
                              (json_or_empty_object (m_metadata m))) = (Inr (), e2)"
    unfolding e2_def row_def by (rule runQuery_insert_message_ok[OF Cons.prems(1) fresh])
  have d2: "db e2 = Some (d\<lparr>messages := messages d @ [row]\<rparr>)" by (simp add: e2_def)
  have rid: "ms_id row = m_id m" by (simp add: row_def)
  have "set (map m_id rest) \<inter> set (map ms_id (messages (d\<lparr>messages := messages d @ [row]\<rparr>))) = {}"
    using Cons.prems(3,4) rid by auto
  from Cons.IH[OF d2 _ _ this] Cons.prems(2,3)
  have "fst (insert_messages e2 cid rest) = Inr ()" by simp
  then show ?case by (simp add: ne run)
qed

lemma insert_messages_keeps_handle:
  assumes "db e = Some d" and "insert_messages e cid msgs = (Inr (), e')"
  shows "\<exists>d'. db e' = Some d'"
  using assms
proof (induction msgs arbitrary: e d)
  case Nil
  then show ?case by simp
next
  case (Cons m rest)
  define mid where "mid = (if m_id m \<noteq> [] then m_id m else uuids (mworld e) (draws (mworld e)))"
  define ea where "ea = (if m_id m \<noteq> [] then e
                         else e\<lparr>mworld := (mworld e)\<lparr>draws := Suc (draws (mworld e))\<rparr>\<rparr>)"
  have pick: "(if m_id m \<noteq> [] then (m_id m, e)
               else (case uuidv4 (mworld e) of (u, w1) \<Rightarrow> (u, e\<lparr>mworld := w1\<rparr>))) = (mid, ea)"
    by (simp add: mid_def ea_def uuidv4_def)
  have da: "db ea = Some d" using Cons.prems(1) by (simp add: ea_def)
  obtain r eb where run: "runQuery ea (insert_message mid cid (m_role m) (m_content m)
                            (json_or_empty_object (m_metadata m))) = (r, eb)"
    by (cases "runQuery ea (insert_message mid cid (m_role m) (m_content m)
                            (json_or_empty_object (m_metadata m)))")
  have step: "insert_messages e cid (m # rest) =
                (case r of Inl err \<Rightarrow> (Inl err, eb) | Inr _ \<Rightarrow> insert_messages eb cid rest)"
    by (simp add: pick run)
  from Cons.prems(2) step have r: "r = Inr ()" and rest: "insert_messages eb cid rest = (Inr (), e')"
    by (cases r; simp)+
  from runQuery_success[OF da run[unfolded r]] obtain db' where dbb: "db eb = Some db'" by blast
  from Cons.IH[OF dbb rest] show ?case .
qed

lemma recordConversation_succeeds:
  assumes d: "db e = Some d"
      and fresh: "uuids (mworld e) (draws (mworld e)) \<notin> set (map cv_id (conversations d))"
      and ids: "\<forall>m \<in> set msgs. m_id m \<noteq> []" "distinct (map m_id msgs)"
               "set (map m_id msgs) \<inter> set (map ms_id (messages d)) = {}"
  shows "fst (recordConversation e aiAssistant msgs context) =
           Inr (uuids (mworld e) (draws (mworld e)))"
proof -
  define e1 where "e1 = e\<lparr>mworld := (mworld e)\<lparr>draws := Suc (draws (mworld e))\<rparr>\<rparr>"
  define c0 where "c0 = uuids (mworld e) (draws (mworld e))"
  define d2 where "d2 = d\<lparr>conversations := conversations d @
                 [\<lparr> cv_id = c0, cv_project_id = generateProjectId e, cv_ai_assistant = aiAssistant,
                    cv_timestamp = clock (mworld e1) (draws (mworld e1)),
                    cv_context = Some (json_or_empty_object context), cv_summary = None \<rparr>]\<rparr>"
  define e2 where "e2 = e1\<lparr>db := Some d2, mworld := (mworld e1)\<lparr>draws := Suc (draws (mworld e1))\<rparr>\<rparr>"
  have pid1: "generateProjectId e1 = generateProjectId e"
    by (simp add: e1_def generateProjectId_def)
  have run2: "runQuery e1 (insert_conversation c0 (generateProjectId e) aiAssistant
                               (json_or_empty_object context)) = (Inr (), e2)"
    using d fresh
    by (simp add: runQuery_def new_Date_def insert_conversation_def e1_def e2_def d2_def c0_def)
  have db2: "db e2 = Some d2" by (simp add: e2_def)
  have "set (map m_id msgs) \<inter> set (map ms_id (messages d2)) = {}"
    using ids(3) by (simp add: d2_def)
  from insert_messages_succeeds[OF db2 ids(1) ids(2) this, of c0]
  obtain e3 where run3: "insert_messages e2 c0 msgs = (Inr (), e3)"
    by (cases "insert_messages e2 c0 msgs") simp
  from insert_messages_keeps_handle[OF db2 run3] obtain d3 where db3: "db e3 = Some d3" by blast
  have run4: "fst (updateProjectActivity e3) = Inr ()"
    using db3 by (simp add: updateProjectActivity_def runQuery_def new_Date_def update_last_active_def)
  show ?thesis
    using run2 run3 run4
    by (cases "updateProjectActivity e3")
       (simp add: recordConversation_def uuidv4_def Let_def e1_def[symmetric] c0_def[symmetric] pid1)
qed

subsection \<open>Recall\<close>





lemma length_recent_turns: "length (recent_turns d pid) \<le> 20"
  by (simp add: recent_turns_def)








text \<open>
  The order is that of the conversations, not of the messages. In a project with one
  conversation of 21 messages all rows of the join carry the same conversation timestamp:
  the 20 rows kept are the 20 messages stored first, and \<open>recall\<close> returns the 15 oldest
  turns; the newest six are not among them.
\<close>

lemma recall_long_conversation_keeps_oldest:
  "recall ex_long ''authentication bug'' None =
     Inr (map (\<lambda>i. ConversationFragment (''user: '' @ replicate i (CHR ''a'')) 100 ''claude'')
            [1..<16])"
  by code_simp

text \<open>
  Two conversations started at the same time, with their messages stored alternately:
  the turns come in the order in which the messages were stored.
\<close>

lemma recall_equal_timestamps_in_message_order:
  "recall ex_tie ''authentication bug'' None =
     Inr [ConversationFragment ''user: first'' 7 ''claude'',
          ConversationFragment ''user: second'' 7 ''copilot'',
          ConversationFragment ''assistant: third'' 7 ''claude'',
          ConversationFragment ''user: old'' 3 ''claude'']"
  by code_simp

section \<open>Properties of the team memory\<close>

text \<open>A memory that \<open>createTeamMemory\<close> has stored carries the score 0 until a vote is cast.\<close>

lemma createTeamMemory_score:
  assumes d: "tdb e = Some d"
      and ok: "fst (createTeamMemory e memory) = Inr memoryId"
  shows "\<exists>d' row. tdb (snd (createTeamMemory e memory)) = Some d' \<and>
                  team_memories d' = team_memories d @ [row] \<and>
                  tr_id row = memoryId \<and> tr_success_score row = 0 \<and> tr_usage_count row = 0 \<and>
                  memoryId \<notin> set (map tr_id (team_memories d))"
proof (cases "uuids (tworld e) (draws (tworld e)) \<in> set (map tr_id (team_memories d))")
  case True
  then have "fst (createTeamMemory e memory) =
               Inl ''SQLITE_CONSTRAINT: UNIQUE constraint failed: team_memories.id''"
    using d by (simp add: createTeamMemory_def team_runQuery_def uuidv4_def new_Date_def
                  insert_team_memory_def)
  with ok show ?thesis by simp
next
  case False
  define row where "row = \<lparr> tr_id = uuids (tworld e) (draws (tworld e)), tr_team_id = teamId e,
      tr_type = ti_type memory, tr_title = ti_title memory, tr_content = ti_content memory,
      tr_context = ti_context memory, tr_created_by = ti_createdBy memory,
      tr_created_at = clock (tworld e) (Suc (draws (tworld e))),
      tr_updated_at = clock (tworld e) (Suc (draws (tworld e))), tr_tags = ti_tags memory,
      tr_visibility = ti_visibility memory, tr_project_id = ti_projectId memory,
      tr_metadata = ti_metadata memory, tr_usage_count = 0, tr_success_score = 0 \<rparr>"
  have run: "createTeamMemory e memory =
               (Inr (uuids (tworld e) (draws (tworld e))),
                e\<lparr>tdb := Some (d\<lparr>team_memories := team_memories d @ [row]\<rparr>),
                  tworld := (tworld e)\<lparr>draws := Suc (Suc (draws (tworld e)))\<rparr>\<rparr>)"
    using d False
    by (simp add: createTeamMemory_def team_runQuery_def uuidv4_def new_Date_def
          insert_team_memory_def row_def)
  from ok run have mid: "memoryId = uuids (tworld e) (draws (tworld e))" by simp
  show ?thesis
    unfolding run mid using False
    by (intro exI[of _ "d\<lparr>team_memories := team_memories d @ [row]\<rparr>"] exI[of _ row])
       (simp add: row_def)
qed

lemma updateMemorySuccessScore_effect:
  "tdb e = Some d \<Longrightarrow>
   updateMemorySuccessScore e memoryId =
     (Inr (), e\<lparr>tdb := Some (d\<lparr>team_memories :=
                 map (\<lambda>r. if tr_id r = memoryId
                          then r\<lparr>tr_success_score := vote_score d memoryId\<rparr> else r)
                     (team_memories d)\<rparr>),
               tworld := (tworld e)\<lparr>draws := Suc (draws (tworld e))\<rparr>\<rparr>)"
  by (simp add: updateMemorySuccessScore_def team_runQuery_def new_Date_def Let_def
        update_success_score_def vote_score_def)

lemma voteOnMemory_effect:
  assumes "tdb e = Some d"
  shows "voteOnMemory e memoryId memberId v =
     (let d1 = d\<lparr>team_memory_votes :=
                  filter (\<lambda>r. vr_id r \<noteq> uuids (tworld e) (draws (tworld e)) \<and>
                               \<not> (vr_memory_id r = memoryId \<and> vr_member_id r = memberId))
                         (team_memory_votes d)
                  @ [\<lparr> vr_id = uuids (tworld e) (draws (tworld e)), vr_memory_id = memoryId,
                        vr_member_id = memberId, vr_vote = v,
                        vr_timestamp = clock (tworld e) (Suc (draws (tworld e))) \<rparr>]\<rparr>
      in (Inr (), e\<lparr>tdb := Some (d1\<lparr>team_memories :=
                 map (\<lambda>r. if tr_id r = memoryId
                          then r\<lparr>tr_success_score := vote_score d1 memoryId\<rparr> else r)
                     (team_memories d1)\<rparr>),
               tworld := (tworld e)\<lparr>draws := Suc (Suc (Suc (draws (tworld e))))\<rparr>\<rparr>))"
  using assms
  by (simp add: voteOnMemory_def team_runQuery_def uuidv4_def new_Date_def Let_def upsert_vote_def
        updateMemorySuccessScore_effect)

text \<open>After a vote the stored score of the memory is the share of upvotes among its votes.\<close>

lemma voteOnMemory_score:
  assumes d: "tdb e = Some d"
      and d': "tdb (snd (voteOnMemory e memoryId memberId v)) = Some d'"
      and row: "r \<in> set (team_memories d')" "tr_id r = memoryId"
  shows "tr_success_score r = vote_score d' memoryId"
proof -
  define d1 where "d1 = d\<lparr>team_memory_votes :=
                  filter (\<lambda>r. vr_id r \<noteq> uuids (tworld e) (draws (tworld e)) \<and>
                               \<not> (vr_memory_id r = memoryId \<and> vr_member_id r = memberId))
                         (team_memory_votes d)
                  @ [\<lparr> vr_id = uuids (tworld e) (draws (tworld e)), vr_memory_id = memoryId,
                        vr_member_id = memberId, vr_vote = v,
                        vr_timestamp = clock (tworld e) (Suc (draws (tworld e))) \<rparr>]\<rparr>"
  define g :: "team_memory_row \<Rightarrow> team_memory_row" where "g = (\<lambda>r. if tr_id r = memoryId
                          then r\<lparr>tr_success_score := vote_score d1 memoryId\<rparr> else r)"
  have "tdb (snd (voteOnMemory e memoryId memberId v)) =
          Some (d1\<lparr>team_memories := map g (team_memories d1)\<rparr>)"
    unfolding voteOnMemory_effect[OF d] d1_def g_def Let_def by simp
  with d' have eq: "d' = d1\<lparr>team_memories := map g (team_memories d1)\<rparr>" by simp
  have vs: "vote_score d' memoryId = vote_score d1 memoryId"
    by (simp add: eq vote_score_def)
  from row(1) obtain r0 where r0: "r = g r0" by (auto simp: eq)
  show ?thesis
  proof (cases "tr_id r0 = memoryId")
    case True
    then show ?thesis by (simp add: r0 g_def vs)
  next
    case False
    then have "tr_id r \<noteq> memoryId" by (simp add: r0 g_def)
    with row(2) show ?thesis by simp
  qed
qed

lemma ex_team_new_eval:
  "fst (createTeamMemory ex_team ex_memory_input) = Inr ''id-''"
  "tdb ex_team_new = Some (ex_team_db\<lparr>team_memories := team_memories ex_team_db @
      [\<lparr> tr_id = ''id-'', tr_team_id = ''team-1'', tr_type = ''pattern'',
         tr_title = ''Retry with backoff'', tr_content = ''Wrap flaky calls'',
         tr_context = None, tr_created_by = ''u-dev'', tr_created_at = 1001,
         tr_updated_at = 1001, tr_tags = Some ''[]'', tr_visibility = Some ''team_only'',
         tr_project_id = None, tr_metadata = Some ''{}'', tr_usage_count = 0,
         tr_success_score = 0 \<rparr>]\<rparr>)"
  "teamId ex_team_new = ''team-1''"
  "tworld ex_team_new = ex_world\<lparr>draws := 2\<rparr>"
  by (simp_all add: ex_team_new_def createTeamMemory_def team_runQuery_def uuidv4_def new_Date_def
        Let_def insert_team_memory_def ex_team_def ex_team_db_def ex_world_def
        ex_memory_input_def)

text \<open>
  Claim C3 says that a memory on which no vote was cast has success score 0.5. The score
  is computed (with 0.5 for no votes) only by \<open>updateMemorySuccessScore\<close>, which runs
  after a vote; a memory that \<open>createTeamMemory\<close> has just stored carries the column's
  \<open>DEFAULT 0.0\<close>, and that is what \<open>getTeamMemories\<close> returns.
\<close>

theorem unvoted_memory_reads_score_zero:
  "fst (createTeamMemory ex_team ex_memory_input) = Inr ''id-'' \<and>
   map_sum id (map (\<lambda>m. (mem_id m, mem_votes m, mem_successScore m)))
     (getTeamMemories (snd (createTeamMemory ex_team ex_memory_input))) =
   Inr [(''id-'', [], 0), (''m1'', [], 0)]"
  unfolding ex_team_new_def[symmetric]
  by (simp add: ex_team_new_eval getTeamMemories_def order_by_desc_def getMemoryVotes_def
        index_order_def ex_team_db_def)

text \<open>
  Three upvotes and one downvote by four members: the score read back is 0.75, and the
  votes come in the order of the member ids.
\<close>

lemma three_up_one_down:
  "map_sum id (map (\<lambda>m. (mem_id m, map (\<lambda>v. (v_memberId v, v_vote v)) (mem_votes m),
                          mem_successScore m)))
     (getTeamMemories ex_team_voted) =
   Inr [(''id-'', [(''u-admin'', ''upvote''), (''u-dev'', ''upvote''), (''u-lead'', ''downvote''),
                   (''u-obs'', ''upvote'')], 0.75),
        (''m1'', [], 0)]"
  unfolding ex_team_voted_def
  by (simp add: voteOnMemory_effect ex_team_new_eval Let_def vote_score_def
        double_quotient_def round_half_even_def binade.simps
        getTeamMemories_def order_by_desc_def getMemoryVotes_def index_order_def ex_team_db_def
        ex_world_def)

text \<open>One upvote among three votes is stored as the double nearest to one third.\<close>

lemma double_quotient_examples:
  "double_quotient 3 4 = 3 / 4"
  "double_quotient 1 2 = 1 / 2"
  "double_quotient 2 2 = 1"
  "double_quotient 0 2 = 0"
  "double_quotient 1 3 = 6004799503160661 / 18014398509481984"
  by (simp_all add: double_quotient_def round_half_even_def binade.simps Let_def)

text \<open>
  The exponent that \<open>binade\<close> finds is the least one that brings the quotient to at least
  1; the stored score is exact when the quotient fits 53 bits, and within half a unit in
  the last place otherwise.
\<close>

lemma binade_reaches: "0 < n \<Longrightarrow> d \<le> n * 2 ^ binade n d"
proof (induction n d rule: binade.induct)
  case (1 n d)
  show ?case
  proof (cases "d \<le> n")
    case True
    then show ?thesis by (simp add: binade.simps[of n d])
  next
    case False
    with 1 have "d \<le> 2 * n * 2 ^ binade (2 * n) d" by simp
    with False 1(2) show ?thesis by (simp add: binade.simps[of n d])
  qed
qed

lemma binade_least: "0 < n \<Longrightarrow> k < binade n d \<Longrightarrow> n * 2 ^ k < d"
proof (induction n d arbitrary: k rule: binade.induct)
  case (1 n d)
  show ?case
  proof (cases "d \<le> n")
    case True
    with 1(3) show ?thesis by (simp add: binade.simps[of n d])
  next
    case False
    note small = this
    show ?thesis
    proof (cases k)
      case 0
      with small show ?thesis by simp
    next
      case (Suc k')
      with 1(3) small 1(2) have "k' < binade (2 * n) d" by (simp add: binade.simps[of n d])
      with 1(1)[of k'] small 1(2) have "2 * n * 2 ^ k' < d" by simp
      with Suc show ?thesis by simp
    qed
  qed
qed

lemma round_half_even_exact: "0 < d \<Longrightarrow> d dvd n \<Longrightarrow> round_half_even n d = n div d"
  by (auto simp: round_half_even_def Let_def)

lemma double_quotient_exact:
  assumes "0 < d" and "d dvd n * 2 ^ (52 + binade n d)"
  shows "double_quotient n d = real n / real d"
proof -
  define K where "K = 52 + binade n d"
  have "real (n * 2 ^ K div d) = real (n * 2 ^ K) / real d"
    using assms(2) unfolding K_def by (rule real_of_nat_div)
  then show ?thesis
    using assms by (simp add: double_quotient_def Let_def round_half_even_exact K_def)
qed

lemma round_half_even_near:
  assumes "0 < d"
  shows "\<bar>real (round_half_even n d) - real n / real d\<bar> \<le> 1 / 2"
proof -
  define q where "q = n div d"
  define r where "r = n mod d"
  have n: "real n = real q * real d + real r"
    unfolding q_def r_def by (metis div_mult_mod_eq of_nat_add of_nat_mult)
  have rd: "r < d" unfolding r_def using assms by simp
  have quot: "real n / real d = real q + real r / real d"
    using assms by (simp add: n field_simps)
  have cases: "round_half_even n d = q \<and> 2 * r \<le> d \<or> round_half_even n d = q + 1 \<and> d \<le> 2 * r"
    by (auto simp: round_half_even_def Let_def q_def r_def)
  then show ?thesis
  proof
    assume a: "round_half_even n d = q \<and> 2 * r \<le> d"
    then have "real r / real d \<le> 1 / 2" using assms by (simp add: field_simps)
    with a show ?thesis by (simp add: quot)
  next
    assume a: "round_half_even n d = q + 1 \<and> d \<le> 2 * r"
    then have "1 / 2 \<le> real r / real d" using assms by (simp add: field_simps)
    moreover have "real r / real d < 1" using rd assms by simp
    ultimately show ?thesis using a by (simp add: quot)
  qed
qed

lemma double_quotient_near:
  assumes "0 < d"
  shows "\<bar>double_quotient n d - real n / real d\<bar> \<le> 1 / 2 ^ (53 + binade n d)"
proof -
  define K where "K = 52 + binade n d"
  have "\<bar>real (round_half_even (n * 2 ^ K) d) - real (n * 2 ^ K) / real d\<bar> \<le> 1 / 2"
    by (rule round_half_even_near[OF assms])
  then have "\<bar>real (round_half_even (n * 2 ^ K) d) - real (n * 2 ^ K) / real d\<bar> / 2 ^ K
               \<le> (1 / 2) / 2 ^ K"
    by (rule divide_right_mono) simp
  moreover have "\<bar>real (round_half_even (n * 2 ^ K) d) - real (n * 2 ^ K) / real d\<bar> / 2 ^ K =
                 \<bar>double_quotient n d - real n / real d\<bar>"
  proof -
    have "\<bar>x - y\<bar> / 2 ^ K = \<bar>x / 2 ^ K - y / 2 ^ K\<bar>" for x y :: real
      by (simp add: diff_divide_distrib[symmetric])
    then show ?thesis
      by (simp add: double_quotient_def Let_def K_def[symmetric])
  qed
  moreover have "(1 / 2) / 2 ^ K = 1 / (2::real) ^ (53 + binade n d)"
  proof -
    have "(2::real) ^ (53 + binade n d) = 2 * 2 ^ K"
      unfolding K_def by (simp add: power_add)
    then show ?thesis by simp
  qed
  ultimately show ?thesis by simp
qed

end
